(* ===== verification/Prelude.thy ===== *)
theory Prelude
  imports Main
begin

text \<open>
  Shared vocabulary of the development: Go's error values, the pair \<open>(value, error)\<close> of a
  Go return as a sum, and the few generic facts on maps, lists and sums that the component
  theories use.

  A Go \<open>error\<close> is a value with an identity and a chain of wrapped errors. A package-level
  \<open>errors.New\<close> is a \<open>Sentinel\<close> named by its Go variable; an error that wraps nothing and is
  compared with nothing is \<open>Errorf\<close>; \<open>fmt.Errorf("...: %w", err)\<close> is \<open>Wrapf\<close>; an error
  that wraps several others (golang-jwt builds such values) is \<open>Join\<close>.
\<close>

datatype goerror =
    Sentinel string
  | Errorf string
  | Wrapf string goerror
  | Join string "goerror list"

text \<open>\<open>errors.Is(err, target)\<close> for a package-level target: the chain is searched for it.\<close>

fun errors_Is :: "goerror \<Rightarrow> string \<Rightarrow> bool" where
  "errors_Is (Sentinel n) t = (n = t)"
| "errors_Is (Errorf m) t = False"
| "errors_Is (Wrapf m e) t = errors_Is e t"
| "errors_Is (Join m es) t = list_ex (\<lambda>e. errors_Is e t) es"

text \<open>A Go pair \<open>(T, error)\<close>: \<open>Inl\<close> the error, \<open>Inr\<close> the value with a nil error.\<close>

type_synonym 'a res = "goerror + 'a"

text \<open>Collections that the component theories extend.\<close>

named_theorems run_simps
  "equations that execute a program of the effect language"
named_theorems key_simps
  "distinctness of the key families of the cache"

lemma append_same_prefix_neq:
  "p \<noteq> q \<Longrightarrow> length p = length q \<Longrightarrow> p @ x \<noteq> q @ y"
  by simp

lemma sum_case_Inr_iff:
  "(case r of Inl e \<Rightarrow> False | Inr x \<Rightarrow> P x) \<longleftrightarrow> (\<exists>x. r = Inr x \<and> P x)"
  by (cases r) auto

lemma list_ex_mem: "list_ex (\<lambda>y. y = x) xs \<longleftrightarrow> x \<in> set xs"
  by (induction xs) auto

end
