(* ===== verification/GoStrings.thy ===== *)
theory GoStrings
  imports Prelude
begin

text \<open>
  The functions of Go's \<open>strings\<close>, \<open>strconv\<close> and \<open>fmt\<close> that the program calls. A Go string
  is a byte sequence, as \<open>string\<close> is here. The functions are the ASCII ones: bytes from 128
  up are ordinary characters that are neither white space nor letters with a lower case.
\<close>

section \<open>White space, case, prefixes\<close>

definition is_space :: "char \<Rightarrow> bool" where
  "is_space c \<longleftrightarrow> c \<in> {CHR 0x09, CHR 0x0A, CHR 0x0B, CHR 0x0C, CHR 0x0D, CHR 0x20}"

text \<open>\<open>strings.TrimSpace\<close>, \<open>strings.ToLower\<close>.\<close>

definition strings_TrimSpace :: "string \<Rightarrow> string" where
  "strings_TrimSpace s = rev (dropWhile is_space (rev (dropWhile is_space s)))"

definition to_lower_char :: "char \<Rightarrow> char" where
  "to_lower_char c =
     (let n = of_char c :: nat in if 65 \<le> n \<and> n \<le> 90 then char_of (n + 32) else c)"

definition strings_ToLower :: "string \<Rightarrow> string" where
  "strings_ToLower s = map to_lower_char s"

text \<open>\<open>strings.HasPrefix\<close>, \<open>strings.TrimPrefix\<close>.\<close>

fun strings_HasPrefix :: "string \<Rightarrow> string \<Rightarrow> bool" where
  "strings_HasPrefix s [] = True"
| "strings_HasPrefix [] (p # ps) = False"
| "strings_HasPrefix (c # s) (p # ps) = (c = p \<and> strings_HasPrefix s ps)"

definition strings_TrimPrefix :: "string \<Rightarrow> string \<Rightarrow> string" where
  "strings_TrimPrefix s p = (if strings_HasPrefix s p then drop (length p) s else s)"

lemma HasPrefix_iff: "strings_HasPrefix s p \<longleftrightarrow> (\<exists>r. s = p @ r)"
  by (induction s p rule: strings_HasPrefix.induct) auto

lemma HasPrefix_append [simp]: "strings_HasPrefix (p @ r) p"
  by (auto simp: HasPrefix_iff)

lemma TrimPrefix_append [simp]: "strings_TrimPrefix (p @ r) p = r"
  by (simp add: strings_TrimPrefix_def)

section \<open>Fields, Split and Join\<close>

text \<open>
  \<open>strings.Fields\<close> (and \<open>FieldsSeq\<close>): the maximal runs of non-space bytes. The accumulator
  is the current run, reversed.
\<close>

fun fields_acc :: "string \<Rightarrow> string \<Rightarrow> string list" where
  "fields_acc cur [] = (if cur = [] then [] else [rev cur])"
| "fields_acc cur (c # cs) =
     (if is_space c then (if cur = [] then fields_acc [] cs else rev cur # fields_acc [] cs)
      else fields_acc (c # cur) cs)"

definition strings_Fields :: "string \<Rightarrow> string list" where
  "strings_Fields s = fields_acc [] s"

text \<open>\<open>strings.Join(xs, sep)\<close>.\<close>

fun strings_Join :: "string list \<Rightarrow> string \<Rightarrow> string" where
  "strings_Join [] sep = []"
| "strings_Join [x] sep = x"
| "strings_Join (x # y # xs) sep = x @ sep @ strings_Join (y # xs) sep"

text \<open>\<open>strings.Split(s, sep)\<close> (and \<open>SplitSeq\<close>) for a separator of one byte.\<close>

fun split_acc :: "char \<Rightarrow> string \<Rightarrow> string \<Rightarrow> string list" where
  "split_acc sep cur [] = [rev cur]"
| "split_acc sep cur (c # cs) =
     (if c = sep then rev cur # split_acc sep [] cs else split_acc sep (c # cur) cs)"

definition strings_Split :: "string \<Rightarrow> char \<Rightarrow> string list" where
  "strings_Split s sep = split_acc sep [] s"

text \<open>A field: a non-empty string without white space.\<close>

definition is_field :: "string \<Rightarrow> bool" where
  "is_field f \<longleftrightarrow> f \<noteq> [] \<and> list_all (\<lambda>c. \<not> is_space c) f"

lemma fields_acc_are_fields:
  "list_all (\<lambda>c. \<not> is_space c) cur \<Longrightarrow> f \<in> set (fields_acc cur s) \<Longrightarrow> is_field f"
proof (induction s arbitrary: cur)
  case Nil
  then show ?case by (simp add: is_field_def split: if_splits)
next
  case (Cons c s)
  have rev_field: "cur \<noteq> [] \<Longrightarrow> is_field (rev cur)"
    using Cons.prems(1) by (simp add: is_field_def)
  show ?case
  proof (cases "is_space c")
    case True
    then have "f = rev cur \<and> cur \<noteq> [] \<or> f \<in> set (fields_acc [] s)"
      using Cons.prems(2) by (simp split: if_splits)
    then show ?thesis
      using rev_field Cons.IH [of "[]"] by auto
  next
    case False
    then show ?thesis
      using Cons.prems Cons.IH [of "c # cur"] by simp
  qed
qed

lemma Fields_are_fields: "f \<in> set (strings_Fields s) \<Longrightarrow> is_field f"
  using fields_acc_are_fields [of "[]" f s] by (simp add: strings_Fields_def)

lemma fields_acc_word:
  "list_all (\<lambda>c. \<not> is_space c) f \<Longrightarrow> fields_acc cur (f @ s) = fields_acc (rev f @ cur) s"
  by (induction f arbitrary: cur) auto

lemma Fields_Join:
  "list_all is_field fs \<Longrightarrow> strings_Fields (strings_Join fs '' '') = fs"
proof (induction fs rule: induct_list012)
  case 1
  then show ?case by (simp add: strings_Fields_def)
next
  case (2 x)
  then have x: "x \<noteq> []" "list_all (\<lambda>c. \<not> is_space c) x" by (auto simp: is_field_def)
  then show ?case using fields_acc_word [OF x(2), of "[]" "[]"] by (simp add: strings_Fields_def)
next
  case (3 x y zs)
  then have x: "x \<noteq> []" "list_all (\<lambda>c. \<not> is_space c) x" by (auto simp: is_field_def)
  have sp: "is_space CHR '' ''" by (simp add: is_space_def)
  have "strings_Fields (strings_Join (y # zs) '' '') = y # zs"
    using 3 by simp
  then have "fields_acc [] (strings_Join (y # zs) '' '') = y # zs"
    by (simp only: strings_Fields_def)
  then show ?case
    using fields_acc_word [OF x(2), of "[]" "CHR '' '' # strings_Join (y # zs) '' ''"] x(1) sp
    by (simp add: strings_Fields_def)
qed

lemma Fields_empty [simp]: "strings_Fields [] = []"
  by (simp add: strings_Fields_def)

lemma Join_eq_Nil_iff:
  "list_all is_field fs \<Longrightarrow> strings_Join fs '' '' = [] \<longleftrightarrow> fs = []"
  using Fields_Join by fastforce

section \<open>Decimal numbers\<close>

definition digit_char :: "nat \<Rightarrow> char" where
  "digit_char d = char_of (48 + d)"

definition char_digit :: "char \<Rightarrow> nat option" where
  "char_digit c = (let n = of_char c :: nat in if 48 \<le> n \<and> n \<le> 57 then Some (n - 48) else None)"

text \<open>\<open>strconv.FormatInt(n, 10)\<close> on a natural number.\<close>

fun format_nat :: "nat \<Rightarrow> string" where
  "format_nat n =
     (if n < 10 then [digit_char n] else format_nat (n div 10) @ [digit_char (n mod 10)])"

declare format_nat.simps [simp del]

definition strconv_Itoa :: "int \<Rightarrow> string" where
  "strconv_Itoa i = (if i < 0 then CHR ''-'' # format_nat (nat (- i)) else format_nat (nat i))"

text \<open>\<open>strconv.ParseInt(s, 10, 64)\<close>: an optional sign, digits only, in the range of int64.\<close>

fun parse_digits :: "nat \<Rightarrow> string \<Rightarrow> nat option" where
  "parse_digits acc [] = Some acc"
| "parse_digits acc (c # cs) =
     (case char_digit c of None \<Rightarrow> None | Some d \<Rightarrow> parse_digits (10 * acc + d) cs)"

definition parse_unsigned :: "string \<Rightarrow> nat option" where
  "parse_unsigned s = (if s = [] then None else parse_digits 0 s)"

definition strconv_ParseInt :: "string \<Rightarrow> int res" where
  "strconv_ParseInt s =
     (let (neg, body) =
        (case s of
           [] \<Rightarrow> (False, [])
         | c # cs \<Rightarrow> if c = CHR ''-'' then (True, cs)
                     else if c = CHR ''+'' then (False, cs) else (False, s))
      in case parse_unsigned body of
           None \<Rightarrow> Inl (Errorf ''strconv.ParseInt: invalid syntax'')
         | Some n \<Rightarrow>
             (let i = (if neg then - int n else int n)
              in if - (2 ^ 63) \<le> i \<and> i < 2 ^ 63 then Inr i
                 else Inl (Errorf ''strconv.ParseInt: value out of range'')))"

text \<open>\<open>fmt.Sprintf("%06d", n)\<close> for a non-negative \<open>n\<close>: padded with zeros to six digits.\<close>

definition sprintf_06d :: "nat \<Rightarrow> string" where
  "sprintf_06d n =
     (let s = format_nat n in replicate (6 - length s) CHR ''0'' @ s)"

lemma char_digit_digit_char [simp]: "d < 10 \<Longrightarrow> char_digit (digit_char d) = Some d"
  by (simp add: char_digit_def digit_char_def of_char_of)

lemma parse_digits_append:
  "parse_digits acc (s @ t) =
     (case parse_digits acc s of None \<Rightarrow> None | Some a \<Rightarrow> parse_digits a t)"
  by (induction acc s rule: parse_digits.induct) (auto split: option.splits)

lemma parse_digits_shift:
  "parse_digits acc s = map_option (\<lambda>n. acc * 10 ^ length s + n) (parse_digits 0 s)"
proof (induction s arbitrary: acc)
  case Nil
  then show ?case by simp
next
  case (Cons c s)
  show ?case
  proof (cases "char_digit c")
    case None
    then show ?thesis by simp
  next
    case (Some d)
    have "parse_digits (10 * acc + d) s
            = map_option (\<lambda>n. (10 * acc + d) * 10 ^ length s + n) (parse_digits 0 s)"
      by (rule Cons)
    moreover have "parse_digits d s = map_option (\<lambda>n. d * 10 ^ length s + n) (parse_digits 0 s)"
      by (rule Cons)
    ultimately show ?thesis
      using Some by (cases "parse_digits 0 s") (simp_all add: algebra_simps)
  qed
qed

lemma parse_format_nat: "parse_digits 0 (format_nat n) = Some n"
proof (induction n rule: format_nat.induct)
  case (1 n)
  show ?case
  proof (cases "n < 10")
    case True
    then show ?thesis by (subst format_nat.simps) simp
  next
    case False
    then show ?thesis
      using 1 by (subst format_nat.simps) (simp add: parse_digits_append)
  qed
qed

lemma format_nat_nonempty [simp]: "format_nat n \<noteq> []"
  by (subst format_nat.simps) simp

lemma format_nat_digits:
  "c \<in> set (format_nat n) \<Longrightarrow> \<exists>d < 10. c = digit_char d"
proof (induction n rule: format_nat.induct)
  case (1 n)
  show ?case
  proof (cases "n < 10")
    case True
    with 1 show ?thesis by (auto simp: format_nat.simps [of n])
  next
    case False
    then have "c \<in> set (format_nat (n div 10)) \<or> c = digit_char (n mod 10)"
      using "1.prems" by (auto simp: format_nat.simps [of n])
    then show ?thesis
      using "1.IH" False by (auto intro: exI [of _ "n mod 10"])
  qed
qed

lemma length_format_nat: "n < 10 ^ k \<Longrightarrow> 0 < k \<Longrightarrow> length (format_nat n) \<le> k"
proof (induction k arbitrary: n)
  case 0
  then show ?case by simp
next
  case (Suc k)
  show ?case
  proof (cases "n < 10")
    case True
    then show ?thesis by (simp add: format_nat.simps [of n])
  next
    case False
    with Suc.prems have "n div 10 < 10 ^ k" "0 < k"
      by (auto simp: less_mult_imp_div_less intro: gr0I)
    with Suc.IH have "length (format_nat (n div 10)) \<le> k" by blast
    with False show ?thesis by (simp add: format_nat.simps [of n])
  qed
qed

lemma digit_char_inj: "d < 10 \<Longrightarrow> e < 10 \<Longrightarrow> digit_char d = digit_char e \<Longrightarrow> d = e"
  by (metis char_digit_digit_char option.inject)

lemma digit_char_not_sign: "d < 10 \<Longrightarrow> digit_char d \<noteq> CHR ''-'' \<and> digit_char d \<noteq> CHR ''+''"
proof -
  assume "d < 10"
  then have "char_digit (digit_char d) = Some d" by simp
  moreover have "char_digit CHR ''-'' = None" "char_digit CHR ''+'' = None"
    by (simp_all add: char_digit_def)
  ultimately show ?thesis by auto
qed

lemma ParseInt_format_nat:
  assumes "int n < 2 ^ 63"
  shows "strconv_ParseInt (format_nat n) = Inr (int n)"
proof -
  obtain c cs where s: "format_nat n = c # cs"
    by (meson format_nat_nonempty neq_Nil_conv)
  then obtain d where "d < 10" "c = digit_char d"
    using format_nat_digits [of c n] by auto
  then have "c \<noteq> CHR ''-''" "c \<noteq> CHR ''+''"
    using digit_char_not_sign by auto
  moreover have "parse_unsigned (c # cs) = Some n"
    using parse_format_nat [of n] s by (simp add: parse_unsigned_def)
  ultimately show ?thesis
    using s assms by (simp add: strconv_ParseInt_def)
qed

lemma ParseInt_Itoa:
  assumes "0 \<le> i" "i < 2 ^ 63"
  shows "strconv_ParseInt (strconv_Itoa i) = Inr i"
  using ParseInt_format_nat [of "nat i"] assms by (simp add: strconv_Itoa_def)

lemma Itoa_nonempty [simp]: "strconv_Itoa i \<noteq> []"
  by (simp add: strconv_Itoa_def)

lemma parse_zeros: "parse_digits 0 (replicate k CHR ''0'' @ s) = parse_digits 0 s"
  by (induction k) (simp_all add: char_digit_def)

lemma parse_sprintf_06d: "parse_digits 0 (sprintf_06d n) = Some n"
  by (simp add: sprintf_06d_def Let_def parse_zeros parse_format_nat)

lemma sprintf_06d_inj: "sprintf_06d m = sprintf_06d n \<longleftrightarrow> m = n"
  by (metis option.inject parse_sprintf_06d)

lemma length_sprintf_06d: "n < 1000000 \<Longrightarrow> length (sprintf_06d n) = 6"
  using length_format_nat [of n 6] by (simp add: sprintf_06d_def Let_def)

lemma sprintf_06d_digits: "c \<in> set (sprintf_06d n) \<Longrightarrow> \<exists>d < 10. c = digit_char d"
proof -
  assume c: "c \<in> set (sprintf_06d n)"
  then have "c = CHR ''0'' \<or> c \<in> set (format_nat n)"
    by (auto simp: sprintf_06d_def Let_def)
  moreover have "CHR ''0'' = digit_char 0" by code_simp
  ultimately show ?thesis
    using format_nat_digits by (auto intro: exI [of _ 0])
qed

end
