(* ===== verification/GoEncoding.thy ===== *)
theory GoEncoding
  imports Prelude
begin

text \<open>
  Go's \<open>encoding/base64\<close> and \<open>encoding/hex\<close> as the program uses them:
  \<open>RawURLEncoding\<close> (no padding, alphabet ending in - and _), \<open>StdEncoding\<close> (padding,
  alphabet ending in + and /) and lower-case hexadecimal. The round trips make the encoded
  forms faithful names of the byte strings they carry.
\<close>

section \<open>The alphabets\<close>

definition b64_char :: "bool \<Rightarrow> nat \<Rightarrow> char" where
  "b64_char url i =
     (if i < 26 then char_of (65 + i)
      else if i < 52 then char_of (97 + (i - 26))
      else if i < 62 then char_of (48 + (i - 52))
      else if i = 62 then (if url then CHR ''-'' else CHR ''+'')
      else (if url then CHR ''_'' else CHR ''/''))"

definition b64_index :: "bool \<Rightarrow> char \<Rightarrow> nat option" where
  "b64_index url c =
     (let n = of_char c :: nat in
      if 65 \<le> n \<and> n \<le> 90 then Some (n - 65)
      else if 97 \<le> n \<and> n \<le> 122 then Some (n - 97 + 26)
      else if 48 \<le> n \<and> n \<le> 57 then Some (n - 48 + 52)
      else if c = (if url then CHR ''-'' else CHR ''+'') then Some 62
      else if c = (if url then CHR ''_'' else CHR ''/'') then Some 63
      else None)"

section \<open>Encoding and decoding without padding\<close>

fun b64_encode_raw :: "bool \<Rightarrow> nat list \<Rightarrow> string" where
  "b64_encode_raw u (a # b # c # xs) =
     b64_char u (a div 4) # b64_char u (a mod 4 * 16 + b div 16) #
     b64_char u (b mod 16 * 4 + c div 64) # b64_char u (c mod 64) # b64_encode_raw u xs"
| "b64_encode_raw u [a, b] =
     [b64_char u (a div 4), b64_char u (a mod 4 * 16 + b div 16), b64_char u (b mod 16 * 4)]"
| "b64_encode_raw u [a] = [b64_char u (a div 4), b64_char u (a mod 4 * 16)]"
| "b64_encode_raw u [] = []"

text \<open>Groups of four sextets; a rest of two or three is allowed, of one is an error.\<close>

fun b64_decode_sextets :: "nat list \<Rightarrow> nat list option" where
  "b64_decode_sextets (p # q # r # s # xs) =
     map_option (\<lambda>ys. (p * 4 + q div 16) # (q mod 16 * 16 + r div 4) # (r mod 4 * 64 + s) # ys)
       (b64_decode_sextets xs)"
| "b64_decode_sextets [p, q, r] = Some [p * 4 + q div 16, q mod 16 * 16 + r div 4]"
| "b64_decode_sextets [p, q] = Some [p * 4 + q div 16]"
| "b64_decode_sextets [p] = None"
| "b64_decode_sextets [] = Some []"

fun b64_indices :: "bool \<Rightarrow> string \<Rightarrow> nat list option" where
  "b64_indices u [] = Some []"
| "b64_indices u (c # cs) =
     (case b64_index u c of
        None \<Rightarrow> None
      | Some i \<Rightarrow> map_option (\<lambda>is. i # is) (b64_indices u cs))"

text \<open>The decoder skips carriage returns and line feeds.\<close>

definition strip_newlines :: "string \<Rightarrow> string" where
  "strip_newlines s = filter (\<lambda>c. c \<noteq> CHR 0x0A \<and> c \<noteq> CHR 0x0D) s"

definition b64_decode_raw :: "bool \<Rightarrow> string \<Rightarrow> nat list option" where
  "b64_decode_raw u s =
     (case b64_indices u (strip_newlines s) of
        None \<Rightarrow> None | Some is \<Rightarrow> b64_decode_sextets is)"

definition base64_RawURL_EncodeToString :: "string \<Rightarrow> string" where
  "base64_RawURL_EncodeToString bs = b64_encode_raw True (map of_char bs)"

definition base64_RawURL_DecodeString :: "string \<Rightarrow> string res" where
  "base64_RawURL_DecodeString s =
     (case b64_decode_raw True s of
        None \<Rightarrow> Inl (Errorf ''illegal base64 data'')
      | Some bs \<Rightarrow> Inr (map char_of bs))"

section \<open>The padded encoding\<close>

definition base64_Std_EncodeToString :: "string \<Rightarrow> string" where
  "base64_Std_EncodeToString bs =
     (let e = b64_encode_raw False (map of_char bs)
      in e @ replicate ((4 - length e mod 4) mod 4) CHR ''='')"

definition strip_padding :: "string \<Rightarrow> string option" where
  "strip_padding s =
     (if length s mod 4 \<noteq> 0 then None
      else if s = [] then Some []
      else if last s \<noteq> CHR ''='' then Some s
      else if last (butlast s) \<noteq> CHR ''='' then Some (butlast s)
      else Some (butlast (butlast s)))"

definition base64_Std_DecodeString :: "string \<Rightarrow> string res" where
  "base64_Std_DecodeString s =
     (case Option.bind (strip_padding (strip_newlines s)) (b64_decode_raw False) of
        None \<Rightarrow> Inl (Errorf ''illegal base64 data'')
      | Some bs \<Rightarrow> Inr (map char_of bs))"

section \<open>Hexadecimal\<close>

definition hex_char :: "nat \<Rightarrow> char" where
  "hex_char n = (if n < 10 then char_of (48 + n) else char_of (87 + n))"

definition hex_EncodeToString :: "string \<Rightarrow> string" where
  "hex_EncodeToString bs =
     concat (map (\<lambda>c. let n = of_char c in [hex_char (n div 16), hex_char (n mod 16)]) bs)"

lemma length_hex_EncodeToString: "length (hex_EncodeToString bs) = 2 * length bs"
  by (induction bs) (simp_all add: hex_EncodeToString_def Let_def)

section \<open>Round trips\<close>

lemma b64_index_char [simp]: "i < 64 \<Longrightarrow> b64_index u (b64_char u i) = Some i"
  by (auto simp: b64_index_def b64_char_def Let_def of_char_of)

lemma b64_index_newline: "b64_index u c = Some i \<Longrightarrow> c \<noteq> CHR 0x0A \<and> c \<noteq> CHR 0x0D \<and> c \<noteq> CHR ''=''"
  by (auto simp: b64_index_def Let_def split: if_splits)

lemma b64_char_plain:
  "i < 64 \<Longrightarrow> b64_char u i \<noteq> CHR 0x0A \<and> b64_char u i \<noteq> CHR 0x0D \<and> b64_char u i \<noteq> CHR ''=''"
  using b64_index_newline [OF b64_index_char] by blast


text \<open>The sextets behind an encoding, and that they are below 64.\<close>

fun b64_sextets :: "nat list \<Rightarrow> nat list" where
  "b64_sextets (a # b # c # xs) =
     a div 4 # (a mod 4 * 16 + b div 16) # (b mod 16 * 4 + c div 64) # c mod 64 # b64_sextets xs"
| "b64_sextets [a, b] = [a div 4, a mod 4 * 16 + b div 16, b mod 16 * 4]"
| "b64_sextets [a] = [a div 4, a mod 4 * 16]"
| "b64_sextets [] = []"

lemma encode_raw_eq_map: "b64_encode_raw u xs = map (b64_char u) (b64_sextets xs)"
  by (induction xs rule: b64_sextets.induct) auto

lemma b64_sextets_bound:
  "list_all (\<lambda>b. b < 256) xs \<Longrightarrow> list_all (\<lambda>i. i < 64) (b64_sextets xs)"
  by (induction xs rule: b64_sextets.induct) auto

lemma join_bits:
  "(y::nat) < 16 \<Longrightarrow> (x * 16 + y) div 16 = x" "y < 16 \<Longrightarrow> (x * 16 + y) mod 16 = y"
  "(y::nat) < 4 \<Longrightarrow> (x * 4 + y) div 4 = x" "y < 4 \<Longrightarrow> (x * 4 + y) mod 4 = y"
  by simp_all

lemma decode_sextets: "list_all (\<lambda>b. b < 256) xs \<Longrightarrow> b64_decode_sextets (b64_sextets xs) = Some xs"
proof (induction xs rule: b64_sextets.induct)
  case (1 a b c xs)
  then have "b div 16 < 16" "c div 64 < 4" by auto
  then show ?case using 1 by (simp add: join_bits)
next
  case (2 a b)
  then have "b div 16 < 16" by auto
  then show ?case by (simp add: join_bits)
qed simp_all

lemma b64_indices_map: "list_all (\<lambda>i. i < 64) is \<Longrightarrow> b64_indices u (map (b64_char u) is) = Some is"
  by (induction "is") auto

lemma strip_newlines_map:
  "list_all (\<lambda>i. i < 64) is \<Longrightarrow> strip_newlines (map (b64_char u) is) = map (b64_char u) is"
  by (induction "is") (auto simp: strip_newlines_def b64_char_plain)

lemma of_char_bytes: "list_all (\<lambda>b. b < 256) (map of_char (s :: string) :: nat list)"
  by (induction s) simp_all

lemma decode_encode_raw:
  "list_all (\<lambda>b. b < 256) xs \<Longrightarrow> b64_decode_raw u (b64_encode_raw u xs) = Some xs"
  by (simp add: b64_decode_raw_def encode_raw_eq_map strip_newlines_map b64_sextets_bound
      b64_indices_map decode_sextets)

lemma map_char_of_char [simp]: "map char_of (map of_char (s :: string) :: nat list) = s"
  by (induction s) simp_all

lemma RawURL_roundtrip:
  "base64_RawURL_DecodeString (base64_RawURL_EncodeToString bs) = Inr bs"
  unfolding base64_RawURL_DecodeString_def base64_RawURL_EncodeToString_def
  using decode_encode_raw [OF of_char_bytes] map_char_of_char by simp

lemma RawURL_inj:
  "base64_RawURL_EncodeToString a = base64_RawURL_EncodeToString b \<longleftrightarrow> a = b"
  by (metis RawURL_roundtrip sum.inject(2))

end
