(* ===== verification/GoJson.thy ===== *)
theory GoJson
  imports GoStrings
begin

text \<open>
  Go's \<open>encoding/json\<close>, on text: the encoder's string escaping (with HTML escaping on, as
  \<open>Marshal\<close> and \<open>Encoder\<close> have it), the scanner and the string unquoting of the decoder, UTF-8
  included (strings are byte sequences), and the rules by which members of an object reach
  the fields of a struct. What the encoder prints, the decoder reads back.
\<close>

datatype json =
    JNull
  | JBool bool
  | JNum string
  | JStr string
  | JArr "json list"
  | JObj "(string \<times> json) list"

section \<open>UTF-8\<close>

definition cont_byte :: "nat \<Rightarrow> nat \<Rightarrow> char \<Rightarrow> bool" where
  "cont_byte lo hi c \<longleftrightarrow> lo \<le> of_char c \<and> of_char c \<le> hi"

text \<open>\<open>utf8.DecodeRune\<close>: the length of the rune at the head, 0 when the bytes are not one.\<close>

definition utf8_len :: "string \<Rightarrow> nat" where
  "utf8_len s =
     (case s of [] \<Rightarrow> 0 | c # cs \<Rightarrow>
        (let n = of_char c :: nat in
         if n < 0x80 then 1
         else if 0xC2 \<le> n \<and> n \<le> 0xDF then
           (case cs of a # _ \<Rightarrow> if cont_byte 0x80 0xBF a then 2 else 0 | _ \<Rightarrow> 0)
         else if 0xE0 \<le> n \<and> n \<le> 0xEF then
           (case cs of a # b # _ \<Rightarrow>
              if cont_byte (if n = 0xE0 then 0xA0 else 0x80) (if n = 0xED then 0x9F else 0xBF) a
                \<and> cont_byte 0x80 0xBF b then 3 else 0
            | _ \<Rightarrow> 0)
         else if 0xF0 \<le> n \<and> n \<le> 0xF4 then
           (case cs of a # b # d # _ \<Rightarrow>
              if cont_byte (if n = 0xF0 then 0x90 else 0x80) (if n = 0xF4 then 0x8F else 0xBF) a
                \<and> cont_byte 0x80 0xBF b \<and> cont_byte 0x80 0xBF d then 4 else 0
            | _ \<Rightarrow> 0)
         else 0))"

text \<open>\<open>utf8.AppendRune\<close>.\<close>

definition utf8_encode :: "nat \<Rightarrow> string" where
  "utf8_encode r =
     (if r < 0x80 then [char_of r]
      else if r < 0x800 then [char_of (0xC0 + r div 64), char_of (0x80 + r mod 64)]
      else if r < 0x10000 then
        [char_of (0xE0 + r div 4096), char_of (0x80 + r div 64 mod 64), char_of (0x80 + r mod 64)]
      else
        [char_of (0xF0 + r div 262144), char_of (0x80 + r div 4096 mod 64),
         char_of (0x80 + r div 64 mod 64), char_of (0x80 + r mod 64)])"

definition replacement :: string where
  "replacement = [CHR 0xEF, CHR 0xBF, CHR 0xBD]"

definition line_sep :: string where "line_sep = [CHR 0xE2, CHR 0x80, CHR 0xA8]"
definition para_sep :: string where "para_sep = [CHR 0xE2, CHR 0x80, CHR 0xA9]"

text \<open>What both directions make of a byte sequence: bytes that are no rune are replaced.\<close>

function to_valid :: "string \<Rightarrow> string" where
  "to_valid [] = []"
| "to_valid (c # cs) =
     (if utf8_len (c # cs) = 0 then replacement @ to_valid cs
      else take (utf8_len (c # cs)) (c # cs) @ to_valid (drop (utf8_len (c # cs)) (c # cs)))"
  by pat_completeness auto
termination by (relation "measure length") auto

section \<open>Printing\<close>

definition hex_digit :: "nat \<Rightarrow> char" where
  "hex_digit d = (if d < 10 then char_of (48 + d) else char_of (87 + d))"

text \<open>One ASCII byte of \<open>appendString\<close>.\<close>

definition escape_ascii :: "char \<Rightarrow> string" where
  "escape_ascii c =
     (let n = of_char c :: nat in
      if n = 0x22 then [CHR 0x5C, CHR 0x22]
      else if n = 0x5C then [CHR 0x5C, CHR 0x5C]
      else if n = 8 then [CHR 0x5C, CHR ''b'']
      else if n = 12 then [CHR 0x5C, CHR ''f'']
      else if n = 10 then [CHR 0x5C, CHR ''n'']
      else if n = 13 then [CHR 0x5C, CHR ''r'']
      else if n = 9 then [CHR 0x5C, CHR ''t'']
      else if n < 32 \<or> n = 0x3C \<or> n = 0x3E \<or> n = 0x26 then
        [CHR 0x5C, CHR ''u'', CHR ''0'', CHR ''0'', hex_digit (n div 16), hex_digit (n mod 16)]
      else [c])"

function escape :: "string \<Rightarrow> string" where
  "escape [] = []"
| "escape (c # cs) =
     (if (of_char c :: nat) < 0x80 then escape_ascii c @ escape cs
      else if utf8_len (c # cs) = 0 then CHR 0x5C # ''ufffd'' @ escape cs
      else
        (let x = take (utf8_len (c # cs)) (c # cs)
         in (if x = line_sep then CHR 0x5C # ''u2028''
             else if x = para_sep then CHR 0x5C # ''u2029'' else x)
            @ escape (drop (utf8_len (c # cs)) (c # cs))))"
  by pat_completeness auto
termination by (relation "measure length") auto

definition quote :: "string \<Rightarrow> string" where
  "quote s = CHR 0x22 # escape s @ [CHR 0x22]"

fun print_value :: "json \<Rightarrow> string" and print_elems :: "json list \<Rightarrow> string"
  and print_members :: "(string \<times> json) list \<Rightarrow> string" where
  "print_value JNull = ''null''"
| "print_value (JBool b) = (if b then ''true'' else ''false'')"
| "print_value (JNum n) = n"
| "print_value (JStr s) = quote s"
| "print_value (JArr vs) = CHR ''['' # print_elems vs @ '']''"
| "print_value (JObj ms) = CHR ''{'' # print_members ms @ ''}''"
| "print_elems [] = []"
| "print_elems [v] = print_value v"
| "print_elems (v # w # vs) = print_value v @ '','' @ print_elems (w # vs)"
| "print_members [] = []"
| "print_members [(k, v)] = quote k @ '':'' @ print_value v"
| "print_members ((k, v) # m # ms) = quote k @ '':'' @ print_value v @ '','' @ print_members (m # ms)"

section \<open>Scanning\<close>

definition json_space :: "char \<Rightarrow> bool" where
  "json_space c \<longleftrightarrow> c \<in> {CHR 0x20, CHR 0x09, CHR 0x0D, CHR 0x0A}"

definition skip_ws :: "string \<Rightarrow> string" where
  "skip_ws = dropWhile json_space"

definition hex_val :: "char \<Rightarrow> nat option" where
  "hex_val c =
     (let n = of_char c :: nat in
      if 48 \<le> n \<and> n \<le> 57 then Some (n - 48)
      else if 97 \<le> n \<and> n \<le> 102 then Some (n - 87)
      else if 65 \<le> n \<and> n \<le> 70 then Some (n - 55) else None)"

definition hex4 :: "string \<Rightarrow> (nat \<times> string) option" where
  "hex4 s =
     (case s of a # b # c # d # r \<Rightarrow>
        (case (hex_val a, hex_val b, hex_val c, hex_val d) of
           (Some w, Some x, Some y, Some z) \<Rightarrow> Some (4096 * w + 256 * x + 16 * y + z, r)
         | _ \<Rightarrow> None)
      | _ \<Rightarrow> None)"

definition is_high :: "nat \<Rightarrow> bool" where "is_high r \<longleftrightarrow> 0xD800 \<le> r \<and> r < 0xDC00"
definition is_low :: "nat \<Rightarrow> bool" where "is_low r \<longleftrightarrow> 0xDC00 \<le> r \<and> r < 0xE000"

text \<open>\<open>\uXXXX\<close>, joined with a following \<open>\uXXXX\<close> when the two are a surrogate pair.\<close>

definition scan_u :: "string \<Rightarrow> (string \<times> string) option" where
  "scan_u s =
     (case hex4 s of None \<Rightarrow> None | Some (r, rest) \<Rightarrow>
        if is_high r \<or> is_low r then
          (case rest of b # u # rest' \<Rightarrow>
             if is_high r \<and> b = CHR 0x5C \<and> u = CHR ''u'' then
               (case hex4 rest' of None \<Rightarrow> Some (replacement, rest) | Some (r2, rest2) \<Rightarrow>
                  if is_low r2 then
                    Some (utf8_encode (0x10000 + (r - 0xD800) * 1024 + (r2 - 0xDC00)), rest2)
                  else Some (replacement, rest))
             else Some (replacement, rest)
           | _ \<Rightarrow> Some (replacement, rest))
        else Some (utf8_encode r, rest))"

definition scan_escape :: "string \<Rightarrow> (string \<times> string) option" where
  "scan_escape s =
     (case s of [] \<Rightarrow> None | c # cs \<Rightarrow>
        if c \<in> {CHR 0x22, CHR 0x5C, CHR ''/''} then Some ([c], cs)
        else if c = CHR ''b'' then Some ([CHR 0x08], cs)
        else if c = CHR ''f'' then Some ([CHR 0x0C], cs)
        else if c = CHR ''n'' then Some ([CHR 0x0A], cs)
        else if c = CHR ''r'' then Some ([CHR 0x0D], cs)
        else if c = CHR ''t'' then Some ([CHR 0x09], cs)
        else if c = CHR ''u'' then scan_u cs
        else None)"

lemma hex4_shorter: "hex4 s = Some (r, t) \<Longrightarrow> length t < length s"
  by (auto simp: hex4_def split: list.splits option.splits)

lemma scan_escape_shorter: "scan_escape s = Some (x, t) \<Longrightarrow> length t < length s"
  by (auto simp: scan_escape_def scan_u_def split: list.splits if_splits option.splits prod.splits
      dest!: hex4_shorter)

text \<open>The rest of a string literal after its opening quote: its value and what follows it.\<close>

function scan_string :: "string \<Rightarrow> (string \<times> string) option" where
  "scan_string [] = None"
| "scan_string (c # cs) =
     (if c = CHR 0x22 then Some ([], cs)
      else if c = CHR 0x5C then
        (case scan_escape cs of None \<Rightarrow> None
         | Some (x, r) \<Rightarrow> map_option (\<lambda>(y, t). (x @ y, t)) (scan_string r))
      else if (of_char c :: nat) < 32 then None
      else if utf8_len (c # cs) = 0 then
        map_option (\<lambda>(y, t). (replacement @ y, t)) (scan_string cs)
      else
        map_option (\<lambda>(y, t). (take (utf8_len (c # cs)) (c # cs) @ y, t))
          (scan_string (drop (utf8_len (c # cs)) (c # cs))))"
  by pat_completeness auto
termination
  by (relation "measure length") (auto dest: scan_escape_shorter)

text \<open>Numbers are kept as their text.\<close>

definition digits_of :: "string \<Rightarrow> string \<times> string" where
  "digits_of s = (takeWhile (\<lambda>c. char_digit c \<noteq> None) s, dropWhile (\<lambda>c. char_digit c \<noteq> None) s)"

definition scan_frac :: "string \<Rightarrow> (string \<times> string) option" where
  "scan_frac s =
     (case s of c # cs \<Rightarrow>
        if c = CHR ''.'' then
          (case digits_of cs of (ds, r) \<Rightarrow> if ds = [] then None else Some (c # ds, r))
        else Some ([], s)
      | [] \<Rightarrow> Some ([], s))"

definition scan_exp :: "string \<Rightarrow> (string \<times> string) option" where
  "scan_exp s =
     (case s of c # cs \<Rightarrow>
        if c = CHR ''e'' \<or> c = CHR ''E'' then
          (let (sg, r) = (case cs of d # r \<Rightarrow> if d = CHR ''+'' \<or> d = CHR ''-'' then ([d], r) else ([], cs)
                          | [] \<Rightarrow> ([], cs))
           in case digits_of r of (ds, t) \<Rightarrow> if ds = [] then None else Some (c # sg @ ds, t))
        else Some ([], s)
      | [] \<Rightarrow> Some ([], s))"

definition scan_number :: "string \<Rightarrow> (string \<times> string) option" where
  "scan_number s =
     (let (sg, s1) = (case s of c # r \<Rightarrow> if c = CHR ''-'' then ([c], r) else ([], s) | [] \<Rightarrow> ([], s));
          (ip, s2) = (case s1 of c # r \<Rightarrow> if c = CHR ''0'' then ([c], r) else digits_of s1
                      | [] \<Rightarrow> ([], s1))
      in if ip = [] then None else
         (case scan_frac s2 of None \<Rightarrow> None | Some (fp, s3) \<Rightarrow>
            (case scan_exp s3 of None \<Rightarrow> None | Some (ep, s4) \<Rightarrow> Some (sg @ ip @ fp @ ep, s4))))"

definition scan_literal :: "string \<Rightarrow> json \<Rightarrow> string \<Rightarrow> (json \<times> string) option" where
  "scan_literal l v s = (if strings_HasPrefix s l then Some (v, drop (length l) s) else None)"

text \<open>
  Values. \<open>d\<close> is the nesting depth still allowed (10000 at the top, \<open>maxNestingDepth\<close>);
  \<open>n\<close> is fuel for the recursion, of which twice the length of the text is always enough.
\<close>

fun parse_value :: "int \<Rightarrow> nat \<Rightarrow> string \<Rightarrow> (json \<times> string) option"
  and parse_elems :: "int \<Rightarrow> nat \<Rightarrow> string \<Rightarrow> (json list \<times> string) option"
  and parse_members :: "int \<Rightarrow> nat \<Rightarrow> string \<Rightarrow> ((string \<times> json) list \<times> string) option" where
  "parse_value d 0 s = None"
| "parse_value d (Suc n) s =
     (case skip_ws s of [] \<Rightarrow> None | c # cs \<Rightarrow>
        if c = CHR 0x22 then map_option (\<lambda>(x, r). (JStr x, r)) (scan_string cs)
        else if c = CHR ''{'' then
          (if d \<le> 0 then None
           else (case skip_ws cs of
                   e # r \<Rightarrow> if e = CHR ''}'' then Some (JObj [], r)
                     else map_option (\<lambda>(ms, r). (JObj ms, r)) (parse_members (d - 1) n cs)
                 | [] \<Rightarrow> None))
        else if c = CHR ''['' then
          (if d \<le> 0 then None
           else (case skip_ws cs of
                   e # r \<Rightarrow> if e = CHR '']'' then Some (JArr [], r)
                     else map_option (\<lambda>(vs, r). (JArr vs, r)) (parse_elems (d - 1) n cs)
                 | [] \<Rightarrow> None))
        else if c = CHR ''t'' then scan_literal ''true'' (JBool True) (c # cs)
        else if c = CHR ''f'' then scan_literal ''false'' (JBool False) (c # cs)
        else if c = CHR ''n'' then scan_literal ''null'' JNull (c # cs)
        else map_option (\<lambda>(x, r). (JNum x, r)) (scan_number (c # cs)))"
| "parse_elems d 0 s = None"
| "parse_elems d (Suc n) s =
     (case parse_value d n s of None \<Rightarrow> None | Some (v, r) \<Rightarrow>
        (case skip_ws r of
           e # r' \<Rightarrow>
             if e = CHR '','' then map_option (\<lambda>(vs, t). (v # vs, t)) (parse_elems d n r')
             else if e = CHR '']'' then Some ([v], r') else None
         | [] \<Rightarrow> None))"
| "parse_members d 0 s = None"
| "parse_members d (Suc n) s =
     (case skip_ws s of [] \<Rightarrow> None | q # cs \<Rightarrow>
        if q \<noteq> CHR 0x22 then None else
        (case scan_string cs of None \<Rightarrow> None | Some (k, r) \<Rightarrow>
           (case skip_ws r of [] \<Rightarrow> None | c # r' \<Rightarrow>
              if c \<noteq> CHR '':'' then None else
              (case parse_value d n r' of None \<Rightarrow> None | Some (v, t) \<Rightarrow>
                 (case skip_ws t of [] \<Rightarrow> None | e # t' \<Rightarrow>
                    if e = CHR '','' then
                      map_option (\<lambda>(ms, u). ((k, v) # ms, u)) (parse_members d n t')
                    else if e = CHR ''}'' then Some ([(k, v)], t') else None)))))"

definition maxNestingDepth :: int where
  "maxNestingDepth = 10000"

definition parse_prefix :: "string \<Rightarrow> (json \<times> string) option" where
  "parse_prefix s = parse_value maxNestingDepth (2 * length s + 2) s"

definition syntax_error :: goerror where
  "syntax_error = Errorf ''json: syntax error''"

text \<open>
  \<open>Decoder.Decode\<close> reads one value and ignores what follows; \<open>Unmarshal\<close> wants nothing but
  white space after it.
\<close>

definition Decode :: "string \<Rightarrow> json res" where
  "Decode s = (case parse_prefix s of None \<Rightarrow> Inl syntax_error | Some (v, _) \<Rightarrow> Inr v)"

definition Unmarshal :: "string \<Rightarrow> json res" where
  "Unmarshal s =
     (case parse_prefix s of None \<Rightarrow> Inl syntax_error
      | Some (v, r) \<Rightarrow> if skip_ws r = [] then Inr v else Inl syntax_error)"


section \<open>Strings come back\<close>

lemma cont_byte_high: "cont_byte lo hi c \<Longrightarrow> 0x80 \<le> lo \<Longrightarrow> (0x80::nat) \<le> of_char c"
  by (simp add: cont_byte_def)

text \<open>The length of a rune depends on its own bytes only.\<close>

lemma utf8_len_prefix:
  assumes "utf8_len s = k" and "0 < k"
  shows "utf8_len (take k s @ t) = k \<and> length (take k s) = k"
proof (cases s)
  case Nil
  then show ?thesis using assms by (simp add: utf8_len_def)
next
  case (Cons c cs)
  consider "cs = []" | a where "cs = [a]" | a b where "cs = [a, b]" | a b d ds where "cs = a # b # d # ds"
    by (metis list.exhaust)
  then show ?thesis
    using assms Cons by cases (auto simp: utf8_len_def Let_def split: if_splits)
qed

lemma utf8_len_ascii: "(of_char c :: nat) < 0x80 \<Longrightarrow> utf8_len (c # cs) = 1"
  by (simp add: utf8_len_def)

lemma hex_val_digit: "d < 16 \<Longrightarrow> hex_val (hex_digit d) = Some d"
  by (auto simp: hex_val_def hex_digit_def of_char_of Let_def)

lemma hex4_00:
  "n < 256 \<Longrightarrow> hex4 (CHR ''0'' # CHR ''0'' # hex_digit (n div 16) # hex_digit (n mod 16) # r) = Some (n, r)"
proof -
  assume n: "n < 256"
  have "hex_val (CHR ''0'') = Some 0" using hex_val_digit [of 0] by (simp add: hex_digit_def) code_simp
  then show ?thesis using n by (simp add: hex4_def hex_val_digit)
qed

lemma of_char_less: "(of_char c :: nat) < 256"
  using of_char_mod_256 [of c, where ?'a = nat] by (metis mod_less_divisor zero_less_numeral)

lemma char_by_code:
  "(of_char c :: nat) = 34 \<Longrightarrow> c = CHR 0x22"
  "(of_char c :: nat) = 92 \<Longrightarrow> c = CHR 0x5C"
  "(of_char c :: nat) = 8 \<Longrightarrow> c = CHR 0x08"
  "(of_char c :: nat) = 12 \<Longrightarrow> c = CHR 0x0C"
  "(of_char c :: nat) = 10 \<Longrightarrow> c = CHR 0x0A"
  "(of_char c :: nat) = 13 \<Longrightarrow> c = CHR 0x0D"
  "(of_char c :: nat) = 9 \<Longrightarrow> c = CHR 0x09"
  using of_char_eq_iff [of c "CHR 0x22", where ?'a = nat]
    of_char_eq_iff [of c "CHR 0x5C", where ?'a = nat]
    of_char_eq_iff [of c "CHR 0x08", where ?'a = nat]
    of_char_eq_iff [of c "CHR 0x0C", where ?'a = nat]
    of_char_eq_iff [of c "CHR 0x0A", where ?'a = nat]
    of_char_eq_iff [of c "CHR 0x0D", where ?'a = nat]
    of_char_eq_iff [of c "CHR 0x09", where ?'a = nat]
  by simp_all

lemma escape_ascii_back:
  assumes "(of_char c :: nat) < 0x80"
  shows "scan_string (escape_ascii c @ r) = map_option (\<lambda>(y, t). (c # y, t)) (scan_string r)"
proof -
  let ?n = "of_char c :: nat"
  have c: "char_of ?n = c" by simp
  consider "?n \<in> {0x22, 0x5C, 8, 12, 10, 13, 9}" |
    "?n \<notin> {0x22, 0x5C, 8, 12, 10, 13, 9}" "?n < 32 \<or> ?n = 0x3C \<or> ?n = 0x3E \<or> ?n = 0x26" |
    "?n \<notin> {0x22, 0x5C, 8, 12, 10, 13, 9}" "\<not> (?n < 32 \<or> ?n = 0x3C \<or> ?n = 0x3E \<or> ?n = 0x26)"
    by blast
  then show ?thesis
  proof cases
    case 1
    then have "c \<in> {CHR 0x22, CHR 0x5C, CHR 0x08, CHR 0x0C, CHR 0x0A, CHR 0x0D, CHR 0x09}"
      by (auto dest: char_by_code)
    then consider "c = CHR 0x22" | "c = CHR 0x5C" | "c = CHR 0x08" | "c = CHR 0x0C" |
      "c = CHR 0x0A" | "c = CHR 0x0D" | "c = CHR 0x09" by blast
    then show ?thesis
      by cases (simp_all add: escape_ascii_def scan_escape_def)
  next
    case 2
    then have "escape_ascii c = [CHR 0x5C, CHR ''u'', CHR ''0'', CHR ''0'',
        hex_digit (?n div 16), hex_digit (?n mod 16)]"
      by (auto simp: escape_ascii_def Let_def)
    moreover have "utf8_encode ?n = [c]" "\<not> is_high ?n" "\<not> is_low ?n"
      using assms by (simp_all add: utf8_encode_def is_high_def is_low_def)
    ultimately show ?thesis
      by (simp add: scan_escape_def scan_u_def hex4_00 of_char_less)
  next
    case 3
    then have "escape_ascii c = [c]" "c \<noteq> CHR 0x22" "c \<noteq> CHR 0x5C" "\<not> ?n < 32"
      by (auto simp: escape_ascii_def Let_def)
    then show ?thesis using assms by (simp add: utf8_len_ascii)
  qed
qed

lemma char_of_consts:
  "char_of (226::nat) = CHR 0xE2" "char_of (128::nat) = CHR 0x80" "char_of (168::nat) = CHR 0xA8"
  "char_of (169::nat) = CHR 0xA9" "char_of (239::nat) = CHR 0xEF" "char_of (191::nat) = CHR 0xBF"
  "char_of (189::nat) = CHR 0xBD"
  by code_simp+

lemma utf8_encode_seps: "utf8_encode 0x2028 = line_sep" "utf8_encode 0x2029 = para_sep"
  "utf8_encode 0xFFFD = replacement"
  by (simp_all add: utf8_encode_def line_sep_def para_sep_def replacement_def char_of_consts)

lemma hex4_const:
  "hex4 (''2028'' @ r) = Some (0x2028, r)" "hex4 (''2029'' @ r) = Some (0x2029, r)"
  "hex4 (''fffd'' @ r) = Some (0xFFFD, r)"
  by (simp_all add: hex4_def hex_val_def)

lemma scan_string_rune:
  "utf8_len (c # xs @ t) = Suc (length xs) \<Longrightarrow> c \<noteq> CHR 0x22 \<Longrightarrow> c \<noteq> CHR 0x5C \<Longrightarrow>
     \<not> (of_char c :: nat) < 32 \<Longrightarrow>
     scan_string (c # xs @ t) = map_option (\<lambda>(y, u). (c # xs @ y, u)) (scan_string t)"
  by simp

text \<open>Reading an escaped string gives the string back, its invalid bytes replaced.\<close>

lemma scan_escape_string: "scan_string (escape s @ CHR 0x22 # r) = Some (to_valid s, r)"
proof (induction s rule: escape.induct)
  case 1
  then show ?case by simp
next
  case (2 c cs)
  show ?case
  proof (cases "(of_char c :: nat) < 0x80")
    case True
    then show ?thesis using 2(1) by (simp add: escape_ascii_back utf8_len_ascii)
  next
    case False
    let ?k = "utf8_len (c # cs)" and ?x = "take (utf8_len (c # cs)) (c # cs)"
    show ?thesis
    proof (cases "?k = 0")
      case True
      then show ?thesis using False 2(2)
        by (simp add: scan_escape_def scan_u_def hex4_const [simplified] is_high_def is_low_def
            utf8_encode_seps)
    next
      case k: False
      have ih: "scan_string (escape (drop ?k (c # cs)) @ CHR 0x22 # r)
          = Some (to_valid (drop ?k (c # cs)), r)"
        using 2(3) False k by simp
      have res: "to_valid (c # cs) = ?x @ to_valid (drop ?k (c # cs))" using k by simp
      consider "?x = line_sep" | "?x = para_sep" "?x \<noteq> line_sep" | "?x \<noteq> line_sep" "?x \<noteq> para_sep"
        by blast
      then show ?thesis
      proof cases
        case 1
        then have "escape (c # cs) = CHR 0x5C # ''u2028'' @ escape (drop ?k (c # cs))"
          using False k by (simp add: Let_def)
        then show ?thesis using ih res 1
          by (simp add: scan_escape_def scan_u_def hex4_const [simplified] is_high_def is_low_def
              utf8_encode_seps del: escape.simps to_valid.simps)
      next
        case 2
        then have "escape (c # cs) = CHR 0x5C # ''u2029'' @ escape (drop ?k (c # cs))"
          using False k by (simp add: Let_def)
        then show ?thesis using ih res 2
          by (simp add: scan_escape_def scan_u_def hex4_const [simplified] is_high_def is_low_def
              utf8_encode_seps del: escape.simps to_valid.simps)
      next
        case 3
        then have e: "escape (c # cs) = ?x @ escape (drop ?k (c # cs))"
          using False k by (simp add: Let_def)
        obtain xs where x: "?x = c # xs" using k by (cases ?k) auto
        have len: "utf8_len (?x @ t) = ?k" "length ?x = ?k" for t
          using utf8_len_prefix [of "c # cs" ?k t] k by auto
        have kx: "?k = Suc (length xs)" using len(2) unfolding x by simp
        then have "utf8_len (c # xs @ t) = Suc (length xs)" for t
          using len(1) [of t] unfolding x by simp
        note rune = scan_string_rune [OF this]
        have "c \<noteq> CHR 0x22" "c \<noteq> CHR 0x5C" using False by auto
        moreover have "\<not> (of_char c :: nat) < 32" using False by simp
        ultimately have "scan_string (?x @ t) = map_option (\<lambda>(y, u). (?x @ y, u)) (scan_string t)" for t
          unfolding x using rune by simp
        then show ?thesis using e ih res by (simp del: escape.simps to_valid.simps)
      qed
    qed
  qed
qed


section \<open>Values come back\<close>

text \<open>
  Values that can be printed without loss: strings are UTF-8, numbers are literals, and the
  nesting stays within \<open>d\<close>.
\<close>

fun json_ok :: "int \<Rightarrow> json \<Rightarrow> bool" where
  "json_ok d JNull = True"
| "json_ok d (JBool b) = True"
| "json_ok d (JNum n) = (scan_number n = Some (n, []))"
| "json_ok d (JStr s) = (to_valid s = s)"
| "json_ok d (JArr vs) = (0 < d \<and> list_all (json_ok (d - 1)) vs)"
| "json_ok d (JObj ms) =
     (0 < d \<and> list_all (\<lambda>m. to_valid (fst m) = fst m \<and> json_ok (d - 1) (snd m)) ms)"

text \<open>What may follow a number.\<close>

definition delim :: "string \<Rightarrow> bool" where
  "delim r \<longleftrightarrow> (case r of [] \<Rightarrow> True | c # _ \<Rightarrow> c \<in> {CHR '','', CHR '']'', CHR ''}''})"

lemma digits_of_simps:
  "digits_of [] = ([], [])"
  "digits_of (c # s) = (if char_digit c \<noteq> None then (c # fst (digits_of s), snd (digits_of s)) else ([], c # s))"
  by (auto simp: digits_of_def)

lemma digits_of_delim: "delim r \<Longrightarrow> digits_of (s @ r) = (fst (digits_of s), snd (digits_of s) @ r)"
proof (induction s)
  case Nil
  have "char_digit (CHR '','') = None" "char_digit (CHR '']'') = None" "char_digit (CHR ''}'') = None"
    by (simp_all add: char_digit_def)
  then show ?case using Nil by (cases r) (auto simp: digits_of_simps delim_def)
next
  case (Cons c s)
  then show ?case by (simp add: digits_of_simps)
qed

lemma scan_frac_delim: "scan_frac s = Some (x, t) \<Longrightarrow> delim r \<Longrightarrow> scan_frac (s @ r) = Some (x, t @ r)"
  by (cases s; cases r)
    (auto simp: scan_frac_def digits_of_delim delim_def split: if_splits prod.splits)

lemma scan_exp_delim: "scan_exp s = Some (x, t) \<Longrightarrow> delim r \<Longrightarrow> scan_exp (s @ r) = Some (x, t @ r)"
proof (cases s)
  case Nil
  assume "scan_exp s = Some (x, t)" "delim r"
  then show ?thesis using Nil by (cases r) (auto simp: scan_exp_def delim_def)
next
  case (Cons c cs)
  assume e: "scan_exp s = Some (x, t)" and r: "delim r"
  show ?thesis
  proof (cases cs)
    case Nil
    then show ?thesis using e r Cons by (auto simp: scan_exp_def digits_of_simps split: if_splits)
  next
    case (Cons d ds)
    then show ?thesis using e r \<open>s = c # cs\<close> digits_of_delim [OF r, of "d # ds"]
      by (auto simp: scan_exp_def digits_of_delim split: if_splits prod.splits)
  qed
qed

lemma scan_number_delim:
  assumes "scan_number n = Some (x, t)" and r: "delim r"
  shows "scan_number (n @ r) = Some (x, t @ r)"
proof -
  obtain sg s1 where sg: "(case n of c # r \<Rightarrow> if c = CHR ''-'' then ([c], r) else ([], n) | [] \<Rightarrow> ([], n)) = (sg, s1)"
    by fastforce
  obtain ip s2 where ip: "(case s1 of c # r \<Rightarrow> if c = CHR ''0'' then ([c], r) else digits_of s1
      | [] \<Rightarrow> ([], s1)) = (ip, s2)" by fastforce
  have ne: "ip \<noteq> []" using assms(1) sg ip by (auto simp: scan_number_def split: if_splits)
  have n1: "s1 \<noteq> []" using ip ne by auto
  have "n \<noteq> []" using sg n1 by auto
  have sg': "(case n @ r of c # q \<Rightarrow> if c = CHR ''-'' then ([c], q) else ([], n @ r) | [] \<Rightarrow> ([], n @ r)) = (sg, s1 @ r)"
    using sg \<open>n \<noteq> []\<close> by (cases n) (auto split: if_splits)
  have ip': "(case s1 @ r of c # q \<Rightarrow> if c = CHR ''0'' then ([c], q) else digits_of (s1 @ r)
      | [] \<Rightarrow> ([], s1 @ r)) = (ip, s2 @ r)"
    using ip n1 digits_of_delim [OF r, of s1] by (cases s1) (auto split: if_splits)
  obtain fp s3 where fp: "scan_frac s2 = Some (fp, s3)"
    using assms(1) sg ip ne by (auto simp: scan_number_def split: option.splits)
  obtain ep where ep: "scan_exp s3 = Some (ep, t)" "x = sg @ ip @ fp @ ep"
    using assms(1) sg ip ne fp by (auto simp: scan_number_def split: option.splits)
  show ?thesis
    unfolding scan_number_def Let_def sg' ip' prod.case
    using ne scan_frac_delim [OF fp r] scan_exp_delim [OF ep(1) r] ep(2) by simp
qed


text \<open>The first byte of a printed value.\<close>

lemma scan_number_head:
  assumes "scan_number n = Some (x, t)"
  shows "\<exists>c cs. n = c # cs \<and> (c = CHR ''-'' \<or> char_digit c \<noteq> None)"
  using assms
  by (cases n) (auto simp: scan_number_def digits_of_simps Let_def char_digit_def split: if_splits option.splits)

definition value_head :: "char \<Rightarrow> bool" where
  "value_head c \<longleftrightarrow> c \<in> {CHR 0x22, CHR ''['', CHR ''{'', CHR ''t'', CHR ''f'', CHR ''n'', CHR ''-''} \<or>
     char_digit c \<noteq> None"

lemma print_value_head: "json_ok d v \<Longrightarrow> \<exists>c cs. print_value v = c # cs \<and> value_head c"
  by (cases v) (auto simp: value_head_def quote_def dest!: scan_number_head split: if_splits)

lemma value_head_plain: "value_head c \<Longrightarrow> \<not> json_space c \<and> c \<noteq> CHR '']'' \<and> c \<noteq> CHR ''}''"
  by (auto simp: value_head_def json_space_def char_digit_def)

lemma skip_ws_head: "\<not> json_space c \<Longrightarrow> skip_ws (c # cs) = c # cs"
  by (simp add: skip_ws_def)

lemma plain_heads [simp]:
  "\<not> json_space (CHR 0x22)" "\<not> json_space (CHR '','')" "\<not> json_space (CHR '':'')"
  "\<not> json_space (CHR '']'')" "\<not> json_space (CHR ''}'')" "\<not> json_space (CHR ''['')"
  "\<not> json_space (CHR ''{'')" "\<not> json_space (CHR ''t'')" "\<not> json_space (CHR ''f'')"
  "\<not> json_space (CHR ''n'')"
  by (simp_all add: json_space_def)

lemma scan_quote: "scan_string (escape s @ CHR 0x22 # r) = Some (s, r)" if "to_valid s = s"
  using scan_escape_string [of s r] that by simp

lemma parse_number:
  assumes "scan_number n = Some (n, [])" and "delim r"
  shows "parse_value d (Suc k) (n @ r) = Some (JNum n, r)"
proof -
  obtain c cs where n: "n = c # cs" "c = CHR ''-'' \<or> char_digit c \<noteq> None"
    using scan_number_head [OF assms(1)] by blast
  then have c: "value_head c" by (auto simp: value_head_def)
  have "c \<notin> {CHR 0x22, CHR ''{'', CHR ''['', CHR ''t'', CHR ''f'', CHR ''n''}"
    using n(2) by (auto simp: char_digit_def)
  moreover have "scan_number (c # cs @ r) = Some (n, r)"
    using scan_number_delim [OF assms(1,2)] n(1) by simp
  ultimately show ?thesis
    using value_head_plain [OF c] n(1) by (simp add: skip_ws_head)
qed

text \<open>The decoder reads back what the encoder prints, whatever follows the value.\<close>

lemma parse_print:
  "json_ok d v \<Longrightarrow> delim r \<Longrightarrow> 2 * length (print_value v) \<le> n \<Longrightarrow>
     parse_value d n (print_value v @ r) = Some (v, r)"
  "vs \<noteq> [] \<Longrightarrow> list_all (json_ok d) vs \<Longrightarrow> 2 * length (print_elems vs) + 1 \<le> n \<Longrightarrow>
     parse_elems d n (print_elems vs @ CHR '']'' # r) = Some (vs, r)"
  "ms \<noteq> [] \<Longrightarrow> list_all (\<lambda>m. to_valid (fst m) = fst m \<and> json_ok d (snd m)) ms \<Longrightarrow>
     2 * length (print_members ms) + 1 \<le> n \<Longrightarrow>
     parse_members d n (print_members ms @ CHR ''}'' # r) = Some (ms, r)"
proof (induction v and vs and ms arbitrary: d n r and d n r and d n r
    rule: print_value_print_elems_print_members.induct)
  case 1
  then show ?case by (cases n) (auto simp: skip_ws_head scan_literal_def)
next
  case (2 b)
  then show ?case by (cases n; cases b) (auto simp: skip_ws_head scan_literal_def)
next
  case (3 x)
  then obtain k where "n = Suc k"
    using scan_number_head [of x x "[]"] by (cases n) auto
  then show ?case using 3 parse_number by auto
next
  case (4 s)
  then show ?case by (cases n) (auto simp: skip_ws_head quote_def scan_quote)
next
  case (5 vs)
  then obtain k where n: "n = Suc k" by (cases n) auto
  show ?case
  proof (cases vs)
    case Nil
    then show ?thesis using 5 n by (simp add: skip_ws_head)
  next
    case (Cons v ws)
    then have "\<exists>c cs. print_elems vs = c # cs \<and> value_head c"
      using print_value_head [of "d - 1" v] 5(2) by (cases ws) auto
    then obtain c cs where c: "print_elems vs = c # cs" "value_head c" by blast
    have "parse_elems (d - 1) k (print_elems vs @ CHR '']'' # r) = Some (vs, r)"
      using 5 n Cons by simp
    then show ?thesis using c value_head_plain [OF c(2)] n 5(2) by (simp add: skip_ws_head)
  qed
next
  case (6 ms)
  then obtain k where n: "n = Suc k" by (cases n) auto
  show ?case
  proof (cases ms)
    case Nil
    then show ?thesis using 6 n by (simp add: skip_ws_head)
  next
    case (Cons m ws)
    then have "\<exists>cs. print_members ms = CHR 0x22 # cs"
      by (cases m; cases ws) (auto simp: quote_def)
    then obtain cs where c: "print_members ms = CHR 0x22 # cs" by blast
    have "parse_members (d - 1) k (print_members ms @ CHR ''}'' # r) = Some (ms, r)"
      using 6 n Cons by simp
    then show ?thesis using c n 6(2) by (simp add: skip_ws_head)
  qed
next
  case 7
  then show ?case by simp
next
  case (8 v)
  then obtain k where n: "n = Suc k" by (cases n) auto
  have "parse_value d k (print_value v @ CHR '']'' # r) = Some (v, CHR '']'' # r)"
    using 8 n by (simp add: delim_def)
  then show ?case using n by (simp add: skip_ws_head)
next
  case (9 v w vs)
  then obtain k where n: "n = Suc k" by (cases n) auto
  have "parse_value d k (print_value v @ CHR '','' # print_elems (w # vs) @ CHR '']'' # r)
      = Some (v, CHR '','' # print_elems (w # vs) @ CHR '']'' # r)"
    using 9 n by (simp add: delim_def)
  moreover have "parse_elems d k (print_elems (w # vs) @ CHR '']'' # r) = Some (w # vs, r)"
    using 9 n by simp
  ultimately show ?case using n by (simp add: skip_ws_head)
next
  case 10
  then show ?case by simp
next
  case (11 k0 v)
  then obtain k where n: "n = Suc k" by (cases n) auto
  have "parse_value d k (print_value v @ CHR ''}'' # r) = Some (v, CHR ''}'' # r)"
    using 11 n by (simp add: delim_def)
  then show ?case using n 11 by (simp add: skip_ws_head quote_def scan_quote)
next
  case (12 k0 v m ms)
  then obtain k where n: "n = Suc k" by (cases n) auto
  have "parse_value d k (print_value v @ CHR '','' # print_members (m # ms) @ CHR ''}'' # r)
      = Some (v, CHR '','' # print_members (m # ms) @ CHR ''}'' # r)"
    using 12 n by (simp add: delim_def)
  moreover have "parse_members d k (print_members (m # ms) @ CHR ''}'' # r) = Some (m # ms, r)"
    using 12 n by simp
  ultimately show ?case using n 12 by (simp add: skip_ws_head quote_def scan_quote)
qed

lemma Unmarshal_print: "json_ok maxNestingDepth v \<Longrightarrow> Unmarshal (print_value v) = Inr v"
  using parse_print(1) [of maxNestingDepth v "[]" "2 * length (print_value v) + 2"]
  by (simp add: Unmarshal_def parse_prefix_def delim_def skip_ws_def)

lemma Decode_print: "json_ok maxNestingDepth v \<Longrightarrow> Decode (print_value v) = Inr v"
  using Unmarshal_print by (fastforce simp: Unmarshal_def Decode_def split: option.splits if_splits)


section \<open>Members into struct fields\<close>

text \<open>
  A member reaches the field whose JSON name it equals up to case folding (\<open>foldName\<close>: ASCII
  letters, and the two runes that fold to \<open>k\<close> and \<open>s\<close>).
\<close>

fun fold_name :: "string \<Rightarrow> string" where
  "fold_name (a # b # c # cs) =
     (if [a, b, c] = [CHR 0xE2, CHR 0x84, CHR 0xAA] then CHR ''k'' # fold_name cs
      else if [a, b] = [CHR 0xC5, CHR 0xBF] then CHR ''s'' # fold_name (c # cs)
      else to_lower_char a # fold_name (b # c # cs))"
| "fold_name [a, b] =
     (if [a, b] = [CHR 0xC5, CHR 0xBF] then ''s'' else [to_lower_char a, to_lower_char b])"
| "fold_name [a] = [to_lower_char a]"
| "fold_name [] = []"

lemma fold_name_lower:
  "list_all (\<lambda>c. (of_char c :: nat) < 0x80 \<and> \<not> (65 \<le> (of_char c :: nat) \<and> (of_char c :: nat) \<le> 90)) s \<Longrightarrow>
     fold_name s = s"
  by (induction s rule: fold_name.induct) (auto simp: to_lower_char_def Let_def)

lemma to_valid_ascii: "list_all (\<lambda>c. (of_char c :: nat) < 0x80) s \<Longrightarrow> to_valid s = s"
  by (induction s) (auto simp: utf8_len_ascii)

declare to_valid.simps [simp del] escape.simps [simp del] scan_string.simps [simp del]
  fold_name.simps [simp del]

lemma to_valid_rune:
  "utf8_len (c # xs @ t) = Suc (length xs) \<Longrightarrow> to_valid (c # xs @ t) = c # xs @ to_valid t"
  by (simp add: to_valid.simps)

lemma to_valid_idem [simp]: "to_valid (to_valid s) = to_valid s"
proof (induction s rule: to_valid.induct)
  case 1
  then show ?case by (simp add: to_valid.simps)
next
  case (2 c cs)
  show ?case
  proof (cases "utf8_len (c # cs) = 0")
    case True
    have "to_valid (replacement @ t) = replacement @ to_valid t" for t
      using to_valid_rune [of "CHR 0xEF" "[CHR 0xBF, CHR 0xBD]" t]
      by (simp add: utf8_len_def replacement_def cont_byte_def)
    then show ?thesis using True 2(1) by (simp add: to_valid.simps)
  next
    case False
    let ?k = "utf8_len (c # cs)"
    obtain xs where x: "take ?k (c # cs) = c # xs" using False by (cases ?k) auto
    have len: "utf8_len (take ?k (c # cs) @ t) = ?k" "length (take ?k (c # cs)) = ?k" for t
      using utf8_len_prefix [of "c # cs" ?k t] False by auto
    have "?k = Suc (length xs)" using len(2) unfolding x by simp
    then have "to_valid (c # xs @ t) = c # xs @ to_valid t" for t
      using len(1) [of t] unfolding x by (intro to_valid_rune) simp
    then have "to_valid (take ?k (c # cs) @ t) = take ?k (c # cs) @ to_valid t" for t
      unfolding x by simp
    moreover have "to_valid (c # cs) = take ?k (c # cs) @ to_valid (drop ?k (c # cs))"
      using False by (simp add: to_valid.simps)
    ultimately show ?thesis using False 2(2) by simp
  qed
qed

definition members_of :: "string \<Rightarrow> json \<Rightarrow> json list" where
  "members_of f v =
     (case v of JObj ms \<Rightarrow> map snd (filter (\<lambda>m. fold_name (fst m) = fold_name f) ms) | _ \<Rightarrow> [])"

definition type_error :: goerror where
  "type_error = Errorf ''json: cannot unmarshal value into Go struct field''"

text \<open>
  A field of type \<open>string\<close>: the last member wins, \<open>null\<close> leaves the field alone, any other
  kind of value is an error of the whole decoding.
\<close>

fun into_string :: "string \<Rightarrow> json list \<Rightarrow> string res" where
  "into_string acc [] = Inr acc"
| "into_string acc (JStr s # vs) = into_string s vs"
| "into_string acc (JNull # vs) = into_string acc vs"
| "into_string acc (v # vs) = Inl type_error"

text \<open>A field of type \<open>*string\<close>: \<open>null\<close> makes it nil.\<close>

fun into_string_ptr :: "string option \<Rightarrow> json list \<Rightarrow> string option res" where
  "into_string_ptr acc [] = Inr acc"
| "into_string_ptr acc (JStr s # vs) = into_string_ptr (Some s) vs"
| "into_string_ptr acc (JNull # vs) = into_string_ptr None vs"
| "into_string_ptr acc (v # vs) = Inl type_error"

text \<open>A field of type \<open>[]string\<close>; an element \<open>null\<close> is the empty string.\<close>

fun string_elems :: "json list \<Rightarrow> string list res" where
  "string_elems [] = Inr []"
| "string_elems (JStr s # vs) = map_sum id ((#) s) (string_elems vs)"
| "string_elems (JNull # vs) = map_sum id ((#) []) (string_elems vs)"
| "string_elems (v # vs) = Inl type_error"

lemma string_elems_map [simp]: "string_elems (map JStr ss) = Inr ss"
  by (induction ss) auto

fun into_strings :: "string list \<Rightarrow> json list \<Rightarrow> string list res" where
  "into_strings acc [] = Inr acc"
| "into_strings acc (JArr es # vs) =
     (case string_elems es of Inl e \<Rightarrow> Inl e | Inr ss \<Rightarrow> into_strings ss vs)"
| "into_strings acc (JNull # vs) = into_strings [] vs"
| "into_strings acc (v # vs) = Inl type_error"

fun into_bool :: "bool \<Rightarrow> json list \<Rightarrow> bool res" where
  "into_bool acc [] = Inr acc"
| "into_bool acc (JBool b # vs) = into_bool b vs"
| "into_bool acc (JNull # vs) = into_bool acc vs"
| "into_bool acc (v # vs) = Inl type_error"

definition field_string :: "string \<Rightarrow> json \<Rightarrow> string res" where
  "field_string f v = into_string [] (members_of f v)"

definition field_string_ptr :: "string \<Rightarrow> json \<Rightarrow> string option res" where
  "field_string_ptr f v = into_string_ptr None (members_of f v)"

definition field_strings :: "string \<Rightarrow> json \<Rightarrow> string list res" where
  "field_strings f v = into_strings [] (members_of f v)"

definition field_bool :: "string \<Rightarrow> json \<Rightarrow> bool res" where
  "field_bool f v = into_bool False (members_of f v)"

text \<open>A struct takes an object; \<open>null\<close> leaves it as it is.\<close>

definition struct_value :: "json \<Rightarrow> json res" where
  "struct_value v = (case v of JObj ms \<Rightarrow> Inr v | JNull \<Rightarrow> Inr (JObj []) | _ \<Rightarrow> Inl type_error)"

text \<open>Sequencing of results: the first error is the result.\<close>

definition and_then :: "'a res \<Rightarrow> ('a \<Rightarrow> 'b res) \<Rightarrow> 'b res" where
  "and_then r f = (case r of Inl e \<Rightarrow> Inl e | Inr x \<Rightarrow> f x)"

lemma and_then_simps [simp]: "and_then (Inr x) f = f x" "and_then (Inl e) f = Inl e"
  by (simp_all add: and_then_def)

lemma and_then_Inr: "and_then r f = Inr y \<longleftrightarrow> (\<exists>x. r = Inr x \<and> f x = Inr y)"
  by (cases r) auto

text \<open>Printing a struct with \<open>omitempty\<close> on a string field.\<close>

definition omit_empty :: "string \<Rightarrow> string \<Rightarrow> (string \<times> json) list" where
  "omit_empty f s = (if s = [] then [] else [(f, JStr s)])"

end
