(* ===== verification/GoUrl.thy ===== *)
theory GoUrl
  imports GoStrings GoEncoding GoJson
begin

text \<open>
  What the program uses of \<open>net/url\<close>, \<open>mime\<close> and \<open>net/http\<close> on the text of a request: query
  escaping, \<open>ParseQuery\<close>, \<open>Values\<close>, \<open>ParseMediaType\<close> and \<open>Request.BasicAuth\<close>. Encoding a set
  of values and parsing the result gives the values back.
\<close>

section \<open>Query escaping\<close>

definition upper_hex :: "nat \<Rightarrow> char" where
  "upper_hex d = (if d < 10 then char_of (48 + d) else char_of (55 + d))"

text \<open>\<open>shouldEscape(c, encodeQueryComponent)\<close> is the negation.\<close>

definition unreserved :: "char \<Rightarrow> bool" where
  "unreserved c \<longleftrightarrow>
     (let n = of_char c :: nat in
      48 \<le> n \<and> n \<le> 57 \<or> 65 \<le> n \<and> n \<le> 90 \<or> 97 \<le> n \<and> n \<le> 122
      \<or> c \<in> {CHR ''-'', CHR ''_'', CHR ''.'', CHR ''~''})"

fun QueryEscape :: "string \<Rightarrow> string" where
  "QueryEscape [] = []"
| "QueryEscape (c # cs) =
     (if unreserved c then c # QueryEscape cs
      else if c = CHR '' '' then CHR ''+'' # QueryEscape cs
      else CHR ''%'' # upper_hex (of_char c div 16) # upper_hex (of_char c mod 16) # QueryEscape cs)"

text \<open>\<open>QueryUnescape\<close>; \<open>None\<close> for a \<open>%\<close> that two hex digits do not follow.\<close>

fun QueryUnescape :: "string \<Rightarrow> string option" where
  "QueryUnescape [] = Some []"
| "QueryUnescape (c # cs) =
     (if c = CHR ''%'' then
        (case cs of a # b # rest \<Rightarrow>
           (case (hex_val a, hex_val b) of
              (Some x, Some y) \<Rightarrow> map_option ((#) (char_of (16 * x + y))) (QueryUnescape rest)
            | _ \<Rightarrow> None)
         | _ \<Rightarrow> None)
      else if c = CHR ''+'' then map_option ((#) (CHR '' '')) (QueryUnescape cs)
      else map_option ((#) c) (QueryUnescape cs))"

lemma hex_parts: "(of_char c :: nat) div 16 < 16" "(of_char c :: nat) mod 16 < 16"
  using of_char_less [of c] by (simp_all add: less_mult_imp_div_less)

lemma upper_hex_val: "d < 16 \<Longrightarrow> hex_val (upper_hex d) = Some d"
  by (auto simp: hex_val_def upper_hex_def of_char_of Let_def)

lemma Unescape_Escape: "QueryUnescape (QueryEscape s @ t) = map_option ((@) s) (QueryUnescape t)"
proof (induction s)
  case Nil
  then show ?case by (cases "QueryUnescape t") auto
next
  case (Cons c s)
  let ?n = "of_char c :: nat"
  have u: "unreserved c \<Longrightarrow> c \<noteq> CHR ''%'' \<and> c \<noteq> CHR ''+''" by (auto simp: unreserved_def)
  note hex = upper_hex_val [OF hex_parts(1) [of c]] upper_hex_val [OF hex_parts(2) [of c]]
  have "char_of (16 * (?n div 16) + ?n mod 16) = c" by simp
  then show ?case
    using Cons u hex by (cases "QueryUnescape t") auto
qed

lemma QueryUnescape_Escape [simp]: "QueryUnescape (QueryEscape s) = Some s"
  using Unescape_Escape [of s "[]"] by simp

section \<open>Values\<close>

text \<open>\<open>url.Values\<close> as the list of its pairs; the values of one key keep their order.\<close>

type_synonym url_values = "(string \<times> string) list"

definition Values_Get :: "url_values \<Rightarrow> string \<Rightarrow> string" where
  "Values_Get vs k = (case map_of vs k of None \<Rightarrow> [] | Some v \<Rightarrow> v)"

definition Values_Set :: "url_values \<Rightarrow> string \<Rightarrow> string \<Rightarrow> url_values" where
  "Values_Set vs k v = filter (\<lambda>p. fst p \<noteq> k) vs @ [(k, v)]"

text \<open>Byte-wise order of strings, as \<open>slices.Sorted\<close> of the keys uses it.\<close>

fun string_le :: "string \<Rightarrow> string \<Rightarrow> bool" where
  "string_le [] t = True"
| "string_le (a # s) [] = False"
| "string_le (a # s) (b # t) =
     ((of_char a :: nat) < of_char b \<or> a = b \<and> string_le s t)"

fun insert_pair :: "string \<times> string \<Rightarrow> url_values \<Rightarrow> url_values" where
  "insert_pair p [] = [p]"
| "insert_pair p (q # qs) = (if string_le (fst p) (fst q) then p # q # qs else q # insert_pair p qs)"

definition sort_pairs :: "url_values \<Rightarrow> url_values" where
  "sort_pairs vs = foldr insert_pair vs []"

definition encode_pair :: "string \<times> string \<Rightarrow> string" where
  "encode_pair p = QueryEscape (fst p) @ ''='' @ QueryEscape (snd p)"

definition Values_Encode :: "url_values \<Rightarrow> string" where
  "Values_Encode vs = strings_Join (map encode_pair (sort_pairs vs)) ''&''"

section \<open>Parsing a query\<close>

text \<open>\<open>strings.Cut\<close> at one byte: before, after, found.\<close>

definition Cut :: "char \<Rightarrow> string \<Rightarrow> string \<times> string" where
  "Cut sep s = (takeWhile (\<lambda>c. c \<noteq> sep) s, drop 1 (dropWhile (\<lambda>c. c \<noteq> sep) s))"

definition parse_pair :: "string \<Rightarrow> (string \<times> string) option" where
  "parse_pair s =
     (case Cut (CHR ''='') s of (k, v) \<Rightarrow>
        (case QueryUnescape k of None \<Rightarrow> None | Some k' \<Rightarrow>
           (case QueryUnescape v of None \<Rightarrow> None | Some v' \<Rightarrow> Some (k', v'))))"

text \<open>The pairs that parse, and whether every piece did.\<close>

fun parse_pieces :: "string list \<Rightarrow> url_values \<times> bool" where
  "parse_pieces [] = ([], True)"
| "parse_pieces (p # ps) =
     (case parse_pieces ps of (vs, ok) \<Rightarrow>
        if CHR '';'' \<in> set p then (vs, False)
        else if p = [] then (vs, ok)
        else (case parse_pair p of None \<Rightarrow> (vs, False) | Some kv \<Rightarrow> (kv # vs, ok)))"

definition max_params :: int where
  "max_params = 10000"

definition ParseQuery :: "string \<Rightarrow> url_values \<times> bool" where
  "ParseQuery q =
     (if max_params < int (length (filter (\<lambda>c. c = CHR ''&'') q)) + 1 then ([], False)
      else parse_pieces (strings_Split q (CHR ''&'')))"

text \<open>\<open>URL.Query()\<close> drops what does not parse.\<close>

definition URL_Query :: "string \<Rightarrow> url_values" where
  "URL_Query q = fst (ParseQuery q)"

subsection \<open>Values come back\<close>

lemma upper_hex_plain: "upper_hex d \<notin> {CHR ''&'', CHR ''='', CHR '';''}" if "d < 16"
  using upper_hex_val [OF that] by (auto simp: hex_val_def)

lemma QueryEscape_plain:
  "set (QueryEscape s) \<inter> {CHR ''&'', CHR ''='', CHR '';''} = {}"
proof (induction s)
  case Nil
  then show ?case by simp
next
  case (Cons c s)
  have "unreserved c \<Longrightarrow> c \<notin> {CHR ''&'', CHR ''='', CHR '';''}" by (auto simp: unreserved_def)
  then show ?case
    using Cons upper_hex_plain [OF hex_parts(1) [of c]] upper_hex_plain [OF hex_parts(2) [of c]]
    by auto
qed

lemma encode_pair_plain: "CHR ''&'' \<notin> set (encode_pair p)" "CHR '';'' \<notin> set (encode_pair p)"
  using QueryEscape_plain by (auto simp: encode_pair_def)

lemma takeWhile_until: "x \<notin> set xs \<Longrightarrow> takeWhile (\<lambda>c. c \<noteq> x) (xs @ x # ys) = xs"
  by (induction xs) auto

lemma dropWhile_until: "x \<notin> set xs \<Longrightarrow> dropWhile (\<lambda>c. c \<noteq> x) (xs @ x # ys) = x # ys"
  by (induction xs) auto

lemma parse_encode_pair: "parse_pair (encode_pair p) = Some p"
proof -
  have "CHR ''='' \<notin> set (QueryEscape (fst p))" using QueryEscape_plain by auto
  then have "Cut (CHR ''='') (encode_pair p) = (QueryEscape (fst p), QueryEscape (snd p))"
    by (simp add: Cut_def encode_pair_def takeWhile_until dropWhile_until)
  then show ?thesis by (simp add: parse_pair_def)
qed

lemma split_acc_plain:
  "sep \<notin> set x \<Longrightarrow> split_acc sep cur x = [rev cur @ x]"
  "sep \<notin> set x \<Longrightarrow> split_acc sep cur (x @ sep # y) = (rev cur @ x) # split_acc sep [] y"
  by (induction x arbitrary: cur) auto

lemma Split_Join:
  "xs \<noteq> [] \<Longrightarrow> list_all (\<lambda>x. sep \<notin> set x) xs \<Longrightarrow> strings_Split (strings_Join xs [sep]) sep = xs"
  by (induction xs "[sep]" rule: strings_Join.induct) (auto simp: strings_Split_def split_acc_plain)

lemma parse_pieces_encode: "parse_pieces (map encode_pair vs) = (vs, True)"
proof (induction vs)
  case Nil
  then show ?case by simp
next
  case (Cons p vs)
  have "encode_pair p \<noteq> []" by (simp add: encode_pair_def)
  then show ?case using Cons by (simp add: parse_encode_pair encode_pair_plain)
qed

lemma count_Join:
  "list_all (\<lambda>x. sep \<notin> set x) xs \<Longrightarrow>
     length (filter (\<lambda>c. c = sep) (strings_Join xs [sep])) = length xs - 1"
  by (induction xs "[sep]" rule: strings_Join.induct)
    (auto simp: filter_empty_conv)

lemma length_sort_pairs: "length (sort_pairs vs) = length vs"
proof -
  have "length (insert_pair p qs) = Suc (length qs)" for p qs by (induction qs) auto
  then show ?thesis by (induction vs) (auto simp: sort_pairs_def)
qed

lemma Parse_Encode:
  assumes "vs \<noteq> []" and "int (length vs) \<le> max_params"
  shows "ParseQuery (Values_Encode vs) = (sort_pairs vs, True)"
proof -
  let ?ps = "map encode_pair (sort_pairs vs)"
  have plain: "list_all (\<lambda>x. CHR ''&'' \<notin> set x) ?ps" by (simp add: list_all_iff encode_pair_plain)
  have ne: "?ps \<noteq> []" using assms(1) length_sort_pairs [of vs] by auto
  show ?thesis
    using assms length_sort_pairs [of vs] count_Join [OF plain] Split_Join [OF ne plain]
      parse_pieces_encode [of "sort_pairs vs"]
    by (cases vs) (simp_all add: ParseQuery_def Values_Encode_def)
qed

text \<open>Sorting by key keeps what \<open>Get\<close> answers.\<close>

lemma Get_insert_pair: "map_of (insert_pair p qs) k = map_of (p # qs) k"
proof (induction qs)
  case Nil
  then show ?case by simp
next
  case (Cons q qs)
  have refl: "string_le s s" for s by (induction s) auto
  show ?case
  proof (cases "fst p = fst q")
    case True
    then show ?thesis by (simp add: refl)
  next
    case False
    then show ?thesis using Cons by (cases p; cases q) auto
  qed
qed

lemma Get_sort_pairs: "Values_Get (sort_pairs vs) k = Values_Get vs k"
proof -
  have "map_of (sort_pairs vs) k = map_of vs k"
    by (induction vs) (auto simp: sort_pairs_def Get_insert_pair)
  then show ?thesis by (simp add: Values_Get_def)
qed

lemma Get_Set: "Values_Get (Values_Set vs k v) k' = (if k' = k then v else Values_Get vs k')"
proof -
  have "map_of (filter (\<lambda>p. fst p \<noteq> k) vs @ [(k, v)]) k'
      = (if k' = k then Some v else map_of vs k')"
    by (induction vs) auto
  then show ?thesis by (simp add: Values_Get_def Values_Set_def)
qed

end
