(* ===== verification/Effects.thy ===== *)
theory Effects
  imports GoStrings
begin

text \<open>
  The effect language. A Go function that talks to the outside (Redis, HTTP peers, DynamoDB,
  the clock, random sources) or to the mutable state shared by requests is translated into a
  program of type \<open>'a proc\<close>: either it returns a value, or it makes one call and continues
  with the reply. The same program is executed to the end by \<open>exec\<close> against an environment,
  or one call at a time by \<open>step_proc\<close>, which is how several requests are interleaved.

  The environment is a parameter: the services behind the calls are not in the repository.
\<close>

section \<open>Calls\<close>

record http_request =
  rq_method :: string
  rq_url :: string
  rq_headers :: "(string \<times> string) list"
  rq_body :: string

text \<open>A reply: the status code and what reading the (size-limited) body gave.\<close>

record http_reply =
  rp_status :: int
  rp_body :: "string res"

text \<open>The DynamoDB record of \<open>clients/banned.go\<close>.\<close>

record bannedRecord =
  PK :: string
  Reason :: string
  BannedAt :: string
  BannedBy :: string
  BannedExpiresAt :: int

type_synonym ddb_key = "(string \<times> string) list"

text \<open>The JWKS cache of \<open>api/jwks.go\<close>: key IDs and the encoded body.\<close>

type_synonym jwksCache = "string list \<times> string"

datatype 'a proc =
    Ret 'a
  | RGet string "string res \<Rightarrow> 'a proc"
  | RSet string string int "unit res \<Rightarrow> 'a proc"
  | RSetNX string string int "bool res \<Rightarrow> 'a proc"
  | RDelete string "unit res \<Rightarrow> 'a proc"
  | RIncr string "int res \<Rightarrow> 'a proc"
  | RExpire string int "unit res \<Rightarrow> 'a proc"
  | RExists string "bool res \<Rightarrow> 'a proc"
  | HttpDo http_request "http_reply res \<Rightarrow> 'a proc"
  | DdbGetItem string ddb_key "bannedRecord res \<Rightarrow> 'a proc"
  | DdbDescribe string "unit res \<Rightarrow> 'a proc"
  | TimeNow "int \<Rightarrow> 'a proc"
  | UuidNew "string \<Rightarrow> 'a proc"
  | RandInt nat "nat res \<Rightarrow> 'a proc"
  | RandRead nat "string res \<Rightarrow> 'a proc"
  | SvcLoad "string \<times> int \<Rightarrow> 'a proc"
  | SvcStore "string \<times> int" "unit \<Rightarrow> 'a proc"
  | SemTryAcquire nat "bool \<Rightarrow> 'a proc"
  | GoSendEmail "http_request option" "unit \<Rightarrow> 'a proc"
  | JwksLoad "jwksCache option \<Rightarrow> 'a proc"
  | JwksStore jwksCache "unit \<Rightarrow> 'a proc"

text \<open>A function call: run \<open>p\<close>, hand its result to the rest.\<close>

primrec call :: "'a proc \<Rightarrow> ('a \<Rightarrow> 'b proc) \<Rightarrow> 'b proc" where
  "call (Ret a) k = k a"
| "call (RGet x f) k = RGet x (\<lambda>r. call (f r) k)"
| "call (RSet x v t f) k = RSet x v t (\<lambda>r. call (f r) k)"
| "call (RSetNX x v t f) k = RSetNX x v t (\<lambda>r. call (f r) k)"
| "call (RDelete x f) k = RDelete x (\<lambda>r. call (f r) k)"
| "call (RIncr x f) k = RIncr x (\<lambda>r. call (f r) k)"
| "call (RExpire x t f) k = RExpire x t (\<lambda>r. call (f r) k)"
| "call (RExists x f) k = RExists x (\<lambda>r. call (f r) k)"
| "call (HttpDo q f) k = HttpDo q (\<lambda>r. call (f r) k)"
| "call (DdbGetItem t x f) k = DdbGetItem t x (\<lambda>r. call (f r) k)"
| "call (DdbDescribe t f) k = DdbDescribe t (\<lambda>r. call (f r) k)"
| "call (TimeNow f) k = TimeNow (\<lambda>r. call (f r) k)"
| "call (UuidNew f) k = UuidNew (\<lambda>r. call (f r) k)"
| "call (RandInt n f) k = RandInt n (\<lambda>r. call (f r) k)"
| "call (RandRead n f) k = RandRead n (\<lambda>r. call (f r) k)"
| "call (SvcLoad f) k = SvcLoad (\<lambda>r. call (f r) k)"
| "call (SvcStore v f) k = SvcStore v (\<lambda>r. call (f r) k)"
| "call (SemTryAcquire n f) k = SemTryAcquire n (\<lambda>r. call (f r) k)"
| "call (GoSendEmail q f) k = GoSendEmail q (\<lambda>r. call (f r) k)"
| "call (JwksLoad f) k = JwksLoad (\<lambda>r. call (f r) k)"
| "call (JwksStore c f) k = JwksStore c (\<lambda>r. call (f r) k)"

lemma call_assoc: "call (call p f) g = call p (\<lambda>a. call (f a) g)"
  by (induction p) simp_all

lemma call_Ret [simp]: "call p Ret = p"
  by (induction p) simp_all

section \<open>Environments\<close>

text \<open>\<open>db.CacheClientOperations\<close>: the seven Redis commands, on a store of type \<open>'r\<close>.\<close>

record 'r cache_ops =
  op_Get :: "string \<Rightarrow> 'r \<Rightarrow> string res \<times> 'r"
  op_Set :: "string \<Rightarrow> string \<Rightarrow> int \<Rightarrow> 'r \<Rightarrow> unit res \<times> 'r"
  op_SetNX :: "string \<Rightarrow> string \<Rightarrow> int \<Rightarrow> 'r \<Rightarrow> bool res \<times> 'r"
  op_Delete :: "string \<Rightarrow> 'r \<Rightarrow> unit res \<times> 'r"
  op_Incr :: "string \<Rightarrow> 'r \<Rightarrow> int res \<times> 'r"
  op_Expire :: "string \<Rightarrow> int \<Rightarrow> 'r \<Rightarrow> unit res \<times> 'r"
  op_Exists :: "string \<Rightarrow> 'r \<Rightarrow> bool res \<times> 'r"

text \<open>
  The rest of the outside: HTTP peers and DynamoDB on a state \<open>'h\<close>; the clock (nanoseconds
  since 1970), UUIDs and \<open>crypto/rand\<close> on a state \<open>'c\<close>.
\<close>

record ('r, 'h, 'c) env =
  env_cache :: "'r cache_ops"
  env_http :: "http_request \<Rightarrow> 'h \<Rightarrow> http_reply res \<times> 'h"
  env_ddb_get :: "string \<Rightarrow> ddb_key \<Rightarrow> 'h \<Rightarrow> bannedRecord res \<times> 'h"
  env_ddb_describe :: "string \<Rightarrow> 'h \<Rightarrow> unit res \<times> 'h"
  env_now :: "'c \<Rightarrow> int \<times> 'c"
  env_uuid :: "'c \<Rightarrow> string \<times> 'c"
  env_rand_int :: "nat \<Rightarrow> 'c \<Rightarrow> nat res \<times> 'c"
  env_rand_read :: "nat \<Rightarrow> 'c \<Rightarrow> string res \<times> 'c"

text \<open>
  The state a request sees: the three outside states; \<open>Service.svcJWT\<close> with its expiry; the
  e-mail semaphore's occupancy and the requests its goroutines still have to send; the JWKS
  cache pointer.
\<close>

record ('r, 'h, 'c) world =
  w_redis :: 'r
  w_http :: 'h
  w_rt :: 'c
  w_svc :: "string \<times> int"
  w_sem :: nat
  w_emails :: "http_request list"
  w_jwks :: "jwksCache option"

text \<open>
  Starting an e-mail goroutine, which holds a slot of the semaphore: it has a request to send,
  or it ends at once and frees the slot.
\<close>

definition start_email :: "http_request option \<Rightarrow> ('r, 'h, 'c) world \<Rightarrow> ('r, 'h, 'c) world" where
  "start_email q w =
     (case q of None \<Rightarrow> w\<lparr>w_sem := w_sem w - 1\<rparr>
      | Some rq \<Rightarrow> w\<lparr>w_emails := w_emails w @ [rq]\<rparr>)"

lemma start_email_simps [simp]:
  "w_redis (start_email q w) = w_redis w" "w_http (start_email q w) = w_http w"
  "w_rt (start_email q w) = w_rt w" "w_svc (start_email q w) = w_svc w"
  "w_jwks (start_email q w) = w_jwks w"
  by (simp_all add: start_email_def split: option.split)

section \<open>Execution\<close>

text \<open>One call of a program; a program that has returned does not move.\<close>

fun step_proc ::
  "('r, 'h, 'c) env \<Rightarrow> 'a proc \<Rightarrow> ('r, 'h, 'c) world \<Rightarrow> 'a proc \<times> ('r, 'h, 'c) world" where
  "step_proc E (Ret a) w = (Ret a, w)"
| "step_proc E (RGet x f) w =
     (case op_Get (env_cache E) x (w_redis w) of (r, s) \<Rightarrow> (f r, w\<lparr>w_redis := s\<rparr>))"
| "step_proc E (RSet x v t f) w =
     (case op_Set (env_cache E) x v t (w_redis w) of (r, s) \<Rightarrow> (f r, w\<lparr>w_redis := s\<rparr>))"
| "step_proc E (RSetNX x v t f) w =
     (case op_SetNX (env_cache E) x v t (w_redis w) of (r, s) \<Rightarrow> (f r, w\<lparr>w_redis := s\<rparr>))"
| "step_proc E (RDelete x f) w =
     (case op_Delete (env_cache E) x (w_redis w) of (r, s) \<Rightarrow> (f r, w\<lparr>w_redis := s\<rparr>))"
| "step_proc E (RIncr x f) w =
     (case op_Incr (env_cache E) x (w_redis w) of (r, s) \<Rightarrow> (f r, w\<lparr>w_redis := s\<rparr>))"
| "step_proc E (RExpire x t f) w =
     (case op_Expire (env_cache E) x t (w_redis w) of (r, s) \<Rightarrow> (f r, w\<lparr>w_redis := s\<rparr>))"
| "step_proc E (RExists x f) w =
     (case op_Exists (env_cache E) x (w_redis w) of (r, s) \<Rightarrow> (f r, w\<lparr>w_redis := s\<rparr>))"
| "step_proc E (HttpDo q f) w =
     (case env_http E q (w_http w) of (r, s) \<Rightarrow> (f r, w\<lparr>w_http := s\<rparr>))"
| "step_proc E (DdbGetItem t x f) w =
     (case env_ddb_get E t x (w_http w) of (r, s) \<Rightarrow> (f r, w\<lparr>w_http := s\<rparr>))"
| "step_proc E (DdbDescribe t f) w =
     (case env_ddb_describe E t (w_http w) of (r, s) \<Rightarrow> (f r, w\<lparr>w_http := s\<rparr>))"
| "step_proc E (TimeNow f) w =
     (case env_now E (w_rt w) of (r, s) \<Rightarrow> (f r, w\<lparr>w_rt := s\<rparr>))"
| "step_proc E (UuidNew f) w =
     (case env_uuid E (w_rt w) of (r, s) \<Rightarrow> (f r, w\<lparr>w_rt := s\<rparr>))"
| "step_proc E (RandInt n f) w =
     (case env_rand_int E n (w_rt w) of (r, s) \<Rightarrow> (f r, w\<lparr>w_rt := s\<rparr>))"
| "step_proc E (RandRead n f) w =
     (case env_rand_read E n (w_rt w) of (r, s) \<Rightarrow> (f r, w\<lparr>w_rt := s\<rparr>))"
| "step_proc E (SvcLoad f) w = (f (w_svc w), w)"
| "step_proc E (SvcStore v f) w = (f (), w\<lparr>w_svc := v\<rparr>)"
| "step_proc E (SemTryAcquire n f) w =
     (if w_sem w < n then (f True, w\<lparr>w_sem := Suc (w_sem w)\<rparr>) else (f False, w))"
| "step_proc E (GoSendEmail q f) w = (f (), start_email q w)"
| "step_proc E (JwksLoad f) w = (f (w_jwks w), w)"
| "step_proc E (JwksStore c f) w = (f (), w\<lparr>w_jwks := Some c\<rparr>)"

text \<open>Execution to the end; every program ends, since each reply leads to a smaller one.\<close>

primrec exec ::
  "'a proc \<Rightarrow> ('r, 'h, 'c) env \<Rightarrow> ('r, 'h, 'c) world \<Rightarrow> 'a \<times> ('r, 'h, 'c) world" where
  "exec (Ret a) = (\<lambda>E w. (a, w))"
| "exec (RGet x f) = (\<lambda>E w.
     case op_Get (env_cache E) x (w_redis w) of (r, s) \<Rightarrow> exec (f r) E (w\<lparr>w_redis := s\<rparr>))"
| "exec (RSet x v t f) = (\<lambda>E w.
     case op_Set (env_cache E) x v t (w_redis w) of (r, s) \<Rightarrow> exec (f r) E (w\<lparr>w_redis := s\<rparr>))"
| "exec (RSetNX x v t f) = (\<lambda>E w.
     case op_SetNX (env_cache E) x v t (w_redis w) of (r, s) \<Rightarrow> exec (f r) E (w\<lparr>w_redis := s\<rparr>))"
| "exec (RDelete x f) = (\<lambda>E w.
     case op_Delete (env_cache E) x (w_redis w) of (r, s) \<Rightarrow> exec (f r) E (w\<lparr>w_redis := s\<rparr>))"
| "exec (RIncr x f) = (\<lambda>E w.
     case op_Incr (env_cache E) x (w_redis w) of (r, s) \<Rightarrow> exec (f r) E (w\<lparr>w_redis := s\<rparr>))"
| "exec (RExpire x t f) = (\<lambda>E w.
     case op_Expire (env_cache E) x t (w_redis w) of (r, s) \<Rightarrow> exec (f r) E (w\<lparr>w_redis := s\<rparr>))"
| "exec (RExists x f) = (\<lambda>E w.
     case op_Exists (env_cache E) x (w_redis w) of (r, s) \<Rightarrow> exec (f r) E (w\<lparr>w_redis := s\<rparr>))"
| "exec (HttpDo q f) = (\<lambda>E w.
     case env_http E q (w_http w) of (r, s) \<Rightarrow> exec (f r) E (w\<lparr>w_http := s\<rparr>))"
| "exec (DdbGetItem t x f) = (\<lambda>E w.
     case env_ddb_get E t x (w_http w) of (r, s) \<Rightarrow> exec (f r) E (w\<lparr>w_http := s\<rparr>))"
| "exec (DdbDescribe t f) = (\<lambda>E w.
     case env_ddb_describe E t (w_http w) of (r, s) \<Rightarrow> exec (f r) E (w\<lparr>w_http := s\<rparr>))"
| "exec (TimeNow f) = (\<lambda>E w.
     case env_now E (w_rt w) of (r, s) \<Rightarrow> exec (f r) E (w\<lparr>w_rt := s\<rparr>))"
| "exec (UuidNew f) = (\<lambda>E w.
     case env_uuid E (w_rt w) of (r, s) \<Rightarrow> exec (f r) E (w\<lparr>w_rt := s\<rparr>))"
| "exec (RandInt n f) = (\<lambda>E w.
     case env_rand_int E n (w_rt w) of (r, s) \<Rightarrow> exec (f r) E (w\<lparr>w_rt := s\<rparr>))"
| "exec (RandRead n f) = (\<lambda>E w.
     case env_rand_read E n (w_rt w) of (r, s) \<Rightarrow> exec (f r) E (w\<lparr>w_rt := s\<rparr>))"
| "exec (SvcLoad f) = (\<lambda>E w. exec (f (w_svc w)) E w)"
| "exec (SvcStore v f) = (\<lambda>E w. exec (f ()) E (w\<lparr>w_svc := v\<rparr>))"
| "exec (SemTryAcquire n f) = (\<lambda>E w.
     if w_sem w < n then exec (f True) E (w\<lparr>w_sem := Suc (w_sem w)\<rparr>) else exec (f False) E w)"
| "exec (GoSendEmail q f) = (\<lambda>E w. exec (f ()) E (start_email q w))"
| "exec (JwksLoad f) = (\<lambda>E w. exec (f (w_jwks w)) E w)"
| "exec (JwksStore c f) = (\<lambda>E w. exec (f ()) E (w\<lparr>w_jwks := Some c\<rparr>))"

lemma exec_call:
  "exec (call p k) E w = (case exec p E w of (a, w') \<Rightarrow> exec (k a) E w')"
  by (induction p arbitrary: w) (simp_all split: prod.split)

lemma exec_step: "exec p E w = (case step_proc E p w of (p', w') \<Rightarrow> exec p' E w')"
  by (cases p) (simp_all split: prod.split)

text \<open>What every call keeps, an execution keeps.\<close>

lemma exec_step_cases:
  assumes "exec p E w = (a, w')" and "\<And>b. p \<noteq> Ret b"
  obtains q v where "step_proc E p w = (q, v)" and "exec q E v = (a, w')"
  using assms exec_step [of p E w] by (auto split: prod.splits)

lemma step_range:
  "step_proc E (RGet x f) w = (q, v) \<Longrightarrow> q \<in> range f"
  "step_proc E (RSet x y t g) w = (q, v) \<Longrightarrow> q \<in> range g"
  "step_proc E (RSetNX x y t h) w = (q, v) \<Longrightarrow> q \<in> range h"
  "step_proc E (RDelete x g) w = (q, v) \<Longrightarrow> q \<in> range g"
  "step_proc E (RIncr x i) w = (q, v) \<Longrightarrow> q \<in> range i"
  "step_proc E (RExpire x t g) w = (q, v) \<Longrightarrow> q \<in> range g"
  "step_proc E (RExists x h) w = (q, v) \<Longrightarrow> q \<in> range h"
  "step_proc E (HttpDo rq j) w = (q, v) \<Longrightarrow> q \<in> range j"
  "step_proc E (DdbGetItem x ks k) w = (q, v) \<Longrightarrow> q \<in> range k"
  "step_proc E (DdbDescribe x g) w = (q, v) \<Longrightarrow> q \<in> range g"
  "step_proc E (TimeNow l) w = (q, v) \<Longrightarrow> q \<in> range l"
  "step_proc E (UuidNew m) w = (q, v) \<Longrightarrow> q \<in> range m"
  "step_proc E (RandInt n o') w = (q, v) \<Longrightarrow> q \<in> range o'"
  "step_proc E (RandRead n f) w = (q, v) \<Longrightarrow> q \<in> range f"
  "step_proc E (SvcLoad p') w = (q, v) \<Longrightarrow> q \<in> range p'"
  "step_proc E (SvcStore si r) w = (q, v) \<Longrightarrow> q \<in> range r"
  "step_proc E (SemTryAcquire n s') w = (q, v) \<Longrightarrow> q \<in> range s'"
  "step_proc E (GoSendEmail rqo r) w = (q, v) \<Longrightarrow> q \<in> range r"
  "step_proc E (JwksLoad u) w = (q, v) \<Longrightarrow> q \<in> range u"
  "step_proc E (JwksStore jc r) w = (q, v) \<Longrightarrow> q \<in> range r"
  by (auto split: prod.splits if_splits)

lemma exec_invariant:
  assumes "\<And>q v q' v'. P v \<Longrightarrow> step_proc E (q :: 'a proc) v = (q', v') \<Longrightarrow> P v'"
    and "exec (p :: 'a proc) E w = (a, w')" and "P w"
  shows "P w'"
  using assms(2,3)
proof (induction p arbitrary: w)
  case (Ret x)
  then show ?case by simp
qed (erule exec_step_cases, simp, drule (1) assms(1), drule step_range, blast)+

section \<open>Clocks\<close>

text \<open>
  \<open>clock\<close> bounds the readings: a reading is not before the clock of the state it is taken in and
  not after the clock of the state it leaves, and no source of the runtime turns it back.
\<close>

definition clock_ok :: "('r, 'h, 'c) env \<Rightarrow> ('c \<Rightarrow> int) \<Rightarrow> bool" where
  "clock_ok E clock \<longleftrightarrow>
     (\<forall>s t s'. env_now E s = (t, s') \<longrightarrow> clock s \<le> t \<and> t \<le> clock s') \<and>
     (\<forall>s u s'. env_uuid E s = (u, s') \<longrightarrow> clock s \<le> clock s') \<and>
     (\<forall>n s r s'. env_rand_int E n s = (r, s') \<longrightarrow> clock s \<le> clock s') \<and>
     (\<forall>n s r s'. env_rand_read E n s = (r, s') \<longrightarrow> clock s \<le> clock s')"

lemma clock_now: "clock_ok E clock \<Longrightarrow> env_now E s = (t, s') \<Longrightarrow>
    clock s \<le> t \<and> t \<le> clock s' \<and> clock s \<le> clock s'"
  unfolding clock_ok_def using order_trans by blast

lemma clock_other:
  assumes "clock_ok E clock"
  shows "env_now E s = (t, s') \<Longrightarrow> clock s \<le> clock s'" "env_uuid E s = (u, s') \<Longrightarrow> clock s \<le> clock s'"
    "env_rand_int E n s = (i, s') \<Longrightarrow> clock s \<le> clock s'"
    "env_rand_read E n s = (b, s') \<Longrightarrow> clock s \<le> clock s'"
  using assms clock_now [OF assms] unfolding clock_ok_def by blast+

lemma step_clock_mono:
  "clock_ok E clock \<Longrightarrow> step_proc E q v = (q', v') \<Longrightarrow> clock (w_rt v) \<le> clock (w_rt v')"
  by (cases q) (auto split: prod.splits if_splits dest: clock_other)

lemma exec_clock_mono:
  assumes "clock_ok E clock" and "exec p E w = (a, w')"
  shows "clock (w_rt w) \<le> clock (w_rt w')"
  by (rule exec_invariant [where P = "\<lambda>v. clock (w_rt w) \<le> clock (w_rt v)", OF _ assms(2)])
    (auto dest: step_clock_mono [OF assms(1)])

end
