(* ===== verification/HttpTypes.thy ===== *)
theory HttpTypes
  imports GoUrl Effects
begin

text \<open>
  Requests, responses and errors of the HTTP handlers. A response is kept as the headers the
  handler sets and one of: an error of the SDK's catalogue with its detail, a status with a
  typed body (the struct or map that the handler encodes), a redirect, an HTML error page.
\<close>

section \<open>Requests\<close>

text \<open>
  What the handlers read of an \<open>http.Request\<close>; a missing header reads as the empty string. The
  user ID and the scopes are those the authenticating middleware left in the context.
\<close>

record http_in =
  in_ContentType :: string
  in_Authorization :: string
  in_RawQuery :: string
  in_Body :: string
  in_PathID :: string
  in_UserID :: string
  in_Scopes :: "string list"

text \<open>\<open>Request.BasicAuth\<close>.\<close>

definition BasicAuth :: "http_in \<Rightarrow> (string \<times> string) option" where
  "BasicAuth rq =
     (let a = in_Authorization rq in
      if length a < 6 \<or> strings_ToLower (take 6 a) \<noteq> ''basic '' then None
      else case base64_Std_DecodeString (drop 6 a) of
        Inl _ \<Rightarrow> None
      | Inr cs \<Rightarrow> if CHR '':'' \<in> set cs then Some (Cut (CHR '':'') cs) else None)"

definition token_char :: "char \<Rightarrow> bool" where
  "token_char c \<longleftrightarrow>
     (let n = of_char c :: nat in 32 < n \<and> n < 127 \<and>
        c \<notin> set (CHR 0x22 # CHR 0x5C # ''()<>@,;:/[]?=''))"

text \<open>
  \<open>mime.ParseMediaType\<close>, as far as \<open>ParseForm\<close> needs it: the media type in lower case, and
  whether the parameters after it parse (each \<open>; name=token\<close> or \<open>; name="..."\<close>, names
  distinct, a lone trailing semicolon allowed).
\<close>

fun quoted_value :: "string \<Rightarrow> (string \<times> string) option" where
  "quoted_value [] = None"
| "quoted_value (c # cs) =
     (if c = CHR 0x22 then Some ([], cs)
      else if c = CHR 0x0D \<or> c = CHR 0x0A then None
      else if c = CHR 0x5C then
        (case cs of d # ds \<Rightarrow>
           if \<not> token_char d \<and> (of_char d :: nat) < 0x80
           then map_option (\<lambda>(v, r). (d # v, r)) (quoted_value ds)
           else map_option (\<lambda>(v, r). (c # v, r)) (quoted_value cs)
         | [] \<Rightarrow> map_option (\<lambda>(v, r). (c # v, r)) (quoted_value cs))
      else map_option (\<lambda>(v, r). (c # v, r)) (quoted_value cs))"

definition trim_left :: "string \<Rightarrow> string" where
  "trim_left = dropWhile is_space"

definition media_param :: "string \<Rightarrow> ((string \<times> string) \<times> string) option" where
  "media_param v =
     (case trim_left v of [] \<Rightarrow> None | c # r \<Rightarrow>
        if c \<noteq> CHR '';'' then None else
        (let r1 = trim_left r;
             name = strings_ToLower (takeWhile token_char r1);
             r2 = trim_left (dropWhile token_char r1)
         in if name = [] then None else
            (case r2 of [] \<Rightarrow> None | e # r3 \<Rightarrow>
               if e \<noteq> CHR ''='' then None else
               (let r4 = trim_left r3 in
                case r4 of [] \<Rightarrow> None | q # r5 \<Rightarrow>
                  if q = CHR 0x22 then map_option (\<lambda>(x, t). ((name, x), t)) (quoted_value r5)
                  else if takeWhile token_char r4 = [] then None
                  else Some ((name, takeWhile token_char r4), dropWhile token_char r4)))))"

lemma dropWhile_shorter: "length (dropWhile p xs) \<le> length xs"
  by (induction xs) auto

lemma quoted_value_rest:
  assumes "quoted_value (c # cs) = Some (x, t)"
  shows "t = cs \<or> (\<exists>y. quoted_value cs = Some (y, t)) \<or> (\<exists>d ds y. cs = d # ds \<and> quoted_value ds = Some (y, t))"
  using assms unfolding quoted_value.simps(2) [of c cs]
  by (cases cs) (auto simp del: quoted_value.simps split: if_split_asm)

lemma quoted_value_shorter: "quoted_value s = Some (x, t) \<Longrightarrow> length t < length s"
proof (induction s arbitrary: x rule: length_induct)
  case (1 s)
  then obtain c cs where s: "s = c # cs" by (cases s) simp_all
  have IH: "length t < length u" if "length u < length s" "quoted_value u = Some (y, t)" for u y
    using 1(1) that by blast
  from quoted_value_rest [OF 1(2) [unfolded s]]
  consider "t = cs" | y where "quoted_value cs = Some (y, t)" | d ds y where "cs = d # ds" "quoted_value ds = Some (y, t)"
    by blast
  then show ?case
  proof cases
    case 2
    then show ?thesis using IH [of cs y] s by simp
  next
    case 3
    then show ?thesis using IH [of ds y] s by simp
  qed (simp add: s)
qed

text \<open>A parameter takes up text, so the list of parameters comes to an end.\<close>

lemma media_param_shorter:
  assumes "media_param v = Some (p, t)"
  shows "length t < length v"
proof -
  obtain c r where v: "trim_left v = c # r"
    using assms by (auto simp: media_param_def split: list.splits)
  define r2 where "r2 = trim_left (dropWhile token_char (trim_left r))"
  obtain e r3 where r2: "r2 = e # r3"
    using assms v by (auto simp: media_param_def Let_def r2_def split: list.splits if_splits)
  have trim: "length (trim_left u) \<le> length u" for u by (simp add: trim_left_def dropWhile_shorter)
  have "length r3 < length r2" using r2 by simp
  also have "length r2 \<le> length r"
    unfolding r2_def using trim dropWhile_shorter by (meson le_trans)
  also have "length r < length v" using trim [of v] v by simp
  finally have "length r3 < length v" .
  moreover have "length t \<le> length (trim_left r3)"
    using assms v r2 dropWhile_shorter [of token_char "trim_left r3"]
    by (auto simp: media_param_def Let_def r2_def [symmetric] split: list.splits if_splits dest!: quoted_value_shorter)
  ultimately show ?thesis using trim [of r3] by simp
qed

function media_params_ok :: "(string \<times> string) list \<Rightarrow> string \<Rightarrow> bool" where
  "media_params_ok seen v =
     (if trim_left v = [] then True
      else case media_param v of
        None \<Rightarrow> strings_TrimSpace v = '';''
      | Some ((k, x), r) \<Rightarrow>
          (case map_of seen k of Some y \<Rightarrow> x = y \<and> media_params_ok seen r
           | None \<Rightarrow> media_params_ok ((k, x) # seen) r))"
  by pat_completeness auto

termination by (relation "measure (\<lambda>(seen, v). length v)") (auto dest: media_param_shorter)

declare media_params_ok.simps [simp del]

definition media_type :: "string \<Rightarrow> string" where
  "media_type v = strings_TrimSpace (strings_ToLower (fst (Cut (CHR '';'') v)))"

definition form_type :: string where
  "form_type = ''application/x-www-form-urlencoded''"

text \<open>
  \<open>Request.ParseForm\<close> for a POST: \<open>PostForm\<close>, or an error. The URL's query is parsed as well
  and its errors count.
\<close>

definition ParseForm :: "http_in \<Rightarrow> url_values res" where
  "ParseForm rq =
     (let ct = in_ContentType rq;
          params_ok = media_params_ok [] (dropWhile (\<lambda>c. c \<noteq> CHR '';'') ct);
          (form, form_ok) = (if media_type ct = form_type then ParseQuery (in_Body rq) else ([], True))
      in if params_ok \<and> form_ok \<and> snd (ParseQuery (in_RawQuery rq)) then Inr form
         else Inl (Errorf ''http: malformed form''))"

section \<open>Models\<close>

text \<open>\<open>models/models.gen.go\<close>: the bodies of requests and responses.\<close>

record TokenRequest =
  tr_GrantType :: string
  tr_ClientId :: string
  tr_ClientSecret :: string
  tr_Scope :: "string option"
  tr_RefreshToken :: "string option"
  tr_Code :: "string option"
  tr_RedirectUri :: "string option"
  tr_CodeVerifier :: "string option"

definition empty_TokenRequest :: TokenRequest where
  "empty_TokenRequest = \<lparr>tr_GrantType = [], tr_ClientId = [], tr_ClientSecret = [], tr_Scope = None,
     tr_RefreshToken = None, tr_Code = None, tr_RedirectUri = None, tr_CodeVerifier = None\<rparr>"

definition TokenRequest_of_json :: "json \<Rightarrow> TokenRequest res" where
  "TokenRequest_of_json v0 =
     and_then (struct_value v0) (\<lambda>v.
     and_then (field_string ''grant_type'' v) (\<lambda>g.
     and_then (field_string ''client_id'' v) (\<lambda>i.
     and_then (field_string ''client_secret'' v) (\<lambda>s.
     and_then (field_string_ptr ''scope'' v) (\<lambda>sc.
     and_then (field_string_ptr ''refresh_token'' v) (\<lambda>rt.
     and_then (field_string_ptr ''code'' v) (\<lambda>co.
     and_then (field_string_ptr ''redirect_uri'' v) (\<lambda>ru.
     and_then (field_string_ptr ''code_verifier'' v) (\<lambda>cv.
       Inr \<lparr>tr_GrantType = g, tr_ClientId = i, tr_ClientSecret = s, tr_Scope = sc,
            tr_RefreshToken = rt, tr_Code = co, tr_RedirectUri = ru, tr_CodeVerifier = cv\<rparr>)))))))))"

record TokenResponse =
  ts_AccessToken :: string
  ts_ExpiresIn :: int
  ts_RefreshToken :: "string option"
  ts_Scope :: "string option"
  ts_TokenType :: string

record RevokeRequest =
  rv_ClientId :: "string option"
  rv_ClientSecret :: "string option"
  rv_Token :: string
  rv_TokenTypeHint :: "string option"

definition RevokeRequest_of_json :: "json \<Rightarrow> RevokeRequest res" where
  "RevokeRequest_of_json v0 =
     and_then (struct_value v0) (\<lambda>v.
     and_then (field_string_ptr ''client_id'' v) (\<lambda>i.
     and_then (field_string_ptr ''client_secret'' v) (\<lambda>s.
     and_then (field_string ''token'' v) (\<lambda>t.
     and_then (field_string_ptr ''token_type_hint'' v) (\<lambda>h.
       Inr \<lparr>rv_ClientId = i, rv_ClientSecret = s, rv_Token = t, rv_TokenTypeHint = h\<rparr>)))))"

text \<open>\<open>IntrospectRequest\<close> and \<open>ValidateRequest\<close> have the one field \<open>token\<close>.\<close>

definition token_of_json :: "json \<Rightarrow> string res" where
  "token_of_json v0 = and_then (struct_value v0) (field_string ''token'')"

record IntrospectResponse =
  ir_Active :: bool
  ir_Aud :: "string option"
  ir_ClientId :: "string option"
  ir_Exp :: "int option"
  ir_Iat :: "int option"
  ir_Scope :: "string option"
  ir_Sub :: "string option"
  ir_TokenType :: "string option"

definition inactive_response :: IntrospectResponse where
  "inactive_response = \<lparr>ir_Active = False, ir_Aud = None, ir_ClientId = None, ir_Exp = None,
     ir_Iat = None, ir_Scope = None, ir_Sub = None, ir_TokenType = None\<rparr>"

record ValidateResponse =
  vr_Error :: "string option"
  vr_Scopes :: "string list option"
  vr_Sub :: "string option"
  vr_Valid :: bool

record OTPVerifyRequest =
  ov_Email :: string
  ov_Code :: string

record RegisteredClient =
  rc_ClientId :: string
  rc_Name :: string
  rc_AllowedScopes :: "string list"

section \<open>Responses\<close>

text \<open>The error values of the SDK that the handlers send.\<close>

datatype api_error =
    Global_BadRequest | Global_Internal | Global_Forbidden | Global_NotFound | Global_Conflict
  | Global_TooManyRequests | Global_ServiceUnavailable | Global_NotImplemented
  | Auth_InvalidToken | Auth_InvalidClientCredentials | Auth_UnsupportedGrantType
  | Auth_InvalidScope | Auth_InsufficientScope | Auth_InvalidKey

datatype body =
    TokenBody TokenResponse
  | RevokedBody "int option"
  | IntrospectBody IntrospectResponse
  | ValidateBody ValidateResponse
  | MessageBody string
  | StatusBody string
  | ClientBody RegisteredClient
  | ClientsBody "string \<Rightarrow> RegisteredClient option"
  | RawBody string
  | JsonBody json
  | PasskeyBody string int
  | NoBody

datatype outcome =
    SendError api_error string
  | Reply nat body
  | Redirect string url_values
  | HtmlError nat string

record response =
  rs_Headers :: "(string \<times> string) list"
  rs_Outcome :: outcome

definition json_no_store :: "(string \<times> string) list" where
  "json_no_store = [(''Content-Type'', ''application/json''), (''Cache-Control'', ''no-store'')]"

definition respond :: "(string \<times> string) list \<Rightarrow> outcome \<Rightarrow> response proc" where
  "respond hs x = Ret \<lparr>rs_Headers = hs, rs_Outcome = x\<rparr>"

text \<open>An issued token is an answer with a token body.\<close>

definition issued :: "response \<Rightarrow> TokenResponse option" where
  "issued r = (case rs_Outcome r of Reply _ (TokenBody t) \<Rightarrow> Some t | _ \<Rightarrow> None)"

lemma exec_respond [simp]:
  "exec (respond hs x) E w = (\<lparr>rs_Headers = hs, rs_Outcome = x\<rparr>, w)"
  by (simp add: respond_def)

end
