(* ===== verification/Clients.thy ===== *)
theory Clients
  imports HttpTypes
begin

text \<open>
  \<open>internal/clients\<close>: the HTTP client for the customer and communications APIs
  (\<open>client.go\<close>, \<open>user.go\<close>, \<open>comms.go\<close>) and the banned-customers table (\<open>banned.go\<close>).
  The functions of the SDK and of third-party packages that they and the handlers call are the
  fields of \<open>sdk\<close>.
\<close>

record sdk =
  sdk_IsValidGrantType :: "string \<Rightarrow> bool"
  sdk_IsValidScope :: "string \<Rightarrow> bool"
  sdk_BuildKey :: "string \<Rightarrow> string \<Rightarrow> ddb_key res"
  sdk_ParseAddress :: "string \<Rightarrow> unit res"
  sdk_Email_UnmarshalJSON :: "json \<Rightarrow> string res"
  sdk_Email_MarshalJSON :: "string \<Rightarrow> json res"

record HttpClient =
  hc_CommsBaseURL :: string
  hc_CustomerBaseURL :: string

section \<open>Building requests\<close>

text \<open>
  \<open>http.NewRequestWithContext\<close> fails when the URL does not parse: a control byte, or a
  malformed percent escape in the path or the fragment (the base URLs are taken to be of the
  form \<open>http(s)://host\<close>).
\<close>

definition percent_ok :: "string \<Rightarrow> bool" where
  "percent_ok s \<longleftrightarrow> QueryUnescape s \<noteq> None"

definition url_parses :: "string \<Rightarrow> bool" where
  "url_parses u \<longleftrightarrow>
     (case Cut (CHR ''#'') u of (u', frag) \<Rightarrow>
        list_all (\<lambda>c. 32 \<le> (of_char c :: nat) \<and> c \<noteq> CHR 0x7F) u' \<and>
        percent_ok (fst (Cut (CHR ''?'') u')) \<and> percent_ok frag)"

definition success_status :: "int \<Rightarrow> bool" where
  "success_status n \<longleftrightarrow> 200 \<le> n \<and> n < 300"

definition HTTPError :: "int \<Rightarrow> goerror" where
  "HTTPError n = Errorf (''HTTP error '' @ strconv_Itoa n)"

definition bearer_headers :: "string \<Rightarrow> (string \<times> string) list" where
  "bearer_headers tok = [(''Authorization'', ''Bearer '' @ tok), (''Accept'', ''application/json'')]"

section \<open>Customer API: credentials and users\<close>

record CredentialsResponse =
  cred_AuthMethods :: "string list"
  cred_EmailVerified :: bool
  cred_PasswordHash :: "string option"
  cred_UserId :: string

definition CredentialsResponse_of_json :: "json \<Rightarrow> CredentialsResponse res" where
  "CredentialsResponse_of_json v0 =
     and_then (struct_value v0) (\<lambda>v.
     and_then (field_strings ''auth_methods'' v) (\<lambda>m.
     and_then (field_bool ''email_verified'' v) (\<lambda>e.
     and_then (field_string_ptr ''password_hash'' v) (\<lambda>p.
     and_then (field_string ''user_id'' v) (\<lambda>u.
       Inr \<lparr>cred_AuthMethods = m, cred_EmailVerified = e, cred_PasswordHash = p, cred_UserId = u\<rparr>)))))"

text \<open>A GET with a bearer token: the body of a 2xx answer.\<close>

definition authorized_get :: "string \<Rightarrow> string \<Rightarrow> string \<Rightarrow> string res proc" where
  "authorized_get what url tok =
     (if \<not> url_parses url then Ret (Inl (Wrapf (''failed to build '' @ what) (Errorf ''parse error'')))
      else HttpDo \<lparr>rq_method = ''GET'', rq_url = url, rq_headers = bearer_headers tok, rq_body = []\<rparr> (\<lambda>r.
        case r of
          Inl err \<Rightarrow> Ret (Inl (Wrapf (''failed to '' @ what) err))
        | Inr resp \<Rightarrow>
            (case rp_body resp of
               Inl err \<Rightarrow> Ret (Inl (Wrapf (''failed to read '' @ what @ '' response'') err))
             | Inr raw \<Rightarrow>
                 if \<not> success_status (rp_status resp) then Ret (Inl (HTTPError (rp_status resp)))
                 else Ret (Inr raw))))"

definition PathCredentials :: string where
  "PathCredentials = ''/v1/users/credentials''"

definition GetUserCredentials ::
  "HttpClient \<Rightarrow> string \<Rightarrow> string \<Rightarrow> CredentialsResponse option res proc" where
  "GetUserCredentials c email bearerToken =
     call (authorized_get ''get user credentials''
             (hc_CustomerBaseURL c @ PathCredentials @ ''?email='' @ QueryEscape email) bearerToken) (\<lambda>r.
       case r of
         Inl err \<Rightarrow> Ret (Inl err)
       | Inr raw \<Rightarrow>
           (case and_then (Unmarshal raw) CredentialsResponse_of_json of
              Inl err \<Rightarrow> Ret (Inl (Wrapf ''failed to unmarshal user credentials response'' err))
            | Inr result \<Rightarrow> Ret (Inr (Some result))))"

text \<open>
  \<open>time.Time\<close> in JSON is an RFC 3339 text; it is kept as that text. \<open>rfc3339\<close> is the strict
  check of \<open>UnmarshalJSON\<close>: two-digit fields in range, day within its month, an optional
  fraction, \<open>Z\<close> or an offset.
\<close>

definition two_digits :: "string \<Rightarrow> (nat \<times> string) option" where
  "two_digits s =
     (case s of a # b # r \<Rightarrow>
        (case (char_digit a, char_digit b) of (Some x, Some y) \<Rightarrow> Some (10 * x + y, r) | _ \<Rightarrow> None)
      | _ \<Rightarrow> None)"

definition expect :: "char \<Rightarrow> string \<Rightarrow> string option" where
  "expect c s = (case s of d # r \<Rightarrow> if d = c then Some r else None | [] \<Rightarrow> None)"

definition leap :: "nat \<Rightarrow> bool" where
  "leap y \<longleftrightarrow> y mod 4 = 0 \<and> (y mod 100 \<noteq> 0 \<or> y mod 400 = 0)"

definition month_days :: "nat \<Rightarrow> nat \<Rightarrow> nat" where
  "month_days y m =
     (if m = 2 then (if leap y then 29 else 28) else if m \<in> {4, 6, 9, 11} then 30 else 31)"

definition zone_ok :: "string \<Rightarrow> bool" where
  "zone_ok s \<longleftrightarrow>
     (case s of [] \<Rightarrow> False | c # r \<Rightarrow>
        if c = CHR ''Z'' then r = []
        else if c = CHR ''+'' \<or> c = CHR ''-'' then
          (case two_digits r of None \<Rightarrow> False | Some (h, r1) \<Rightarrow>
             (case Option.bind (expect (CHR '':'') r1) two_digits of None \<Rightarrow> False
              | Some (m, r2) \<Rightarrow> h < 24 \<and> m < 60 \<and> r2 = []))
        else False)"

definition frac_zone_ok :: "string \<Rightarrow> bool" where
  "frac_zone_ok s \<longleftrightarrow>
     (case s of [] \<Rightarrow> False | c # r \<Rightarrow>
        if c = CHR ''.'' then
          (case digits_of r of (ds, t) \<Rightarrow> ds \<noteq> [] \<and> zone_ok t)
        else zone_ok s)"

definition hms_ok :: "string \<Rightarrow> bool" where
  "hms_ok s \<longleftrightarrow>
     (case two_digits s of None \<Rightarrow> False | Some (h, s1) \<Rightarrow>
        (case Option.bind (expect (CHR '':'') s1) two_digits of None \<Rightarrow> False | Some (mi, s2) \<Rightarrow>
           (case Option.bind (expect (CHR '':'') s2) two_digits of None \<Rightarrow> False | Some (se, s3) \<Rightarrow>
              h < 24 \<and> mi < 60 \<and> se < 60 \<and> frac_zone_ok s3)))"

definition rfc3339 :: "string \<Rightarrow> bool" where
  "rfc3339 s \<longleftrightarrow>
     (case two_digits s of None \<Rightarrow> False | Some (c, s1) \<Rightarrow>
        (case two_digits s1 of None \<Rightarrow> False | Some (y, s2) \<Rightarrow>
           (case Option.bind (expect (CHR ''-'') s2) two_digits of None \<Rightarrow> False | Some (mo, s3) \<Rightarrow>
              (case Option.bind (expect (CHR ''-'') s3) two_digits of None \<Rightarrow> False | Some (d, s4) \<Rightarrow>
                 1 \<le> mo \<and> mo \<le> 12 \<and> 1 \<le> d \<and> d \<le> month_days (100 * c + y) mo \<and>
                 (case expect (CHR ''T'') s4 of None \<Rightarrow> False | Some s5 \<Rightarrow> hms_ok s5)))))"

fun into_time_ptr :: "string option \<Rightarrow> json list \<Rightarrow> string option res" where
  "into_time_ptr acc [] = Inr acc"
| "into_time_ptr acc (JNull # vs) = into_time_ptr None vs"
| "into_time_ptr acc (JStr s # vs) =
     (if rfc3339 s then into_time_ptr (Some s) vs else Inl (Errorf ''parsing time''))"
| "into_time_ptr acc (v # vs) = Inl (Errorf ''Time.UnmarshalJSON: input is not a JSON string'')"

definition field_time_ptr :: "string \<Rightarrow> json \<Rightarrow> string option res" where
  "field_time_ptr f v = into_time_ptr None (members_of f v)"

text \<open>\<open>openapi_types.Email\<close> has its own \<open>UnmarshalJSON\<close>, which sees every member in turn.\<close>

fun into_email :: "sdk \<Rightarrow> string \<Rightarrow> json list \<Rightarrow> string res" where
  "into_email S acc [] = Inr acc"
| "into_email S acc (v # vs) =
     (case sdk_Email_UnmarshalJSON S v of Inl e \<Rightarrow> Inl e | Inr s \<Rightarrow> into_email S s vs)"

definition field_email :: "sdk \<Rightarrow> string \<Rightarrow> json \<Rightarrow> string res" where
  "field_email S f v = into_email S [] (members_of f v)"

record User =
  us_AvatarUrl :: "string option"
  us_CreatedAt :: "string option"
  us_Email :: string
  us_FirstName :: string
  us_LastName :: string
  us_MiddleInitial :: "string option"
  us_Phone :: "string option"
  us_UpdatedAt :: "string option"
  us_UserId :: string

definition User_of_json :: "sdk \<Rightarrow> json \<Rightarrow> User res" where
  "User_of_json S v0 =
     and_then (struct_value v0) (\<lambda>v.
     and_then (field_string_ptr ''avatar_url'' v) (\<lambda>a.
     and_then (field_time_ptr ''created_at'' v) (\<lambda>c.
     and_then (field_email S ''email'' v) (\<lambda>e.
     and_then (field_string ''first_name'' v) (\<lambda>f.
     and_then (field_string ''last_name'' v) (\<lambda>l.
     and_then (field_string_ptr ''middle_initial'' v) (\<lambda>m.
     and_then (field_string_ptr ''phone'' v) (\<lambda>p.
     and_then (field_time_ptr ''updated_at'' v) (\<lambda>u.
     and_then (field_string ''user_id'' v) (\<lambda>i.
       Inr \<lparr>us_AvatarUrl = a, us_CreatedAt = c, us_Email = e, us_FirstName = f, us_LastName = l,
            us_MiddleInitial = m, us_Phone = p, us_UpdatedAt = u, us_UserId = i\<rparr>))))))))))"

text \<open>The user ID goes into the path as it is.\<close>

definition GetUserByID :: "sdk \<Rightarrow> HttpClient \<Rightarrow> string \<Rightarrow> string \<Rightarrow> User option res proc" where
  "GetUserByID S c userID bearerToken =
     call (authorized_get ''get user by ID''
             (hc_CustomerBaseURL c @ ''/v1/users/'' @ userID) bearerToken) (\<lambda>r.
       case r of
         Inl err \<Rightarrow> Ret (Inl err)
       | Inr raw \<Rightarrow>
           (case and_then (Unmarshal raw) (User_of_json S) of
              Inl err \<Rightarrow> Ret (Inl (Wrapf ''failed to unmarshal get user response'' err))
            | Inr result \<Rightarrow> Ret (Inr (Some result))))"

text \<open>A missing account is an error, never a nil result: the customer API answers it with 404.\<close>

lemma authorized_get_exec:
  "exec (authorized_get what url tok) E w = (Inr raw, w') \<Longrightarrow>
     \<exists>resp h. env_http E \<lparr>rq_method = ''GET'', rq_url = url, rq_headers = bearer_headers tok, rq_body = []\<rparr>
        (w_http w) = (Inr resp, h) \<and> success_status (rp_status resp) \<and> rp_body resp = Inr raw \<and>
        w' = w\<lparr>w_http := h\<rparr>"
  by (auto simp: authorized_get_def split: if_splits prod.splits sum.splits)

lemma GetUserCredentials_some:
  "fst (exec (GetUserCredentials c email tok) E w) = Inr r \<Longrightarrow> r \<noteq> None"
  by (auto simp: GetUserCredentials_def exec_call split: prod.splits sum.splits)

lemma authorized_get_error_status:
  assumes "env_http E \<lparr>rq_method = ''GET'', rq_url = url, rq_headers = bearer_headers tok, rq_body = []\<rparr>
      (w_http w) = (Inr resp, h)" and "\<not> success_status (rp_status resp)"
  shows "\<exists>e. fst (exec (authorized_get what url tok) E w) = Inl e"
  using assms by (cases "rp_body resp") (auto simp: authorized_get_def)

section \<open>Reachability\<close>

definition reachable :: "string \<Rightarrow> string \<Rightarrow> goerror option proc" where
  "reachable baseURL name =
     (if baseURL = [] then Ret (Some (Errorf (name @ '' base URL not configured'')))
      else if \<not> url_parses (baseURL @ ''/health'') then
        Ret (Some (Wrapf (''failed to build '' @ name @ '' health request'') (Errorf ''parse error'')))
      else HttpDo \<lparr>rq_method = ''GET'', rq_url = baseURL @ ''/health'', rq_headers = [], rq_body = []\<rparr> (\<lambda>r.
        case r of
          Inl err \<Rightarrow> Ret (Some (Wrapf (''failed to reach '' @ name) err))
        | Inr resp \<Rightarrow>
            if \<not> success_status (rp_status resp)
            then Ret (Some (Errorf (name @ '' health check returned status '' @ strconv_Itoa (rp_status resp))))
            else Ret None))"

definition CommsReachable :: "HttpClient \<Rightarrow> goerror option proc" where
  "CommsReachable c = reachable (hc_CommsBaseURL c) ''communications-api''"

definition CustomerReachable :: "HttpClient \<Rightarrow> goerror option proc" where
  "CustomerReachable c = reachable (hc_CustomerBaseURL c) ''customer-api''"

section \<open>E-mail\<close>

definition maxConcurrentEmails :: nat where
  "maxConcurrentEmails = 20"

record SendEmailRequest =
  se_To :: string
  se_TemplateId :: string
  se_TemplateData :: "(string \<times> json) list option"

text \<open>\<open>Marshal\<close> writes the members of a map in the order of its keys.\<close>

fun insert_member :: "string \<times> json \<Rightarrow> (string \<times> json) list \<Rightarrow> (string \<times> json) list" where
  "insert_member p [] = [p]"
| "insert_member p (q # qs) = (if string_le (fst p) (fst q) then p # q # qs else q # insert_member p qs)"

definition map_json :: "(string \<times> json) list \<Rightarrow> json" where
  "map_json ms = JObj (foldr insert_member ms [])"

definition SendEmailRequest_to_json :: "sdk \<Rightarrow> SendEmailRequest \<Rightarrow> json res" where
  "SendEmailRequest_to_json S b =
     map_sum id (\<lambda>to. JObj (
       (case se_TemplateData b of None \<Rightarrow> [] | Some ms \<Rightarrow> [(''template_data'', map_json ms)])
       @ [(''template_id'', JStr (se_TemplateId b)), (''to'', to)]))
     (sdk_Email_MarshalJSON S (se_To b))"

definition PathSendEmail :: string where
  "PathSendEmail = ''/v1/send/email''"

text \<open>
  The goroutine of \<open>SendEmail\<close>: the request it is going to make, if it gets that far. It holds
  its slot of the semaphore until the request is done (\<open>email_done\<close>).
\<close>

definition email_request :: "sdk \<Rightarrow> HttpClient \<Rightarrow> SendEmailRequest \<Rightarrow> http_request option" where
  "email_request S c b =
     (case SendEmailRequest_to_json S b of
        Inl err \<Rightarrow> None
      | Inr payload \<Rightarrow>
          (let url = hc_CommsBaseURL c @ PathSendEmail
           in if \<not> url_parses url then None
              else Some \<lparr>rq_method = ''POST'', rq_url = url,
                rq_headers = [(''Content-Type'', ''application/json''), (''Accept'', ''application/json'')],
                rq_body = print_value payload\<rparr>))"

definition SendEmail :: "sdk \<Rightarrow> HttpClient \<Rightarrow> SendEmailRequest \<Rightarrow> goerror option proc" where
  "SendEmail S c b =
     SemTryAcquire maxConcurrentEmails (\<lambda>acquired.
       if \<not> acquired then Ret None
       else GoSendEmail (email_request S c b) (\<lambda>_. Ret None))"

text \<open>The oldest e-mail goroutine makes its request (whatever the answer) and ends.\<close>

definition email_done :: "('r, 'h, 'c) env \<Rightarrow> ('r, 'h, 'c) world \<Rightarrow> ('r, 'h, 'c) world" where
  "email_done E w =
     (case w_emails w of [] \<Rightarrow> w
      | q # qs \<Rightarrow> w\<lparr>w_http := snd (env_http E q (w_http w)), w_emails := qs, w_sem := w_sem w - 1\<rparr>)"

text \<open>Every slot taken belongs to one pending e-mail, and there are at most 20.\<close>

definition email_inv :: "('r, 'h, 'c) world \<Rightarrow> bool" where
  "email_inv w \<longleftrightarrow> w_sem w = length (w_emails w) \<and> w_sem w \<le> maxConcurrentEmails"

lemma SendEmail_inv: "email_inv w \<Longrightarrow> email_inv (snd (exec (SendEmail S c b) E w))"
  by (auto simp: email_inv_def SendEmail_def start_email_def split: option.split)

lemma email_done_inv: "email_inv w \<Longrightarrow> email_inv (email_done E w)"
  by (auto simp: email_inv_def email_done_def split: list.split)

lemma SendEmail_exec:
  "exec (SendEmail S c b) E w =
     (None, if maxConcurrentEmails \<le> w_sem w then w
            else case email_request S c b of None \<Rightarrow> w
              | Some q \<Rightarrow> w\<lparr>w_sem := Suc (w_sem w), w_emails := w_emails w @ [q]\<rparr>)"
  by (auto simp: SendEmail_def start_email_def split: option.split)

section \<open>Banned customers\<close>

definition defaultBannedTable :: string where
  "defaultBannedTable = ''komodo-banned-customers''"

text \<open>The table, and whether there is a DynamoDB client.\<close>

record BannedCustomersClient =
  bc_table :: string
  bc_ddb :: "unit option"

definition NewBannedCustomers :: "string \<Rightarrow> unit option \<Rightarrow> BannedCustomersClient" where
  "NewBannedCustomers tableName ddb =
     \<lparr>bc_table = (if tableName = [] then defaultBannedTable else tableName), bc_ddb = ddb\<rparr>"

definition Banned_Reachable :: "BannedCustomersClient \<Rightarrow> goerror option proc" where
  "Banned_Reachable c =
     (if bc_ddb c = None then Ret (Some (Errorf ''banned customers table unavailable''))
      else DdbDescribe (bc_table c) (\<lambda>r.
        case r of Inl err \<Rightarrow> Ret (Some (Wrapf ''failed to reach banned customers table'' err))
        | Inr _ \<Rightarrow> Ret None))"

text \<open>Without a DynamoDB client the call of \<open>BuildKey\<close> panics; the result stands for that.\<close>

definition IsBanned :: "sdk \<Rightarrow> BannedCustomersClient \<Rightarrow> string \<Rightarrow> bool res proc" where
  "IsBanned S c email =
     (if bc_ddb c = None then Ret (Inl (Errorf ''panic: nil pointer dereference''))
      else case sdk_BuildKey S ''PK'' (''EMAIL#'' @ email) of
        Inl err \<Rightarrow> Ret (Inl (Wrapf ''failed to build banned-customers key'' err))
      | Inr key \<Rightarrow>
          DdbGetItem (bc_table c) key (\<lambda>r.
            case r of
              Inl err \<Rightarrow>
                if errors_Is err ''ErrNotFound'' then Ret (Inr False)
                else Ret (Inl (Wrapf ''failed to look up banned-customers record'' err))
            | Inr rec \<Rightarrow>
                if 0 < BannedExpiresAt rec then
                  TimeNow (\<lambda>now.
                    if BannedExpiresAt rec < now div 1000000000 then Ret (Inr False) else Ret (Inr True))
                else Ret (Inr True)))"

text \<open>A ban holds when the record has no expiry or the expiry is not in the past.\<close>

definition ban_holds :: "int \<Rightarrow> bannedRecord \<Rightarrow> bool" where
  "ban_holds now rec \<longleftrightarrow> BannedExpiresAt rec \<le> 0 \<or> now div 1000000000 \<le> BannedExpiresAt rec"

lemma IsBanned_record:
  assumes "bc_ddb c \<noteq> None" and "sdk_BuildKey S ''PK'' (''EMAIL#'' @ email) = Inr key"
    and "env_ddb_get E (bc_table c) key (w_http w) = (Inr rec, h)"
  shows "fst (exec (IsBanned S c email) E w) = Inr (ban_holds (fst (env_now E (w_rt w))) rec)"
  using assms by (auto simp: IsBanned_def ban_holds_def split: prod.split)

lemma IsBanned_exec_not_found:
  assumes "bc_ddb c \<noteq> None" and "sdk_BuildKey S ''PK'' (''EMAIL#'' @ email) = Inr key"
    and "env_ddb_get E (bc_table c) key (w_http w) = (Inl e, h)" and "errors_Is e ''ErrNotFound''"
  shows "fst (exec (IsBanned S c email) E w) = Inr False"
  using assms by (auto simp: IsBanned_def)

end
