(* ===== verification/JwtKeys.thy ===== *)
theory JwtKeys
  imports Effects GoJson
begin

text \<open>
  \<open>jwt/jwt.go\<close>: the signing key set with its rotation, the claims of a token, signing and
  parsing. The JWT library (\<open>golang-jwt\<close>) and the PEM parser are not in the repository: they
  are the parameter \<open>lib\<close>, and what the code relies on is stated as \<open>jwt_laws\<close>.
  Times are nanoseconds since 1970, the claims' dates whole seconds (\<open>gojwt.NumericDate\<close> with
  the library's default precision).
\<close>

section \<open>Data\<close>

record CustomClaims =
  cl_Scopes :: "string list"
  cl_Azp :: string
  cl_FamilyId :: string
  cl_Issuer :: string
  cl_Subject :: string
  cl_Audience :: "string list"
  cl_ExpiresAt :: "int option"
  cl_NotBefore :: "int option"
  cl_IssuedAt :: "int option"
  cl_ID :: string

record PublicKey =
  pk_N :: nat
  pk_E :: nat

record PrivateKey =
  sk_Public :: PublicKey
  sk_D :: nat

record VerificationKey =
  vk_Kid :: string
  vk_Key :: PublicKey

record keyset =
  ks_privateKey :: PrivateKey
  ks_publicKey :: PublicKey
  ks_kid :: string
  ks_iss :: string
  ks_aud :: string

record Keys =
  k_active :: "keyset option"
  k_previous :: "keyset option"

record JwtConfig =
  PrivateKeyPEM :: string
  PublicKeyPEM :: string
  KID :: string
  cfg_Issuer :: string
  cfg_Audience :: string

section \<open>The library\<close>

text \<open>What the key function sees of a token: its algorithm and the \<open>kid\<close> header.\<close>

record TokenHeader =
  th_Alg :: string
  th_MethodRSA :: bool
  th_Kid :: "string option"

record ParserOptions =
  po_Issuer :: "string option"
  po_Audience :: "string option"
  po_ValidMethods :: "string list"

record ParsedToken =
  tk_Claims :: CustomClaims
  tk_Valid :: bool

record jwt_lib =
  gj_ParseRSAPrivateKeyFromPEM :: "string \<Rightarrow> PrivateKey res"
  gj_ParseRSAPublicKeyFromPEM :: "string \<Rightarrow> PublicKey res"
  gj_SignedString :: "string \<Rightarrow> CustomClaims \<Rightarrow> PrivateKey \<Rightarrow> string res"
  gj_ParseWithClaims ::
    "string \<Rightarrow> (TokenHeader \<Rightarrow> PublicKey res) \<Rightarrow> ParserOptions \<Rightarrow> int \<Rightarrow> ParsedToken res"

section \<open>Keys\<close>

definition parse_keys :: "jwt_lib \<Rightarrow> JwtConfig \<Rightarrow> keyset res" where
  "parse_keys lib cfg =
     (if PrivateKeyPEM cfg = [] \<or> PublicKeyPEM cfg = []
      then Inl (Errorf ''JWT keys not fully configured'')
      else case gj_ParseRSAPrivateKeyFromPEM lib (PrivateKeyPEM cfg) of
        Inl err \<Rightarrow> Inl (Wrapf ''failed to parse private key'' err)
      | Inr priv \<Rightarrow>
          (case gj_ParseRSAPublicKeyFromPEM lib (PublicKeyPEM cfg) of
             Inl err \<Rightarrow> Inl (Wrapf ''failed to parse public key'' err)
           | Inr pub \<Rightarrow> Inr \<lparr>ks_privateKey = priv, ks_publicKey = pub, ks_kid = KID cfg,
                              ks_iss = cfg_Issuer cfg, ks_aud = cfg_Audience cfg\<rparr>))"

definition NewKeys :: "jwt_lib \<Rightarrow> JwtConfig \<Rightarrow> Keys res" where
  "NewKeys lib cfg =
     (case parse_keys lib cfg of
        Inl err \<Rightarrow> Inl err
      | Inr ks \<Rightarrow> Inr \<lparr>k_active = Some ks, k_previous = None\<rparr>)"

text \<open>The error and the keys afterwards.\<close>

definition Keys_Reload :: "jwt_lib \<Rightarrow> Keys \<Rightarrow> JwtConfig \<Rightarrow> goerror option \<times> Keys" where
  "Keys_Reload lib k cfg =
     (case parse_keys lib cfg of
        Inl err \<Rightarrow> (Some err, k)
      | Inr ks \<Rightarrow>
          (let k' = (case k_active k of
                       Some cur \<Rightarrow> if ks_kid cur \<noteq> ks_kid ks then k\<lparr>k_previous := Some cur\<rparr> else k
                     | None \<Rightarrow> k)
           in (None, k'\<lparr>k_active := Some ks\<rparr>)))"

definition VerificationKeys :: "Keys \<Rightarrow> VerificationKey list" where
  "VerificationKeys k =
     (case k_active k of Some act \<Rightarrow> [\<lparr>vk_Kid = ks_kid act, vk_Key = ks_publicKey act\<rparr>] | None \<Rightarrow> [])
     @ (case k_previous k of Some prev \<Rightarrow> [\<lparr>vk_Kid = ks_kid prev, vk_Key = ks_publicKey prev\<rparr>]
        | None \<Rightarrow> [])"

section \<open>Signing\<close>

definition to_seconds :: "int \<Rightarrow> int" where
  "to_seconds t = t div 1000000000"

text \<open>
  Dereferencing the active key set when there is none panics. A key set made by \<open>New\<close> always
  has one (\<open>keys_ready\<close>), so the branch is not reachable from the program's own bootstrap.
\<close>

definition nil_keyset :: goerror where
  "nil_keyset = Errorf ''panic: nil pointer dereference''"

definition refresh_claims ::
  "string \<Rightarrow> string \<Rightarrow> string \<Rightarrow> string \<Rightarrow> string \<Rightarrow> int \<Rightarrow> string list \<Rightarrow> int \<Rightarrow> int \<Rightarrow> int \<Rightarrow> string
     \<Rightarrow> CustomClaims" where
  "refresh_claims issuer subject audience azp familyID ttl scopes t1 t2 t3 jti =
     \<lparr>cl_Scopes = scopes, cl_Azp = azp, cl_FamilyId = familyID, cl_Issuer = issuer,
      cl_Subject = subject, cl_Audience = [audience],
      cl_ExpiresAt = Some (to_seconds (t1 + ttl * 1000000000)),
      cl_NotBefore = Some (to_seconds t3), cl_IssuedAt = Some (to_seconds t2), cl_ID = jti\<rparr>"

definition SignRefreshToken ::
  "jwt_lib \<Rightarrow> Keys \<Rightarrow> string \<Rightarrow> string \<Rightarrow> string \<Rightarrow> string \<Rightarrow> string \<Rightarrow> int \<Rightarrow> string list
     \<Rightarrow> string res proc" where
  "SignRefreshToken lib k issuer subject audience azp familyID ttl scopes =
     TimeNow (\<lambda>t1. TimeNow (\<lambda>t2. TimeNow (\<lambda>t3. UuidNew (\<lambda>jti.
       case k_active k of
         None \<Rightarrow> Ret (Inl nil_keyset)
       | Some ks \<Rightarrow>
           Ret (gj_SignedString lib (ks_kid ks)
             (refresh_claims issuer subject audience azp familyID ttl scopes t1 t2 t3 jti)
             (ks_privateKey ks))))))"

definition SignTokenWithAZP ::
  "jwt_lib \<Rightarrow> Keys \<Rightarrow> string \<Rightarrow> string \<Rightarrow> string \<Rightarrow> string \<Rightarrow> int \<Rightarrow> string list \<Rightarrow> string res proc" where
  "SignTokenWithAZP lib k issuer subject audience azp ttl scopes =
     SignRefreshToken lib k issuer subject audience azp [] ttl scopes"

definition SignToken ::
  "jwt_lib \<Rightarrow> Keys \<Rightarrow> string \<Rightarrow> string \<Rightarrow> string \<Rightarrow> int \<Rightarrow> string list \<Rightarrow> string res proc" where
  "SignToken lib k issuer subject audience ttl scopes =
     SignTokenWithAZP lib k issuer subject audience [] ttl scopes"

section \<open>Parsing\<close>

definition keyForToken :: "Keys \<Rightarrow> TokenHeader \<Rightarrow> PublicKey res" where
  "keyForToken k t =
     (if \<not> th_MethodRSA t then Inl (Errorf (''unexpected signing method: '' @ th_Alg t))
      else
        (let kid = (case th_Kid t of Some x \<Rightarrow> x | None \<Rightarrow> [])
         in case k_active k of
              Some act \<Rightarrow>
                if kid = [] \<or> kid = ks_kid act then Inr (ks_publicKey act)
                else (case k_previous k of
                        Some prev \<Rightarrow> if kid = ks_kid prev then Inr (ks_publicKey prev)
                          else Inl (Errorf (''no verification key for kid '' @ kid))
                      | None \<Rightarrow> Inl (Errorf (''no verification key for kid '' @ kid)))
            | None \<Rightarrow>
                (case k_previous k of
                   Some prev \<Rightarrow> if kid = ks_kid prev then Inr (ks_publicKey prev)
                     else Inl (Errorf (''no verification key for kid '' @ kid))
                 | None \<Rightarrow> Inl (Errorf (''no verification key for kid '' @ kid)))))"

definition ParseClaims :: "jwt_lib \<Rightarrow> Keys \<Rightarrow> string \<Rightarrow> CustomClaims res proc" where
  "ParseClaims lib k tokenString =
     TimeNow (\<lambda>now.
       case gj_ParseWithClaims lib tokenString (keyForToken k)
              \<lparr>po_Issuer = None, po_Audience = None, po_ValidMethods = [''RS256'']\<rparr> now of
         Inl err \<Rightarrow> Ret (Inl (Wrapf ''failed to parse token'' err))
       | Inr token \<Rightarrow> Ret (Inr (tk_Claims token)))"

definition parseValidated :: "jwt_lib \<Rightarrow> Keys \<Rightarrow> string \<Rightarrow> CustomClaims res proc" where
  "parseValidated lib k tokenString =
     (case k_active k of
        None \<Rightarrow> Ret (Inl nil_keyset)
      | Some ks \<Rightarrow>
          if ks_iss ks = [] then Ret (Inl (Errorf ''missing jwt issuer''))
          else if ks_aud ks = [] then Ret (Inl (Errorf ''missing jwt audience''))
          else TimeNow (\<lambda>now.
            case gj_ParseWithClaims lib tokenString (keyForToken k)
                   \<lparr>po_Issuer = Some (ks_iss ks), po_Audience = Some (ks_aud ks),
                    po_ValidMethods = [''RS256'']\<rparr> now of
              Inl err \<Rightarrow> Ret (Inl (Wrapf ''verification failed'' err))
            | Inr token \<Rightarrow>
                if \<not> tk_Valid token then Ret (Inl (Errorf ''invalid token''))
                else Ret (Inr (tk_Claims token))))"

definition ValidateToken :: "jwt_lib \<Rightarrow> Keys \<Rightarrow> string \<Rightarrow> bool res proc" where
  "ValidateToken lib k tokenString =
     call (parseValidated lib k tokenString) (\<lambda>r.
       case r of Inl err \<Rightarrow> Ret (Inl err) | Inr _ \<Rightarrow> Ret (Inr True))"

definition ValidateAndParseClaims :: "jwt_lib \<Rightarrow> Keys \<Rightarrow> string \<Rightarrow> CustomClaims res proc" where
  "ValidateAndParseClaims lib k tokenString = parseValidated lib k tokenString"

section \<open>What the code relies on\<close>

text \<open>The library's default check of dates (no leeway, no claim required).\<close>

definition dates_valid :: "int \<Rightarrow> CustomClaims \<Rightarrow> bool" where
  "dates_valid now c \<longleftrightarrow>
     (case cl_ExpiresAt c of None \<Rightarrow> True | Some e \<Rightarrow> now < e * 1000000000) \<and>
     (case cl_NotBefore c of None \<Rightarrow> True | Some n \<Rightarrow> n * 1000000000 \<le> now)"

definition opts_valid :: "ParserOptions \<Rightarrow> CustomClaims \<Rightarrow> bool" where
  "opts_valid o' c \<longleftrightarrow>
     (case po_Issuer o' of None \<Rightarrow> True | Some i \<Rightarrow> cl_Issuer c = i) \<and>
     (case po_Audience o' of None \<Rightarrow> True | Some a \<Rightarrow> a \<in> set (cl_Audience c))"

definition rs256_header :: "string \<Rightarrow> TokenHeader" where
  "rs256_header kid = \<lparr>th_Alg = ''RS256'', th_MethodRSA = True, th_Kid = Some kid\<rparr>"

text \<open>The claims as they come out of their JSON text: bytes that are not UTF-8 are replaced.\<close>

definition valid_claims :: "CustomClaims \<Rightarrow> CustomClaims" where
  "valid_claims c = c\<lparr>cl_Scopes := map to_valid (cl_Scopes c), cl_Azp := to_valid (cl_Azp c),
     cl_FamilyId := to_valid (cl_FamilyId c), cl_Issuer := to_valid (cl_Issuer c),
     cl_Subject := to_valid (cl_Subject c), cl_Audience := map to_valid (cl_Audience c),
     cl_ID := to_valid (cl_ID c)\<rparr>"

text \<open>
  The documented behaviour of the library. A token it signed parses, with the claims that were
  signed, when the key function answers with the matching public key and dates and options are
  met (\<open>jwt_complete\<close>). A token that parses under a public key was signed with the matching
  private key over the claims it returns, and meets dates and options (\<open>jwt_sound\<close>: RS256
  signatures are not forged).
\<close>

definition jwt_complete :: "jwt_lib \<Rightarrow> bool" where
  "jwt_complete lib \<longleftrightarrow> (\<forall>kid c sk tok kf opts now.
     gj_SignedString lib kid c sk = Inr tok \<and> kf (rs256_header (to_valid kid)) = Inr (sk_Public sk) \<and>
     dates_valid now c \<and> opts_valid opts (valid_claims c) \<and> ''RS256'' \<in> set (po_ValidMethods opts) \<longrightarrow>
     gj_ParseWithClaims lib tok kf opts now = Inr \<lparr>tk_Claims = valid_claims c, tk_Valid = True\<rparr>)"

definition jwt_sound :: "jwt_lib \<Rightarrow> bool" where
  "jwt_sound lib \<longleftrightarrow> (\<forall>tok kf opts now t.
     gj_ParseWithClaims lib tok kf opts now = Inr t \<longrightarrow>
     tk_Valid t \<and> dates_valid now (tk_Claims t) \<and> opts_valid opts (tk_Claims t) \<and>
     (\<exists>kid c sk. gj_SignedString lib kid c sk = Inr tok \<and> tk_Claims t = valid_claims c \<and>
        kf (rs256_header (to_valid kid)) = Inr (sk_Public sk)))"

text \<open>A signed token carries its claims.\<close>

definition jwt_payload :: "jwt_lib \<Rightarrow> bool" where
  "jwt_payload lib \<longleftrightarrow> (\<forall>kid c sk tok kf opts now t.
     gj_SignedString lib kid c sk = Inr tok \<and> gj_ParseWithClaims lib tok kf opts now = Inr t \<longrightarrow>
     tk_Claims t = valid_claims c)"

section \<open>Rotation\<close>

text \<open>
  What every sequence of reloads keeps: there is an active key set, and the previous one has a
  different \<open>kid\<close>.
\<close>

definition keys_ready :: "Keys \<Rightarrow> bool" where
  "keys_ready k \<longleftrightarrow> (\<exists>act. k_active k = Some act \<and>
     (\<forall>prev. k_previous k = Some prev \<longrightarrow> ks_kid prev \<noteq> ks_kid act))"

lemma NewKeys_ready: "NewKeys lib cfg = Inr k \<Longrightarrow> keys_ready k"
  by (auto simp: NewKeys_def keys_ready_def split: sum.splits)

lemma Reload_ready: "keys_ready k \<Longrightarrow> keys_ready (snd (Keys_Reload lib k cfg))"
  by (auto simp: Keys_Reload_def keys_ready_def Let_def split: sum.splits if_splits)

primrec reloads :: "jwt_lib \<Rightarrow> Keys \<Rightarrow> JwtConfig list \<Rightarrow> Keys" where
  "reloads lib k [] = k"
| "reloads lib k (cfg # cfgs) = reloads lib (snd (Keys_Reload lib k cfg)) cfgs"

lemma reloads_ready: "keys_ready k \<Longrightarrow> keys_ready (reloads lib k cfgs)"
  by (induction cfgs arbitrary: k) (simp_all add: Reload_ready)

text \<open>The key function finds the key a \<open>kid\<close> stands for.\<close>

lemma keyForToken_rs256:
  assumes "keys_ready k"
  shows "keyForToken k (rs256_header kid) = Inr p \<longleftrightarrow>
    (\<exists>act. k_active k = Some act \<and> (kid = [] \<or> kid = ks_kid act) \<and> p = ks_publicKey act) \<or>
    (\<exists>prev. k_previous k = Some prev \<and> kid \<noteq> [] \<and> kid = ks_kid prev \<and> p = ks_publicKey prev)"
  using assms by (auto simp: keyForToken_def rs256_header_def keys_ready_def split: option.splits)

lemma keyForToken_in_keys:
  "keyForToken k t = Inr p \<Longrightarrow> th_MethodRSA t \<and>
     (\<exists>ks. (k_active k = Some ks \<or> k_previous k = Some ks) \<and> p = ks_publicKey ks)"
  by (auto simp: keyForToken_def Let_def split: option.splits if_splits)

text \<open>The public keys a service accepts are the ones it publishes.\<close>

lemma keyForToken_published:
  "keyForToken k t = Inr p \<Longrightarrow> p \<in> vk_Key ` set (VerificationKeys k)"
  by (auto simp: VerificationKeys_def dest!: keyForToken_in_keys)

section \<open>Signing and parsing together\<close>

lemma exec_SignRefreshToken:
  "exec (SignRefreshToken lib k iss sub aud azp fam ttl scopes) E w =
     (let (t1, c1) = env_now E (w_rt w); (t2, c2) = env_now E c1; (t3, c3) = env_now E c2;
          (jti, c4) = env_uuid E c3
      in (case k_active k of None \<Rightarrow> Inl nil_keyset
          | Some ks \<Rightarrow> gj_SignedString lib (ks_kid ks)
              (refresh_claims iss sub aud azp fam ttl scopes t1 t2 t3 jti) (ks_privateKey ks),
          w\<lparr>w_rt := c4\<rparr>))"
  by (auto simp: SignRefreshToken_def split: prod.split option.split)

lemma exec_SignToken:
  "exec (SignToken lib k iss sub aud ttl scopes) E w =
     exec (SignRefreshToken lib k iss sub aud [] [] ttl scopes) E w"
  by (simp add: SignToken_def SignTokenWithAZP_def)

lemma exec_ParseClaims:
  "exec (ParseClaims lib k tok) E w =
     (let (now, c) = env_now E (w_rt w)
      in (case gj_ParseWithClaims lib tok (keyForToken k)
                 \<lparr>po_Issuer = None, po_Audience = None, po_ValidMethods = [''RS256'']\<rparr> now of
            Inl err \<Rightarrow> Inl (Wrapf ''failed to parse token'' err)
          | Inr t \<Rightarrow> Inr (tk_Claims t), w\<lparr>w_rt := c\<rparr>))"
  by (auto simp: ParseClaims_def split: prod.split sum.split)

text \<open>A parsed token was signed with one of the service's keys, and its dates are met.\<close>

definition signed_by_keys :: "jwt_lib \<Rightarrow> Keys \<Rightarrow> string \<Rightarrow> CustomClaims \<Rightarrow> bool" where
  "signed_by_keys lib k tok c \<longleftrightarrow> (\<exists>kid c0 sk ks. gj_SignedString lib kid c0 sk = Inr tok \<and>
      c = valid_claims c0 \<and> (k_active k = Some ks \<or> k_previous k = Some ks) \<and>
      ks_publicKey ks = sk_Public sk)"

lemma Parse_sound:
  assumes "jwt_sound lib"
    and "gj_ParseWithClaims lib tok (keyForToken k) opts now = Inr t"
  shows "signed_by_keys lib k tok (tk_Claims t) \<and> dates_valid now (tk_Claims t) \<and>
    opts_valid opts (tk_Claims t) \<and> tk_Valid t"
proof -
  obtain kid c sk where "gj_SignedString lib kid c sk = Inr tok" "tk_Claims t = valid_claims c"
    "keyForToken k (rs256_header (to_valid kid)) = Inr (sk_Public sk)"
    using assms unfolding jwt_sound_def by blast
  moreover from this(3) obtain ks where "k_active k = Some ks \<or> k_previous k = Some ks"
    "sk_Public sk = ks_publicKey ks" using keyForToken_in_keys by blast
  ultimately have "signed_by_keys lib k tok (tk_Claims t)" unfolding signed_by_keys_def by metis
  then show ?thesis using assms unfolding jwt_sound_def by blast
qed

lemma ParseClaims_sound:
  assumes "jwt_sound lib" and "exec (ParseClaims lib k tok) E w = (Inr c, w')"
  shows "signed_by_keys lib k tok c \<and> dates_valid (fst (env_now E (w_rt w))) c"
proof -
  obtain now s where n: "env_now E (w_rt w) = (now, s)" by fastforce
  obtain t where "gj_ParseWithClaims lib tok (keyForToken k)
      \<lparr>po_Issuer = None, po_Audience = None, po_ValidMethods = [''RS256'']\<rparr> now = Inr t" "c = tk_Claims t"
    using assms(2) n by (auto simp: exec_ParseClaims split: sum.splits)
  with Parse_sound [OF assms(1) this(1)] n show ?thesis by simp
qed

lemma parseValidated_sound:
  assumes "jwt_sound lib" and "exec (parseValidated lib k tok) E w = (Inr c, w')"
  shows "signed_by_keys lib k tok c \<and> dates_valid (fst (env_now E (w_rt w))) c \<and>
    (\<exists>act. k_active k = Some act \<and> cl_Issuer c = ks_iss act \<and> ks_aud act \<in> set (cl_Audience c))"
proof -
  obtain now s where n: "env_now E (w_rt w) = (now, s)" by fastforce
  obtain act t where act: "k_active k = Some act" and "gj_ParseWithClaims lib tok (keyForToken k)
      \<lparr>po_Issuer = Some (ks_iss act), po_Audience = Some (ks_aud act),
       po_ValidMethods = [''RS256'']\<rparr> now = Inr t" "c = tk_Claims t"
    using assms(2) n by (auto simp: parseValidated_def split: sum.splits option.splits if_splits)
  with Parse_sound [OF assms(1) this(2)] n show ?thesis by (auto simp: opts_valid_def)
qed

text \<open>A token signed with a key of the set parses to its claims while its dates hold.\<close>

definition usable_key :: "Keys \<Rightarrow> keyset \<Rightarrow> bool" where
  "usable_key k ks \<longleftrightarrow> (k_active k = Some ks \<or> k_previous k = Some ks \<and> ks_kid ks \<noteq> []) \<and>
     ks_publicKey ks = sk_Public (ks_privateKey ks) \<and> to_valid (ks_kid ks) = ks_kid ks"

lemma keyForToken_usable:
  "keys_ready k \<Longrightarrow> usable_key k ks \<Longrightarrow>
     keyForToken k (rs256_header (to_valid (ks_kid ks))) = Inr (sk_Public (ks_privateKey ks))"
  by (auto simp: keyForToken_rs256 usable_key_def)

lemma ParseClaims_complete:
  assumes "jwt_complete lib" and "keys_ready k" and "usable_key k ks"
    and "gj_SignedString lib (ks_kid ks) c (ks_privateKey ks) = Inr tok"
    and "dates_valid (fst (env_now E (w_rt w))) c"
  shows "fst (exec (ParseClaims lib k tok) E w) = Inr (valid_claims c)"
proof -
  obtain now s where n: "env_now E (w_rt w) = (now, s)" by fastforce
  have "gj_ParseWithClaims lib tok (keyForToken k)
      \<lparr>po_Issuer = None, po_Audience = None, po_ValidMethods = [''RS256'']\<rparr> now
      = Inr \<lparr>tk_Claims = valid_claims c, tk_Valid = True\<rparr>"
    using assms(1,4,5) n keyForToken_usable [OF assms(2,3)]
    unfolding jwt_complete_def by (auto simp: opts_valid_def)
  then show ?thesis using n by (simp add: exec_ParseClaims)
qed

text \<open>
  A key set stays usable through the next rotation (to another \<open>kid\<close>), and is gone after the
  one that follows.
\<close>

lemma Reload_keeps_key:
  assumes "k_active k = Some ks" and "Keys_Reload lib k cfg = (None, k')" and "KID cfg \<noteq> ks_kid ks"
  shows "k_previous k' = Some ks \<and> (\<exists>new. k_active k' = Some new \<and> ks_kid new = KID cfg)"
  using assms by (auto simp: Keys_Reload_def parse_keys_def Let_def split: sum.splits if_splits)

end
