(* ===== verification/GoCrypto.thy ===== *)
theory GoCrypto
  imports Prelude "HOL-Library.Word"
begin

text \<open>
  The parts of Go's \<open>crypto\<close> library that the program calls: SHA-256 on a byte string
  (client secrets and PKCE verifiers) and \<open>subtle.ConstantTimeCompare\<close>. Both are written
  on words of the width the library uses and are executable.
\<close>

unbundle bit_operations_syntax

section \<open>SHA-256\<close>

text \<open>Round constants and initial hash value.\<close>

definition sha256_k :: "32 word list" where
  "sha256_k =
     [1116352408, 1899447441, 3049323471, 3921009573, 961987163, 1508970993,
      2453635748, 2870763221, 3624381080, 310598401, 607225278, 1426881987,
      1925078388, 2162078206, 2614888103, 3248222580, 3835390401, 4022224774,
      264347078, 604807628, 770255983, 1249150122, 1555081692, 1996064986,
      2554220882, 2821834349, 2952996808, 3210313671, 3336571891, 3584528711,
      113926993, 338241895, 666307205, 773529912, 1294757372, 1396182291,
      1695183700, 1986661051, 2177026350, 2456956037, 2730485921, 2820302411,
      3259730800, 3345764771, 3516065817, 3600352804, 4094571909, 275423344,
      430227734, 506948616, 659060556, 883997877, 958139571, 1322822218,
      1537002063, 1747873779, 1955562222, 2024104815, 2227730452, 2361852424,
      2428436474, 2756734187, 3204031479, 3329325298]"

definition sha256_h0 :: "32 word list" where
  "sha256_h0 =
     [1779033703, 3144134277, 1013904242, 2773480762,
      1359893119, 2600822924, 528734635, 1541459225]"

definition rotr32 :: "nat \<Rightarrow> 32 word \<Rightarrow> 32 word" where
  "rotr32 n x = drop_bit n x OR push_bit (32 - n) x"

text \<open>
  Bytes are 8-bit words. Padding: one bit set, zeros up to 56 mod 64 bytes, the bit length
  in eight bytes.
\<close>

definition byte_of :: "char \<Rightarrow> 8 word" where
  "byte_of c = word_of_int (of_char c)"

definition char_of_byte :: "8 word \<Rightarrow> char" where
  "char_of_byte b = char_of (uint b)"

definition be64 :: "64 word \<Rightarrow> 8 word list" where
  "be64 w = map (\<lambda>n. ucast (drop_bit n w)) [56, 48, 40, 32, 24, 16, 8, 0]"

definition be32 :: "32 word \<Rightarrow> 8 word list" where
  "be32 w = map (\<lambda>n. ucast (drop_bit n w)) [24, 16, 8, 0]"

definition sha256_pad :: "8 word list \<Rightarrow> 8 word list" where
  "sha256_pad m =
     (let l = length m in
      m @ [128] @ replicate ((119 - l mod 64) mod 64) 0 @ be64 (8 * word_of_int (int l)))"

fun words_of_bytes :: "8 word list \<Rightarrow> 32 word list" where
  "words_of_bytes (a # b # c # d # xs) =
     (push_bit 24 (ucast a) OR push_bit 16 (ucast b) OR push_bit 8 (ucast c) OR ucast d)
       # words_of_bytes xs"
| "words_of_bytes _ = []"

fun chunks16 :: "nat \<Rightarrow> 32 word list \<Rightarrow> 32 word list list" where
  "chunks16 0 ws = []"
| "chunks16 (Suc n) ws = take 16 ws # chunks16 n (drop 16 ws)"

text \<open>
  The message schedule, kept as a window of the last sixteen words: each step emits the
  oldest word and appends the new one.
\<close>

definition sched_next :: "32 word list \<Rightarrow> 32 word" where
  "sched_next w =
     (let x = w ! 1; y = w ! 14;
          s0 = rotr32 7 x XOR rotr32 18 x XOR drop_bit 3 x;
          s1 = rotr32 17 y XOR rotr32 19 y XOR drop_bit 10 y
      in w ! 0 + s0 + w ! 9 + s1)"

text \<open>One round on the working variables a to h.\<close>

type_synonym sha_vars =
  "32 word \<times> 32 word \<times> 32 word \<times> 32 word \<times> 32 word \<times> 32 word \<times> 32 word \<times> 32 word"

definition sha_round :: "32 word \<Rightarrow> 32 word \<Rightarrow> sha_vars \<Rightarrow> sha_vars" where
  "sha_round k w v =
     (case v of (a, b, c, d, e, f, g, h) \<Rightarrow>
        let s1 = rotr32 6 e XOR rotr32 11 e XOR rotr32 25 e;
            ch = (e AND f) XOR (NOT e AND g);
            t1 = h + s1 + ch + k + w;
            s0 = rotr32 2 a XOR rotr32 13 a XOR rotr32 22 a;
            maj = (a AND b) XOR (a AND c) XOR (b AND c);
            t2 = s0 + maj
        in (t1 + t2, a, b, c, d + t1, e, f, g))"

fun sha_rounds :: "32 word list \<Rightarrow> 32 word list \<Rightarrow> sha_vars \<Rightarrow> sha_vars" where
  "sha_rounds [] win v = v"
| "sha_rounds (k # ks) win v =
     sha_rounds ks (tl win @ [sched_next win]) (sha_round k (hd win) v)"

definition sha_compress :: "32 word list \<Rightarrow> 32 word list \<Rightarrow> 32 word list" where
  "sha_compress block hs =
     (case sha_rounds sha256_k block
             (hs ! 0, hs ! 1, hs ! 2, hs ! 3, hs ! 4, hs ! 5, hs ! 6, hs ! 7) of
        (a, b, c, d, e, f, g, h) \<Rightarrow>
          map2 (+) hs [a, b, c, d, e, f, g, h])"

definition sha256_words :: "8 word list \<Rightarrow> 32 word list" where
  "sha256_words m =
     (let p = sha256_pad m
      in fold sha_compress (chunks16 (length p div 64) (words_of_bytes p)) sha256_h0)"

text \<open>\<open>sha256.Sum256\<close>: the 32 bytes of the digest of a byte string.\<close>

definition sha256_Sum256 :: "string \<Rightarrow> string" where
  "sha256_Sum256 s = map char_of_byte (concat (map be32 (sha256_words (map byte_of s))))"

lemma length_sha_compress:
  "length hs = 8 \<Longrightarrow> length (sha_compress block hs) = 8"
  by (simp add: sha_compress_def split: prod.splits)

lemma length_fold_compress:
  "length hs = 8 \<Longrightarrow> length (fold sha_compress bs hs) = 8"
  by (induction bs arbitrary: hs) (simp_all add: length_sha_compress)

lemma length_sha256_words: "length (sha256_words m) = 8"
  by (simp add: sha256_words_def Let_def length_fold_compress sha256_h0_def)

lemma length_concat_be32: "length (concat (map be32 ws)) = 4 * length ws"
  by (induction ws) (simp_all add: be32_def)

lemma length_sha256_Sum256: "length (sha256_Sum256 s) = 32"
  by (simp add: sha256_Sum256_def length_concat_be32 length_sha256_words)

section \<open>Constant-time comparison\<close>

text \<open>
  \<open>subtle.ConstantTimeCompare(x, y)\<close>: 0 when the lengths differ; otherwise the bytes are
  XORed and the differences are collected with OR, and the answer is 1 iff nothing was
  collected.
\<close>

fun ct_diff :: "8 word \<Rightarrow> string \<Rightarrow> string \<Rightarrow> 8 word" where
  "ct_diff v (x # xs) (y # ys) = ct_diff (v OR (byte_of x XOR byte_of y)) xs ys"
| "ct_diff v _ _ = v"

definition subtle_ConstantTimeCompare :: "string \<Rightarrow> string \<Rightarrow> int" where
  "subtle_ConstantTimeCompare x y =
     (if length x \<noteq> length y then 0 else if ct_diff 0 x y = 0 then 1 else 0)"

lemma char_of_byte_of [simp]: "char_of_byte (byte_of c) = c"
  by (simp add: byte_of_def char_of_byte_def uint_word_of_int take_bit_eq_mod)

lemma byte_of_inj: "byte_of x = byte_of y \<longleftrightarrow> x = y"
  by (metis char_of_byte_of)

lemma word_or_zero_iff: "(a :: 'a::len word) OR b = 0 \<longleftrightarrow> a = 0 \<and> b = 0"
  by (rule or_eq_0_iff)

lemma word_xor_zero_iff: "(a :: 'a::len word) XOR b = 0 \<longleftrightarrow> a = b"
  by (metis xor.assoc xor.left_neutral xor.right_neutral xor_self_eq)

lemma ct_diff_zero_iff:
  "length xs = length ys \<Longrightarrow> ct_diff v xs ys = 0 \<longleftrightarrow> v = 0 \<and> xs = ys"
  by (induction v xs ys rule: ct_diff.induct)
     (auto simp: word_or_zero_iff word_xor_zero_iff byte_of_inj)

lemma ConstantTimeCompare_eq_1 [simp]: "subtle_ConstantTimeCompare x y = 1 \<longleftrightarrow> x = y"
  by (auto simp: subtle_ConstantTimeCompare_def ct_diff_zero_iff)

end
