(* ===== verification/ClientRegistry.thy ===== *)
theory ClientRegistry
  imports GoJson GoCrypto GoEncoding
begin

text \<open>
  \<open>oauth/clients.go\<close>: the registry of OAuth clients, parsed from the JSON text of the
  \<open>REGISTERED_CLIENTS\<close> secret and swapped atomically on reload. Secrets are kept as hex SHA-256
  digests. A registry is \<open>None\<close> for a nil \<open>*Registry\<close>; its pointer is \<open>None\<close> before a load.
\<close>

record ClientRecord =
  cr_Name :: string
  cr_SecretHash :: string
  cr_AllowedScopes :: "string list"
  cr_AllowedAudiences :: "string list"
  cr_AllowedRedirectURIs :: "string list"

definition empty_record :: ClientRecord where
  "empty_record = \<lparr>cr_Name = [], cr_SecretHash = [], cr_AllowedScopes = [],
     cr_AllowedAudiences = [], cr_AllowedRedirectURIs = []\<rparr>"

definition HasScope :: "ClientRecord \<Rightarrow> string \<Rightarrow> bool" where
  "HasScope r scope =
     (if cr_AllowedScopes r = [] then False
      else if ''*'' \<in> set (cr_AllowedScopes r) then True
      else list_all (\<lambda>s. s \<in> set (cr_AllowedScopes r)) (strings_Fields scope))"

type_synonym clients_map = "string \<Rightarrow> ClientRecord option"

record Registry =
  reg_ptr :: "clients_map option"

definition dummySecretHash :: string where
  "dummySecretHash = hex_EncodeToString (replicate 32 (CHR 0x00))"

section \<open>Parsing\<close>

definition ClientRecord_of_json :: "json \<Rightarrow> ClientRecord res" where
  "ClientRecord_of_json v0 =
     and_then (struct_value v0) (\<lambda>v.
     and_then (field_string ''name'' v) (\<lambda>n.
     and_then (field_string ''secret_hash'' v) (\<lambda>h.
     and_then (field_strings ''allowed_scopes'' v) (\<lambda>s.
     and_then (field_strings ''allowed_audiences'' v) (\<lambda>a.
     and_then (field_strings ''allowed_redirect_uris'' v) (\<lambda>u.
       Inr \<lparr>cr_Name = n, cr_SecretHash = h, cr_AllowedScopes = s, cr_AllowedAudiences = a,
            cr_AllowedRedirectURIs = u\<rparr>))))))"

text \<open>\<open>map[string]ClientRecord\<close>: later members of the same name replace earlier ones.\<close>

fun clients_of_members :: "clients_map \<Rightarrow> (string \<times> json) list \<Rightarrow> clients_map res" where
  "clients_of_members m [] = Inr m"
| "clients_of_members m ((k, v) # ms) =
     and_then (ClientRecord_of_json v) (\<lambda>r. clients_of_members (m(k \<mapsto> r)) ms)"

definition clients_of_json :: "json \<Rightarrow> clients_map res" where
  "clients_of_json v =
     (case v of JObj ms \<Rightarrow> clients_of_members Map.empty ms | JNull \<Rightarrow> Inr Map.empty
      | _ \<Rightarrow> Inl type_error)"

section \<open>The registry\<close>

text \<open>The error and the registry afterwards: a failed reload keeps the old clients.\<close>

definition Registry_Reload :: "Registry \<Rightarrow> string \<Rightarrow> goerror option \<times> Registry" where
  "Registry_Reload r raw =
     (if raw = [] then (Some (Errorf ''REGISTERED_CLIENTS not configured''), r)
      else case and_then (Unmarshal raw) clients_of_json of
        Inl err \<Rightarrow> (Some (Wrapf ''failed to parse REGISTERED_CLIENTS'' err), r)
      | Inr parsed \<Rightarrow> (None, r\<lparr>reg_ptr := Some parsed\<rparr>))"

definition NewRegistry :: "string \<Rightarrow> Registry res" where
  "NewRegistry raw =
     (case Registry_Reload \<lparr>reg_ptr = None\<rparr> raw of
        (Some err, _) \<Rightarrow> Inl err
      | (None, r) \<Rightarrow> Inr r)"

text \<open>The public view of a record: everything but the secret hash.\<close>

definition redact :: "ClientRecord \<Rightarrow> ClientRecord" where
  "redact rec = rec\<lparr>cr_SecretHash := []\<rparr>"

definition sha256_hex :: "string \<Rightarrow> string" where
  "sha256_hex secret = hex_EncodeToString (sha256_Sum256 secret)"

definition ValidateAndGet :: "Registry option \<Rightarrow> string \<Rightarrow> string \<Rightarrow> ClientRecord \<times> bool" where
  "ValidateAndGet r clientID secret =
     (case r of None \<Rightarrow> (empty_record, False) | Some r \<Rightarrow>
        (case reg_ptr r of None \<Rightarrow> (empty_record, False) | Some clients \<Rightarrow>
           (let presented = sha256_hex secret;
                want = (case clients clientID of Some rec \<Rightarrow> cr_SecretHash rec | None \<Rightarrow> dummySecretHash)
            in if subtle_ConstantTimeCompare presented want \<noteq> 1 \<or> clients clientID = None
               then (empty_record, False)
               else (redact (the (clients clientID)), True))))"

definition Registry_Get :: "Registry option \<Rightarrow> string \<Rightarrow> ClientRecord \<times> bool" where
  "Registry_Get r clientID =
     (case r of None \<Rightarrow> (empty_record, False) | Some r \<Rightarrow>
        (case reg_ptr r of None \<Rightarrow> (empty_record, False) | Some clients \<Rightarrow>
           (case clients clientID of None \<Rightarrow> (empty_record, False) | Some rec \<Rightarrow> (redact rec, True))))"

definition Registry_List :: "Registry option \<Rightarrow> clients_map" where
  "Registry_List r =
     (case r of None \<Rightarrow> Map.empty | Some r \<Rightarrow>
        (case reg_ptr r of None \<Rightarrow> Map.empty | Some clients \<Rightarrow> map_option redact \<circ> clients))"

section \<open>What the registry promises\<close>

text \<open>The clients a registry holds.\<close>

definition registered :: "Registry option \<Rightarrow> clients_map" where
  "registered r = (case Option.bind r reg_ptr of None \<Rightarrow> Map.empty | Some m \<Rightarrow> m)"

lemma ValidateAndGet_iff:
  "snd (ValidateAndGet r cid secret) \<longleftrightarrow>
     (\<exists>rec. registered r cid = Some rec \<and> cr_SecretHash rec = sha256_hex secret)"
  by (auto simp: ValidateAndGet_def registered_def Let_def split: option.splits)

lemma ValidateAndGet_value:
  "ValidateAndGet r cid secret =
     (case registered r cid of
        Some rec \<Rightarrow> if cr_SecretHash rec = sha256_hex secret then (redact rec, True)
                   else (empty_record, False)
      | None \<Rightarrow> (empty_record, False))"
  by (auto simp: ValidateAndGet_def registered_def Let_def split: option.splits)

lemma Registry_Get_value:
  "Registry_Get r cid =
     (case registered r cid of Some rec \<Rightarrow> (redact rec, True) | None \<Rightarrow> (empty_record, False))"
  by (auto simp: Registry_Get_def registered_def split: option.splits)

lemma Registry_List_value: "Registry_List r cid = map_option redact (registered r cid)"
  by (auto simp: Registry_List_def registered_def split: option.splits)

lemma redact_no_secret [simp]: "cr_SecretHash (redact rec) = []"
  by (simp add: redact_def)

lemma redact_fields [simp]:
  "cr_Name (redact rec) = cr_Name rec" "cr_AllowedScopes (redact rec) = cr_AllowedScopes rec"
  "cr_AllowedAudiences (redact rec) = cr_AllowedAudiences rec"
  "cr_AllowedRedirectURIs (redact rec) = cr_AllowedRedirectURIs rec"
  by (simp_all add: redact_def)

lemma HasScope_iff:
  "HasScope r scope \<longleftrightarrow> cr_AllowedScopes r \<noteq> [] \<and>
     (''*'' \<in> set (cr_AllowedScopes r) \<or> set (strings_Fields scope) \<subseteq> set (cr_AllowedScopes r))"
  by (auto simp: HasScope_def list_all_iff)

text \<open>A reload that fails changes nothing; one that succeeds installs what it parsed.\<close>

lemma Reload_error: "Registry_Reload r raw = (Some e, r') \<Longrightarrow> r' = r"
  by (auto simp: Registry_Reload_def split: if_splits sum.splits)

lemma Reload_ok:
  "Registry_Reload r raw = (None, r') \<Longrightarrow>
     \<exists>m. and_then (Unmarshal raw) clients_of_json = Inr m \<and> registered (Some r') = m"
  by (auto simp: Registry_Reload_def registered_def split: if_splits sum.splits)

end
