(* ===== verification/CacheApi.thy ===== *)
theory CacheApi
  imports Effects
begin

text \<open>
  \<open>db/cache.go\<close>: the contract of \<open>CacheClientOperations\<close> (the Redis client of the SDK, which
  is not in the repository) as two locales, the key families of the cache client with their
  separation, and two stores that satisfy the contract: \<open>fakeCache\<close> of \<open>db/cache_test.go\<close>
  (values only) and a store with expiry times and scripted faults.
\<close>

section \<open>Key families and constants\<close>

definition OTPCodeLen :: int where "OTPCodeLen = 6"
definition MaxOTPAttempts :: int where "MaxOTPAttempts = 5"
definition OTPCooldownSeconds :: int where "OTPCooldownSeconds = 60"
definition otpMax :: nat where "otpMax = 1000000"

definition otpKeyPrefix :: string where "otpKeyPrefix = ''otp:''"
definition otpTTLSec :: int where "otpTTLSec = 300"
definition otpAttemptsKey :: string where "otpAttemptsKey = ''otp:attempts:''"
definition otpCooldownKey :: string where "otpCooldownKey = ''otp:cooldown:''"
definition otpRedeemedKey :: string where "otpRedeemedKey = ''otp:redeemed:''"
definition otpCooldownTTL :: int where "otpCooldownTTL = OTPCooldownSeconds"
definition otpRedeemedTTL :: int where "otpRedeemedTTL = 300"
definition sessionClaimKey :: string where "sessionClaimKey = ''session:claimed:''"
definition sessionClaimTTL :: int where "sessionClaimTTL = 300"
definition revokedKey :: string where "revokedKey = ''revoked:jti:''"
definition revokedFamilyKey :: string where "revokedFamilyKey = ''revoked_family:''"
definition sentinel :: string where "sentinel = ''1''"
definition healthSentinel :: string where "healthSentinel = ''health:ready''"

lemmas cache_ttls = otpTTLSec_def otpCooldownTTL_def OTPCooldownSeconds_def otpRedeemedTTL_def
  sessionClaimTTL_def

lemmas cache_keys = otpKeyPrefix_def otpAttemptsKey_def otpCooldownKey_def otpRedeemedKey_def
  sessionClaimKey_def revokedKey_def revokedFamilyKey_def

text \<open>
  The families share the prefix \<open>otp:\<close>: the code of one address could be another family's
  key, were an address to start with \<open>attempts:\<close>, \<open>cooldown:\<close> or \<open>redeemed:\<close>. An address
  without a colon keeps them apart.
\<close>

definition plain_id :: "string \<Rightarrow> bool" where
  "plain_id x \<longleftrightarrow> CHR '':'' \<notin> set x"

lemma otp_keys_distinct [key_simps]:
  assumes "plain_id x"
  shows "otpKeyPrefix @ x \<noteq> otpAttemptsKey @ y" "otpKeyPrefix @ x \<noteq> otpCooldownKey @ y"
    "otpKeyPrefix @ x \<noteq> otpRedeemedKey @ y"
    "otpAttemptsKey @ y \<noteq> otpKeyPrefix @ x" "otpCooldownKey @ y \<noteq> otpKeyPrefix @ x"
    "otpRedeemedKey @ y \<noteq> otpKeyPrefix @ x"
  using assms by (auto simp: plain_id_def cache_keys)

lemma otp_prefixes_distinct [key_simps, simp]:
  "otpKeyPrefix \<noteq> otpAttemptsKey" "otpKeyPrefix \<noteq> otpCooldownKey" "otpKeyPrefix \<noteq> otpRedeemedKey"
  "otpAttemptsKey \<noteq> otpKeyPrefix" "otpCooldownKey \<noteq> otpKeyPrefix" "otpRedeemedKey \<noteq> otpKeyPrefix"
  "otpAttemptsKey \<noteq> otpCooldownKey" "otpAttemptsKey \<noteq> otpRedeemedKey"
  "otpCooldownKey \<noteq> otpAttemptsKey" "otpCooldownKey \<noteq> otpRedeemedKey"
  "otpRedeemedKey \<noteq> otpAttemptsKey" "otpRedeemedKey \<noteq> otpCooldownKey"
  by (simp_all add: cache_keys)

lemma family_keys_distinct [key_simps, simp]:
  "otpAttemptsKey @ x \<noteq> otpCooldownKey @ y" "otpAttemptsKey @ x \<noteq> otpRedeemedKey @ y"
  "otpCooldownKey @ x \<noteq> otpAttemptsKey @ y" "otpCooldownKey @ x \<noteq> otpRedeemedKey @ y"
  "otpRedeemedKey @ x \<noteq> otpAttemptsKey @ y" "otpRedeemedKey @ x \<noteq> otpCooldownKey @ y"
  "revokedKey @ x \<noteq> revokedFamilyKey @ y" "revokedFamilyKey @ x \<noteq> revokedKey @ y"
  by (simp_all add: cache_keys)

section \<open>The contract of the operations\<close>

text \<open>
  \<open>live s k\<close> is the value a client can read at \<open>k\<close> (absent and expired look the same).
  An operation that reports an error may or may not have been carried out: the reply can be
  lost after the command took effect.
\<close>

locale kv_store =
  fixes api :: "'r cache_ops" and live :: "'r \<Rightarrow> string \<Rightarrow> string option"
  assumes get_law: "op_Get api k s = (r, s') \<Longrightarrow>
      live s' = live s \<and> (\<forall>v. r = Inr v \<longrightarrow> v = (case live s k of None \<Rightarrow> [] | Some x \<Rightarrow> x))"
    and exists_law: "op_Exists api k s = (b, s') \<Longrightarrow>
      live s' = live s \<and> (\<forall>v. b = Inr v \<longrightarrow> v = (live s k \<noteq> None))"
    and set_law: "0 < t \<Longrightarrow> op_Set api k x t s = (u, s') \<Longrightarrow>
      live s' = (live s)(k \<mapsto> x) \<or> (\<exists>e. u = Inl e) \<and> live s' = live s"
    and setnx_law: "0 < t \<Longrightarrow> op_SetNX api k x t s = (b, s') \<Longrightarrow>
      (case b of
         Inr True \<Rightarrow> live s k = None \<and> live s' = (live s)(k \<mapsto> x)
       | Inr False \<Rightarrow> live s k \<noteq> None \<and> live s' = live s
       | Inl e \<Rightarrow> live s' = live s \<or> live s k = None \<and> live s' = (live s)(k \<mapsto> x))"
    and delete_law: "op_Delete api k s = (u, s') \<Longrightarrow>
      live s' = (live s)(k := None) \<or> (\<exists>e. u = Inl e) \<and> live s' = live s"
    and incr_fresh_law: "live s k = None \<Longrightarrow> op_Incr api k s = (n, s') \<Longrightarrow>
      n = Inr 1 \<and> live s' = (live s)(k \<mapsto> strconv_Itoa 1) \<or>
      (\<exists>e. n = Inl e) \<and> (live s' = live s \<or> live s' = (live s)(k \<mapsto> strconv_Itoa 1))"
    and incr_law: "live s k = Some (strconv_Itoa i) \<Longrightarrow> 0 \<le> i \<Longrightarrow> i < 2 ^ 63 - 1 \<Longrightarrow>
      op_Incr api k s = (n, s') \<Longrightarrow>
      n = Inr (i + 1) \<and> live s' = (live s)(k \<mapsto> strconv_Itoa (i + 1)) \<or>
      (\<exists>e. n = Inl e) \<and> (live s' = live s \<or> live s' = (live s)(k \<mapsto> strconv_Itoa (i + 1)))"
    and incr_frame: "op_Incr api k s = (n, s') \<Longrightarrow> j \<noteq> k \<Longrightarrow> live s' j = live s j"
    and expire_law: "0 < t \<Longrightarrow> op_Expire api k t s = (u, s') \<Longrightarrow> live s' = live s"

text \<open>
  With time: \<open>ttl s k\<close> is the remaining life of a live key in seconds, \<open>None\<close> when the key
  does not expire (or is absent), and \<open>elapse d s\<close> is the store \<open>d\<close> seconds later.
\<close>

locale redis = kv_store api live
    for api :: "'r cache_ops" and live :: "'r \<Rightarrow> string \<Rightarrow> string option" +
  fixes ttl :: "'r \<Rightarrow> string \<Rightarrow> int option" and elapse :: "int \<Rightarrow> 'r \<Rightarrow> 'r"
  assumes get_ttl: "op_Get api k s = (r, s') \<Longrightarrow> ttl s' = ttl s"
    and exists_ttl: "op_Exists api k s = (b, s') \<Longrightarrow> ttl s' = ttl s"
    and set_ttl: "0 < t \<Longrightarrow> op_Set api k x t s = (u, s') \<Longrightarrow>
      live s' = (live s)(k \<mapsto> x) \<and> ttl s' = (ttl s)(k := Some t) \<or>
      (\<exists>e. u = Inl e) \<and> live s' = live s \<and> ttl s' = ttl s"
    and setnx_ttl: "0 < t \<Longrightarrow> op_SetNX api k x t s = (b, s') \<Longrightarrow>
      live s k = None \<and> b \<noteq> Inr False \<and> live s' = (live s)(k \<mapsto> x) \<and> ttl s' = (ttl s)(k := Some t) \<or>
      b \<noteq> Inr True \<and> live s' = live s \<and> ttl s' = ttl s"
    and delete_ttl: "op_Delete api k s = (u, s') \<Longrightarrow>
      live s' = (live s)(k := None) \<and> ttl s' = (ttl s)(k := None) \<or>
      (\<exists>e. u = Inl e) \<and> live s' = live s \<and> ttl s' = ttl s"
    and incr_ttl: "op_Incr api k s = (n, s') \<Longrightarrow> ttl s' = ttl s"
    and fresh_ttl: "live s k = None \<Longrightarrow> ttl s k = None"
    and expire_ttl: "0 < t \<Longrightarrow> op_Expire api k t s = (Inr (), s') \<Longrightarrow>
      ttl s' = (if live s k = None then ttl s else (ttl s)(k := Some t))"
    and expire_failed_ttl: "0 < t \<Longrightarrow> op_Expire api k t s = (Inl e, s') \<Longrightarrow>
      ttl s' = ttl s \<or> live s k \<noteq> None \<and> ttl s' = (ttl s)(k := Some t)"
    and elapse_live: "0 \<le> d \<Longrightarrow> live (elapse d s) k =
      (case ttl s k of None \<Rightarrow> live s k | Some t \<Rightarrow> if t \<le> d then None else live s k)"
    and elapse_ttl: "0 \<le> d \<Longrightarrow> ttl (elapse d s) k =
      (case ttl s k of None \<Rightarrow> None | Some t \<Rightarrow> if t \<le> d then None else Some (t - d))"

text \<open>
  A store that answers: in an \<open>ok\<close> state every command succeeds and leads to an \<open>ok\<close> state
  (\<open>INCR\<close> where the value is a counter).
\<close>

locale kv_reliable = kv_store api live
    for api :: "'r cache_ops" and live :: "'r \<Rightarrow> string \<Rightarrow> string option" +
  fixes ok :: "'r \<Rightarrow> bool"
  assumes get_ok: "ok s \<Longrightarrow> \<exists>v s'. op_Get api k s = (Inr v, s') \<and> ok s'"
    and exists_ok: "ok s \<Longrightarrow> \<exists>v s'. op_Exists api k s = (Inr v, s') \<and> ok s'"
    and set_ok: "ok s \<Longrightarrow> 0 < t \<Longrightarrow> \<exists>s'. op_Set api k x t s = (Inr (), s') \<and> ok s'"
    and setnx_ok: "ok s \<Longrightarrow> 0 < t \<Longrightarrow> \<exists>v s'. op_SetNX api k x t s = (Inr v, s') \<and> ok s'"
    and delete_ok: "ok s \<Longrightarrow> \<exists>s'. op_Delete api k s = (Inr (), s') \<and> ok s'"
    and expire_ok: "ok s \<Longrightarrow> 0 < t \<Longrightarrow> \<exists>s'. op_Expire api k t s = (Inr (), s') \<and> ok s'"
    and incr_ok: "ok s \<Longrightarrow>
      live s k = None \<or> (\<exists>i. live s k = Some (strconv_Itoa i) \<and> 0 \<le> i \<and> i < 2 ^ 63 - 1) \<Longrightarrow>
      \<exists>n s'. op_Incr api k s = (Inr n, s') \<and> ok s'"
begin

text \<open>Each command of a reliable store as an equation for its effect.\<close>

lemma get_eq: "ok s \<Longrightarrow> \<exists>s'. op_Get api k s = (Inr (case live s k of None \<Rightarrow> [] | Some x \<Rightarrow> x), s')
    \<and> ok s' \<and> live s' = live s"
  using get_ok [of s k] get_law by fastforce

lemma exists_eq: "ok s \<Longrightarrow> \<exists>s'. op_Exists api k s = (Inr (live s k \<noteq> None), s') \<and> ok s' \<and> live s' = live s"
  using exists_ok [of s k] exists_law by fastforce

lemma set_eq: "ok s \<Longrightarrow> 0 < t \<Longrightarrow>
    \<exists>s'. op_Set api k x t s = (Inr (), s') \<and> ok s' \<and> live s' = (live s)(k \<mapsto> x)"
  using set_ok [of s t k x] set_law by fastforce

lemma setnx_eq: "ok s \<Longrightarrow> 0 < t \<Longrightarrow>
    \<exists>s'. op_SetNX api k x t s = (Inr (live s k = None), s') \<and> ok s' \<and>
         live s' = (if live s k = None then (live s)(k \<mapsto> x) else live s)"
proof -
  assume o: "ok s" and t: "0 < t"
  then obtain v s' where e: "op_SetNX api k x t s = (Inr v, s')" "ok s'" using setnx_ok by blast
  with setnx_law [OF t e(1)] show ?thesis by (cases v) auto
qed

lemma delete_eq: "ok s \<Longrightarrow> \<exists>s'. op_Delete api k s = (Inr (), s') \<and> ok s' \<and> live s' = (live s)(k := None)"
  using delete_ok [of s k] delete_law by fastforce

lemma expire_eq: "ok s \<Longrightarrow> 0 < t \<Longrightarrow> \<exists>s'. op_Expire api k t s = (Inr (), s') \<and> ok s' \<and> live s' = live s"
  using expire_ok [of s t k] expire_law by fastforce

lemma incr_eq:
  assumes "ok s" and "live s k = (if i = 0 then None else Some (strconv_Itoa i))"
    and "0 \<le> i" and "i < 2 ^ 63 - 1"
  shows "\<exists>s'. op_Incr api k s = (Inr (i + 1), s') \<and> ok s' \<and>
              live s' = (live s)(k \<mapsto> strconv_Itoa (i + 1))"
proof -
  have "live s k = None \<or> (\<exists>i. live s k = Some (strconv_Itoa i) \<and> 0 \<le> i \<and> i < 2 ^ 63 - 1)"
    using assms by (cases "i = 0") auto
  then obtain n s' where e: "op_Incr api k s = (Inr n, s')" "ok s'" using incr_ok assms(1) by blast
  then show ?thesis
    using incr_fresh_law [OF _ e(1)] incr_law [of s k i, OF _ assms(3,4) e(1)] assms(2)
    by (cases "i = 0") auto
qed

end

section \<open>The in-memory fake of the tests\<close>

text \<open>\<open>fakeCache\<close> of \<open>db/cache_test.go\<close>: a map and one failure switch per operation.\<close>

record fakeCache =
  fc_store :: "string \<Rightarrow> string option"
  failSet :: bool
  failSetNX :: bool
  failGet :: bool
  failIncr :: bool
  failExpire :: bool
  failDelete :: bool

definition newFake :: fakeCache where
  "newFake = \<lparr>fc_store = Map.empty, failSet = False, failSetNX = False, failGet = False,
     failIncr = False, failExpire = False, failDelete = False\<rparr>"

definition fake_Get :: "string \<Rightarrow> fakeCache \<Rightarrow> string res \<times> fakeCache" where
  "fake_Get k f =
     (if failGet f then (Inl (Errorf ''get error''), f)
      else (Inr (case fc_store f k of None \<Rightarrow> [] | Some v \<Rightarrow> v), f))"

definition fake_Set :: "string \<Rightarrow> string \<Rightarrow> int \<Rightarrow> fakeCache \<Rightarrow> unit res \<times> fakeCache" where
  "fake_Set k v t f =
     (if failSet f then (Inl (Errorf ''set error''), f)
      else (Inr (), f\<lparr>fc_store := (fc_store f)(k \<mapsto> v)\<rparr>))"

definition fake_SetNX :: "string \<Rightarrow> string \<Rightarrow> int \<Rightarrow> fakeCache \<Rightarrow> bool res \<times> fakeCache" where
  "fake_SetNX k v t f =
     (if failSetNX f then (Inl (Errorf ''setnx error''), f)
      else if fc_store f k \<noteq> None then (Inr False, f)
      else (Inr True, f\<lparr>fc_store := (fc_store f)(k \<mapsto> v)\<rparr>))"

definition fake_Delete :: "string \<Rightarrow> fakeCache \<Rightarrow> unit res \<times> fakeCache" where
  "fake_Delete k f =
     (if failDelete f then (Inl (Errorf ''delete error''), f)
      else (Inr (), f\<lparr>fc_store := (fc_store f)(k := None)\<rparr>))"

definition fake_Exists :: "string \<Rightarrow> fakeCache \<Rightarrow> bool res \<times> fakeCache" where
  "fake_Exists k f =
     (if failGet f then (Inl (Errorf ''exists error''), f) else (Inr (fc_store f k \<noteq> None), f))"

definition fake_Incr :: "string \<Rightarrow> fakeCache \<Rightarrow> int res \<times> fakeCache" where
  "fake_Incr k f =
     (if failIncr f then (Inl (Errorf ''incr error''), f)
      else
        (let n = (case fc_store f k of
                    None \<Rightarrow> 0
                  | Some raw \<Rightarrow> (case strconv_ParseInt raw of Inl e \<Rightarrow> 0 | Inr i \<Rightarrow> i)) + 1
         in (Inr n, f\<lparr>fc_store := (fc_store f)(k \<mapsto> strconv_Itoa n)\<rparr>)))"

definition fake_Expire :: "string \<Rightarrow> int \<Rightarrow> fakeCache \<Rightarrow> unit res \<times> fakeCache" where
  "fake_Expire k t f = (if failExpire f then (Inl (Errorf ''expire error''), f) else (Inr (), f))"

definition fake_api :: "fakeCache cache_ops" where
  "fake_api = \<lparr>op_Get = fake_Get, op_Set = fake_Set, op_SetNX = fake_SetNX,
     op_Delete = fake_Delete, op_Incr = fake_Incr, op_Expire = fake_Expire,
     op_Exists = fake_Exists\<rparr>"

lemmas fake_defs = fake_api_def fake_Get_def fake_Set_def fake_SetNX_def fake_Delete_def
  fake_Exists_def fake_Incr_def fake_Expire_def

interpretation fake: kv_store fake_api fc_store
  by unfold_locales
    (auto simp: fake_defs ParseInt_Itoa Let_def split: if_splits option.splits sum.splits bool.splits)


definition fake_ok :: "fakeCache \<Rightarrow> bool" where
  "fake_ok f \<longleftrightarrow> \<not> failSet f \<and> \<not> failSetNX f \<and> \<not> failGet f \<and> \<not> failIncr f \<and>
     \<not> failExpire f \<and> \<not> failDelete f"

interpretation fake: kv_reliable fake_api fc_store fake_ok
  by unfold_locales (auto simp: fake_defs fake_ok_def Let_def)

end
