(* ===== verification/TtlStore.thy ===== *)
theory TtlStore
  imports CacheApi
begin

text \<open>
  A store that satisfies the whole contract of \<open>CacheClientOperations\<close>, expiry included. Each
  entry has a value and the seconds it has left; a script says which of the next commands
  lose their request (\<open>LostBefore\<close>) or only their reply (\<open>LostAfter\<close>). It is the concrete
  environment in which the properties of the cache client are evaluated.
\<close>

datatype fault = NoFault | LostBefore | LostAfter

record ttl_store =
  ts_entries :: "string \<Rightarrow> (string \<times> int option) option"
  ts_faults :: "fault list"

definition with_fault :: "(ttl_store \<Rightarrow> 'a res \<times> ttl_store) \<Rightarrow> ttl_store \<Rightarrow> 'a res \<times> ttl_store" where
  "with_fault f s =
     (case ts_faults s of
        [] \<Rightarrow> f s
      | NoFault # fs \<Rightarrow> f (s\<lparr>ts_faults := fs\<rparr>)
      | LostBefore # fs \<Rightarrow> (Inl (Errorf ''connection lost''), s\<lparr>ts_faults := fs\<rparr>)
      | LostAfter # fs \<Rightarrow> (Inl (Errorf ''connection lost''), snd (f (s\<lparr>ts_faults := fs\<rparr>))))"

definition ttl_put :: "string \<Rightarrow> (string \<times> int option) option \<Rightarrow> ttl_store \<Rightarrow> ttl_store" where
  "ttl_put k e s = s\<lparr>ts_entries := (ts_entries s)(k := e)\<rparr>"

definition ttl_Get :: "string \<Rightarrow> ttl_store \<Rightarrow> string res \<times> ttl_store" where
  "ttl_Get k = with_fault (\<lambda>s. (Inr (case ts_entries s k of None \<Rightarrow> [] | Some (v, t) \<Rightarrow> v), s))"

definition ttl_Set :: "string \<Rightarrow> string \<Rightarrow> int \<Rightarrow> ttl_store \<Rightarrow> unit res \<times> ttl_store" where
  "ttl_Set k v t = with_fault (\<lambda>s. (Inr (), ttl_put k (Some (v, Some t)) s))"

definition ttl_SetNX :: "string \<Rightarrow> string \<Rightarrow> int \<Rightarrow> ttl_store \<Rightarrow> bool res \<times> ttl_store" where
  "ttl_SetNX k v t = with_fault (\<lambda>s.
     if ts_entries s k = None then (Inr True, ttl_put k (Some (v, Some t)) s) else (Inr False, s))"

definition ttl_Delete :: "string \<Rightarrow> ttl_store \<Rightarrow> unit res \<times> ttl_store" where
  "ttl_Delete k = with_fault (\<lambda>s. (Inr (), ttl_put k None s))"

definition ttl_Incr :: "string \<Rightarrow> ttl_store \<Rightarrow> int res \<times> ttl_store" where
  "ttl_Incr k = with_fault (\<lambda>s.
     case ts_entries s k of
       None \<Rightarrow> (Inr 1, ttl_put k (Some (strconv_Itoa 1, None)) s)
     | Some (v, t) \<Rightarrow>
         (case strconv_ParseInt v of
            Inl e \<Rightarrow> (Inl (Errorf ''value is not an integer''), s)
          | Inr i \<Rightarrow> (Inr (i + 1), ttl_put k (Some (strconv_Itoa (i + 1), t)) s)))"

definition ttl_Expire :: "string \<Rightarrow> int \<Rightarrow> ttl_store \<Rightarrow> unit res \<times> ttl_store" where
  "ttl_Expire k t = with_fault (\<lambda>s.
     case ts_entries s k of
       None \<Rightarrow> (Inr (), s)
     | Some (v, _) \<Rightarrow> (Inr (), ttl_put k (Some (v, Some t)) s))"

definition ttl_Exists :: "string \<Rightarrow> ttl_store \<Rightarrow> bool res \<times> ttl_store" where
  "ttl_Exists k = with_fault (\<lambda>s. (Inr (ts_entries s k \<noteq> None), s))"

definition ttl_api :: "ttl_store cache_ops" where
  "ttl_api = \<lparr>op_Get = ttl_Get, op_Set = ttl_Set, op_SetNX = ttl_SetNX, op_Delete = ttl_Delete,
     op_Incr = ttl_Incr, op_Expire = ttl_Expire, op_Exists = ttl_Exists\<rparr>"

definition ttl_live :: "ttl_store \<Rightarrow> string \<Rightarrow> string option" where
  "ttl_live s = (\<lambda>k. map_option fst (ts_entries s k))"

definition ttl_left :: "ttl_store \<Rightarrow> string \<Rightarrow> int option" where
  "ttl_left s = (\<lambda>k. Option.bind (ts_entries s k) snd)"

definition ttl_elapse :: "int \<Rightarrow> ttl_store \<Rightarrow> ttl_store" where
  "ttl_elapse d s = s\<lparr>ts_entries := (\<lambda>k.
     case ts_entries s k of
       None \<Rightarrow> None
     | Some (v, None) \<Rightarrow> Some (v, None)
     | Some (v, Some t) \<Rightarrow> if t \<le> d then None else Some (v, Some (t - d)))\<rparr>"

lemmas ttl_defs = ttl_api_def ttl_Get_def ttl_Set_def ttl_SetNX_def ttl_Delete_def ttl_Incr_def
  ttl_Expire_def ttl_Exists_def ttl_live_def ttl_left_def ttl_elapse_def ttl_put_def
  with_fault_def

interpretation ttl: redis ttl_api ttl_live ttl_left ttl_elapse
proof unfold_locales
  fix k s s' and r :: "string res"
  assume "op_Get ttl_api k s = (r, s')"
  then show "ttl_live s' = ttl_live s \<and>
      (\<forall>v. r = Inr v \<longrightarrow> v = (case ttl_live s k of None \<Rightarrow> [] | Some x \<Rightarrow> x))"
    and "ttl_left s' = ttl_left s"
    by (auto simp: ttl_defs split: list.splits fault.splits option.splits prod.splits)
next
  fix k s s' and b :: "bool res"
  assume "op_Exists ttl_api k s = (b, s')"
  then show "ttl_live s' = ttl_live s \<and> (\<forall>v. b = Inr v \<longrightarrow> v = (ttl_live s k \<noteq> None))"
    and "ttl_left s' = ttl_left s"
    by (auto simp: ttl_defs split: list.splits fault.splits option.splits prod.splits)
next
  fix t :: int and k x s s' and u :: "unit res"
  assume "op_Set ttl_api k x t s = (u, s')"
  then show "ttl_live s' = (ttl_live s)(k \<mapsto> x) \<or> (\<exists>e. u = Inl e) \<and> ttl_live s' = ttl_live s"
    by (auto simp: ttl_defs fun_eq_iff split: list.splits fault.splits)
next
  fix t :: int and k x s s' and b :: "bool res"
  assume "op_SetNX ttl_api k x t s = (b, s')"
  then show "case b of
        Inl e \<Rightarrow> ttl_live s' = ttl_live s \<or>
          ttl_live s k = None \<and> ttl_live s' = (ttl_live s)(k \<mapsto> x)
      | Inr True \<Rightarrow> ttl_live s k = None \<and> ttl_live s' = (ttl_live s)(k \<mapsto> x)
      | Inr False \<Rightarrow> ttl_live s k \<noteq> None \<and> ttl_live s' = ttl_live s"
    by (auto simp: ttl_defs fun_eq_iff split: list.splits fault.splits if_splits)
next
  fix k s s' and u :: "unit res"
  assume "op_Delete ttl_api k s = (u, s')"
  then show "ttl_live s' = (ttl_live s)(k := None) \<or> (\<exists>e. u = Inl e) \<and> ttl_live s' = ttl_live s"
    by (auto simp: ttl_defs fun_eq_iff split: list.splits fault.splits)
next
  fix k s s' and n :: "int res"
  assume "ttl_live s k = None" "op_Incr ttl_api k s = (n, s')"
  then show "n = Inr 1 \<and> ttl_live s' = (ttl_live s)(k \<mapsto> strconv_Itoa 1) \<or>
      (\<exists>e. n = Inl e) \<and>
      (ttl_live s' = ttl_live s \<or> ttl_live s' = (ttl_live s)(k \<mapsto> strconv_Itoa 1))"
    by (auto simp: ttl_defs fun_eq_iff split: list.splits fault.splits)
next
  fix k s s' i and n :: "int res"
  assume "ttl_live s k = Some (strconv_Itoa i)" "0 \<le> i" "i < 2 ^ 63 - 1"
    "op_Incr ttl_api k s = (n, s')"
  moreover from this have "strconv_ParseInt (strconv_Itoa i) = Inr i"
    by (simp add: ParseInt_Itoa)
  ultimately show "n = Inr (i + 1) \<and> ttl_live s' = (ttl_live s)(k \<mapsto> strconv_Itoa (i + 1)) \<or>
      (\<exists>e. n = Inl e) \<and>
      (ttl_live s' = ttl_live s \<or> ttl_live s' = (ttl_live s)(k \<mapsto> strconv_Itoa (i + 1)))"
    by (auto simp: ttl_defs fun_eq_iff split: list.splits fault.splits)
next
  fix k j s s' and n :: "int res"
  assume "op_Incr ttl_api k s = (n, s')" "j \<noteq> k"
  then show "ttl_live s' j = ttl_live s j"
    by (auto simp: ttl_defs split: list.splits fault.splits option.splits sum.splits)
next
  fix k s s' and n :: "int res"
  assume "op_Incr ttl_api k s = (n, s')"
  then show "ttl_left s' = ttl_left s"
    by (auto simp: ttl_defs fun_eq_iff split: list.splits fault.splits option.splits sum.splits)
next
  fix t :: int and k s s' and u :: "unit res"
  assume "op_Expire ttl_api k t s = (u, s')"
  then show "ttl_live s' = ttl_live s"
    by (auto simp: ttl_defs fun_eq_iff split: list.splits fault.splits option.splits)
next
  fix t :: int and k x s s' and u :: "unit res"
  assume "op_Set ttl_api k x t s = (u, s')"
  then show "ttl_live s' = (ttl_live s)(k \<mapsto> x) \<and> ttl_left s' = (ttl_left s)(k := Some t) \<or>
      (\<exists>e. u = Inl e) \<and> ttl_live s' = ttl_live s \<and> ttl_left s' = ttl_left s"
    by (auto simp: ttl_defs fun_eq_iff split: list.splits fault.splits)
next
  fix t :: int and k x s s' and b :: "bool res"
  assume "op_SetNX ttl_api k x t s = (b, s')"
  then show "ttl_live s k = None \<and> b \<noteq> Inr False \<and>
      ttl_live s' = (ttl_live s)(k \<mapsto> x) \<and> ttl_left s' = (ttl_left s)(k := Some t) \<or>
      b \<noteq> Inr True \<and> ttl_live s' = ttl_live s \<and> ttl_left s' = ttl_left s"
    by (auto simp: ttl_defs fun_eq_iff split: list.splits fault.splits if_splits)
next
  fix k s s' and u :: "unit res"
  assume "op_Delete ttl_api k s = (u, s')"
  then show "ttl_live s' = (ttl_live s)(k := None) \<and> ttl_left s' = (ttl_left s)(k := None) \<or>
      (\<exists>e. u = Inl e) \<and> ttl_live s' = ttl_live s \<and> ttl_left s' = ttl_left s"
    by (auto simp: ttl_defs fun_eq_iff split: list.splits fault.splits)
next
  fix k s
  assume "ttl_live s k = None"
  then show "ttl_left s k = None" by (simp add: ttl_defs)
next
  fix t :: int and k s s'
  assume "op_Expire ttl_api k t s = (Inr (), s')"
  then show "ttl_left s' = (if ttl_live s k = None then ttl_left s else (ttl_left s)(k := Some t))"
    by (auto simp: ttl_defs fun_eq_iff split: list.splits fault.splits option.splits)
next
  fix t :: int and k s s' e
  assume "op_Expire ttl_api k t s = (Inl e, s')"
  then show "ttl_left s' = ttl_left s \<or> ttl_live s k \<noteq> None \<and> ttl_left s' = (ttl_left s)(k := Some t)"
    by (auto simp: ttl_defs fun_eq_iff split: list.splits fault.splits option.splits)
next
  fix d :: int and s k
  show "ttl_live (ttl_elapse d s) k =
      (case ttl_left s k of None \<Rightarrow> ttl_live s k | Some t \<Rightarrow> if t \<le> d then None else ttl_live s k)"
    and "ttl_left (ttl_elapse d s) k =
      (case ttl_left s k of None \<Rightarrow> None | Some t \<Rightarrow> if t \<le> d then None else Some (t - d))"
    by (auto simp: ttl_defs split: option.splits)
qed


definition ttl_ok :: "ttl_store \<Rightarrow> bool" where
  "ttl_ok s \<longleftrightarrow> ts_faults s = []"

interpretation ttl: kv_reliable ttl_api ttl_live ttl_ok
proof unfold_locales
  fix k s
  assume "ttl_ok s" "ttl_live s k = None \<or>
    (\<exists>i. ttl_live s k = Some (strconv_Itoa i) \<and> 0 \<le> i \<and> i < 2 ^ 63 - 1)"
  moreover have "0 \<le> i \<Longrightarrow> i < 2 ^ 63 - 1 \<Longrightarrow> strconv_ParseInt (strconv_Itoa i) = Inr i" for i
    by (simp add: ParseInt_Itoa)
  ultimately show "\<exists>n s'. op_Incr ttl_api k s = (Inr n, s') \<and> ttl_ok s'"
    by (auto simp: ttl_defs ttl_ok_def split: option.splits)
qed (auto simp: ttl_defs ttl_ok_def split: option.splits)

end
