(* ===== verification/Interleave.thy ===== *)
theory Interleave
  imports TtlStore
begin

text \<open>
  Concurrent requests. A pool is a list of programs that share one world; a schedule says
  which program makes its next call, or how many seconds pass. Every interleaving of the
  requests at the granularity of single calls is the run of some schedule. The run returns
  the trace of Redis commands with their replies, so that facts about one key are proved once
  for all programs: \<open>SETNX\<close> is won once, \<open>INCR\<close> hands out each number once.
\<close>

datatype event =
    EvGet string "string res"
  | EvSet string string int "unit res"
  | EvSetNX string string int "bool res"
  | EvDelete string "unit res"
  | EvIncr string "int res"
  | EvExpire string int "unit res"
  | EvExists string "bool res"
  | EvOther

datatype sched = Turn nat | Elapse int

text \<open>The command and reply of a program's next call.\<close>

fun step_event :: "('r, 'h, 'c) env \<Rightarrow> 'a proc \<Rightarrow> ('r, 'h, 'c) world \<Rightarrow> event" where
  "step_event E (RGet x f) w = EvGet x (fst (op_Get (env_cache E) x (w_redis w)))"
| "step_event E (RSet x v t f) w = EvSet x v t (fst (op_Set (env_cache E) x v t (w_redis w)))"
| "step_event E (RSetNX x v t f) w =
     EvSetNX x v t (fst (op_SetNX (env_cache E) x v t (w_redis w)))"
| "step_event E (RDelete x f) w = EvDelete x (fst (op_Delete (env_cache E) x (w_redis w)))"
| "step_event E (RIncr x f) w = EvIncr x (fst (op_Incr (env_cache E) x (w_redis w)))"
| "step_event E (RExpire x t f) w =
     EvExpire x t (fst (op_Expire (env_cache E) x t (w_redis w)))"
| "step_event E (RExists x f) w = EvExists x (fst (op_Exists (env_cache E) x (w_redis w)))"
| "step_event E _ w = EvOther"

type_synonym trace = "(nat \<times> event) list"

fun run_pool ::
  "('r, 'h, 'c) env \<Rightarrow> (int \<Rightarrow> 'r \<Rightarrow> 'r) \<Rightarrow> sched list \<Rightarrow> 'a proc list \<Rightarrow> ('r, 'h, 'c) world
     \<Rightarrow> trace \<times> 'a proc list \<times> ('r, 'h, 'c) world" where
  "run_pool E el [] ps w = ([], ps, w)"
| "run_pool E el (Elapse d # ss) ps w = run_pool E el ss ps (w\<lparr>w_redis := el d (w_redis w)\<rparr>)"
| "run_pool E el (Turn i # ss) ps w =
     (if i < length ps then
        (case step_proc E (ps ! i) w of (p', w') \<Rightarrow>
           (case run_pool E el ss (ps[i := p']) w' of (tr, qs, w'') \<Rightarrow>
              ((i, step_event E (ps ! i) w) # tr, qs, w'')))
      else run_pool E el ss ps w)"

fun time_of :: "sched list \<Rightarrow> int" where
  "time_of [] = 0"
| "time_of (Elapse d # ss) = d + time_of ss"
| "time_of (Turn i # ss) = time_of ss"

fun good_sched :: "sched list \<Rightarrow> bool" where
  "good_sched [] = True"
| "good_sched (Elapse d # ss) = (0 \<le> d \<and> good_sched ss)"
| "good_sched (Turn i # ss) = good_sched ss"

lemma time_of_nonneg: "good_sched ss \<Longrightarrow> 0 \<le> time_of ss"
  by (induction ss rule: good_sched.induct) auto

text \<open>The events of one program of the pool.\<close>

definition events_of :: "nat \<Rightarrow> trace \<Rightarrow> event list" where
  "events_of i tr = map snd (filter (\<lambda>x. fst x = i) tr)"

lemma events_of_simps [simp]:
  "events_of i [] = []"
  "events_of i ((j, e) # tr) = (if j = i then e # events_of i tr else events_of i tr)"
  by (simp_all add: events_of_def)

section \<open>A program alone\<close>

text \<open>
  \<open>path p es q\<close>: program \<open>p\<close> can make the calls \<open>es\<close> (with those replies) and become \<open>q\<close>.
  It does not mention the environment: what a program does after a reply does not depend on
  where the reply came from.
\<close>

fun next_of :: "'a proc \<Rightarrow> event \<Rightarrow> 'a proc \<Rightarrow> bool" where
  "next_of (RGet x f) e q = (\<exists>r. e = EvGet x r \<and> q = f r)"
| "next_of (RSet x v t f) e q = (\<exists>r. e = EvSet x v t r \<and> q = f r)"
| "next_of (RSetNX x v t f) e q = (\<exists>r. e = EvSetNX x v t r \<and> q = f r)"
| "next_of (RDelete x f) e q = (\<exists>r. e = EvDelete x r \<and> q = f r)"
| "next_of (RIncr x f) e q = (\<exists>r. e = EvIncr x r \<and> q = f r)"
| "next_of (RExpire x t f) e q = (\<exists>r. e = EvExpire x t r \<and> q = f r)"
| "next_of (RExists x f) e q = (\<exists>r. e = EvExists x r \<and> q = f r)"
| "next_of (Ret a) e q = (e = EvOther \<and> q = Ret a)"
| "next_of (HttpDo x f) e q = (e = EvOther \<and> (\<exists>r. q = f r))"
| "next_of (DdbGetItem t x f) e q = (e = EvOther \<and> (\<exists>r. q = f r))"
| "next_of (DdbDescribe t f) e q = (e = EvOther \<and> (\<exists>r. q = f r))"
| "next_of (TimeNow f) e q = (e = EvOther \<and> (\<exists>r. q = f r))"
| "next_of (UuidNew f) e q = (e = EvOther \<and> (\<exists>r. q = f r))"
| "next_of (RandInt n f) e q = (e = EvOther \<and> (\<exists>r. q = f r))"
| "next_of (RandRead n f) e q = (e = EvOther \<and> (\<exists>r. q = f r))"
| "next_of (SvcLoad f) e q = (e = EvOther \<and> (\<exists>r. q = f r))"
| "next_of (SvcStore v f) e q = (e = EvOther \<and> (\<exists>r. q = f r))"
| "next_of (SemTryAcquire n f) e q = (e = EvOther \<and> (\<exists>r. q = f r))"
| "next_of (GoSendEmail x f) e q = (e = EvOther \<and> (\<exists>r. q = f r))"
| "next_of (JwksLoad f) e q = (e = EvOther \<and> (\<exists>r. q = f r))"
| "next_of (JwksStore c f) e q = (e = EvOther \<and> (\<exists>r. q = f r))"

inductive path :: "'a proc \<Rightarrow> event list \<Rightarrow> 'a proc \<Rightarrow> bool" where
  path_Nil: "path p [] p"
| path_Cons: "next_of p e q \<Longrightarrow> path q es r \<Longrightarrow> path p (e # es) r"

inductive_cases path_NilE [elim!]: "path p [] q"
inductive_cases path_ConsE: "path p (e # es) q"
inductive_simps path_simps: "path p [] q" "path p (e # es) q"

lemma step_next_of: "step_proc E p w = (p', w') \<Longrightarrow> next_of p (step_event E p w) p'"
  by (cases p) (auto simp del: split_paired_Ex split: prod.splits if_splits)

text \<open>In a pool, every program follows a path of its own whose calls are its events.\<close>

lemma run_pool_path:
  assumes "run_pool E el ss ps w = (tr, qs, w')" and "i < length ps"
  shows "length qs = length ps \<and> path (ps ! i) (events_of i tr) (qs ! i)"
  using assms
proof (induction ss arbitrary: ps w tr)
  case Nil
  then show ?case by (auto intro: path_Nil)
next
  case (Cons s ss)
  show ?case
  proof (cases s)
    case (Elapse d)
    then show ?thesis using Cons by simp
  next
    case (Turn j)
    show ?thesis
    proof (cases "j < length ps")
      case False
      then show ?thesis using Cons Turn by simp
    next
      case True
      obtain p' w1 where st: "step_proc E (ps ! j) w = (p', w1)" by fastforce
      obtain tr' where run: "run_pool E el ss (ps[j := p']) w1 = (tr', qs, w')"
        and tr: "tr = (j, step_event E (ps ! j) w) # tr'"
        using Cons.prems(1) Turn True st by (auto split: prod.splits)
      have ih: "length qs = length ps \<and> path (ps[j := p'] ! i) (events_of i tr') (qs ! i)"
        using Cons.IH [OF run] Cons.prems(2) by simp
      show ?thesis
      proof (cases "i = j")
        case True
        with ih Cons.prems(2) have "path p' (events_of i tr') (qs ! i)" by simp
        with True tr step_next_of [OF st] ih show ?thesis
          by (auto intro: path_Cons)
      next
        case False
        with ih tr show ?thesis by simp
      qed
    qed
  qed
qed


text \<open>
  Two ways to speak of all paths of a program without naming them. \<open>always P p\<close>: every call
  \<open>p\<close> can ever make satisfies \<open>P\<close>. \<open>needs P R p\<close>: no path ends in a result satisfying \<open>R\<close>
  unless one of its calls satisfied \<open>P\<close>.
\<close>

primrec always :: "(event \<Rightarrow> bool) \<Rightarrow> 'a proc \<Rightarrow> bool" where
  "always P (Ret a) = True"
| "always P (RGet x f) = (\<forall>r. P (EvGet x r) \<and> always P (f r))"
| "always P (RSet x v t f) = (\<forall>r. P (EvSet x v t r) \<and> always P (f r))"
| "always P (RSetNX x v t f) = (\<forall>r. P (EvSetNX x v t r) \<and> always P (f r))"
| "always P (RDelete x f) = (\<forall>r. P (EvDelete x r) \<and> always P (f r))"
| "always P (RIncr x f) = (\<forall>r. P (EvIncr x r) \<and> always P (f r))"
| "always P (RExpire x t f) = (\<forall>r. P (EvExpire x t r) \<and> always P (f r))"
| "always P (RExists x f) = (\<forall>r. P (EvExists x r) \<and> always P (f r))"
| "always P (HttpDo q f) = (\<forall>r. P EvOther \<and> always P (f r))"
| "always P (DdbGetItem t x f) = (\<forall>r. P EvOther \<and> always P (f r))"
| "always P (DdbDescribe t f) = (\<forall>r. P EvOther \<and> always P (f r))"
| "always P (TimeNow f) = (\<forall>r. P EvOther \<and> always P (f r))"
| "always P (UuidNew f) = (\<forall>r. P EvOther \<and> always P (f r))"
| "always P (RandInt n f) = (\<forall>r. P EvOther \<and> always P (f r))"
| "always P (RandRead n f) = (\<forall>r. P EvOther \<and> always P (f r))"
| "always P (SvcLoad f) = (\<forall>r. P EvOther \<and> always P (f r))"
| "always P (SvcStore v f) = (\<forall>r. P EvOther \<and> always P (f r))"
| "always P (SemTryAcquire n f) = (\<forall>r. P EvOther \<and> always P (f r))"
| "always P (GoSendEmail q f) = (\<forall>r. P EvOther \<and> always P (f r))"
| "always P (JwksLoad f) = (\<forall>r. P EvOther \<and> always P (f r))"
| "always P (JwksStore c f) = (\<forall>r. P EvOther \<and> always P (f r))"

primrec needs :: "(event \<Rightarrow> bool) \<Rightarrow> ('a \<Rightarrow> bool) \<Rightarrow> 'a proc \<Rightarrow> bool" where
  "needs P R (Ret a) = (\<not> R a)"
| "needs P R (RGet x f) = (\<forall>r. P (EvGet x r) \<or> needs P R (f r))"
| "needs P R (RSet x v t f) = (\<forall>r. P (EvSet x v t r) \<or> needs P R (f r))"
| "needs P R (RSetNX x v t f) = (\<forall>r. P (EvSetNX x v t r) \<or> needs P R (f r))"
| "needs P R (RDelete x f) = (\<forall>r. P (EvDelete x r) \<or> needs P R (f r))"
| "needs P R (RIncr x f) = (\<forall>r. P (EvIncr x r) \<or> needs P R (f r))"
| "needs P R (RExpire x t f) = (\<forall>r. P (EvExpire x t r) \<or> needs P R (f r))"
| "needs P R (RExists x f) = (\<forall>r. P (EvExists x r) \<or> needs P R (f r))"
| "needs P R (HttpDo q f) = (\<forall>r. P EvOther \<or> needs P R (f r))"
| "needs P R (DdbGetItem t x f) = (\<forall>r. P EvOther \<or> needs P R (f r))"
| "needs P R (DdbDescribe t f) = (\<forall>r. P EvOther \<or> needs P R (f r))"
| "needs P R (TimeNow f) = (\<forall>r. P EvOther \<or> needs P R (f r))"
| "needs P R (UuidNew f) = (\<forall>r. P EvOther \<or> needs P R (f r))"
| "needs P R (RandInt n f) = (\<forall>r. P EvOther \<or> needs P R (f r))"
| "needs P R (RandRead n f) = (\<forall>r. P EvOther \<or> needs P R (f r))"
| "needs P R (SvcLoad f) = (\<forall>r. P EvOther \<or> needs P R (f r))"
| "needs P R (SvcStore v f) = (\<forall>r. P EvOther \<or> needs P R (f r))"
| "needs P R (SemTryAcquire n f) = (\<forall>r. P EvOther \<or> needs P R (f r))"
| "needs P R (GoSendEmail q f) = (\<forall>r. P EvOther \<or> needs P R (f r))"
| "needs P R (JwksLoad f) = (\<forall>r. P EvOther \<or> needs P R (f r))"
| "needs P R (JwksStore c f) = (\<forall>r. P EvOther \<or> needs P R (f r))"

lemma always_next:
  "always P p \<Longrightarrow> P EvOther \<Longrightarrow> next_of p e q \<Longrightarrow> P e \<and> always P q"
  by (cases p) auto

lemma always_path:
  "path p es q \<Longrightarrow> always P p \<Longrightarrow> P EvOther \<Longrightarrow> list_all P es"
  by (induction rule: path.induct) (auto dest: always_next)

lemma needs_next:
  "needs P R p \<Longrightarrow> next_of p e q \<Longrightarrow> P e \<or> needs P R q"
  by (cases p) auto

lemma needs_path:
  "path p es q \<Longrightarrow> needs P R p \<Longrightarrow> q = Ret a \<Longrightarrow> R a \<Longrightarrow> \<exists>e \<in> set es. P e"
proof (induction rule: path.induct)
  case (path_Nil p)
  then show ?case by simp
next
  case (path_Cons p e q es r)
  from needs_next [OF path_Cons.prems(1) path_Cons.hyps(1)]
  show ?case
  proof
    assume "P e"
    then show ?thesis by simp
  next
    assume "needs P R q"
    then have "\<exists>e \<in> set es. P e" using path_Cons.IH path_Cons.prems(2,3) by blast
    then show ?thesis by auto
  qed
qed

lemma always_call: "always P p \<Longrightarrow> (\<And>a. always P (k a)) \<Longrightarrow> always P (call p k)"
  by (induction p) auto

text \<open>What every call of every program of a pool satisfies, the trace satisfies.\<close>

lemma run_pool_always:
  assumes run: "run_pool E el ss ps w = (tr, qs, w')"
    and "\<And>p. p \<in> set ps \<Longrightarrow> always P p" and "P EvOther"
  shows "list_all (\<lambda>x. P (snd x)) tr"
proof -
  have idx: "fst x < length ps" if "x \<in> set tr" for x
    using run that
    by (induction ss arbitrary: ps w tr rule: good_sched.induct)
       (fastforce split: prod.splits if_splits)+
  have "P (snd x)" if x: "x \<in> set tr" for x
  proof -
    have "snd x \<in> set (events_of (fst x) tr)" using x by (auto simp: events_of_def)
    moreover have "list_all P (events_of (fst x) tr)"
      using run_pool_path [OF run idx [OF x]] assms(2,3) idx [OF x]
      by (intro always_path [where p = "ps ! fst x"]) auto
    ultimately show ?thesis by (auto simp: list_all_iff)
  qed
  then show ?thesis by (auto simp: list_all_iff)
qed

lemma run_pool_needs:
  assumes run: "run_pool E el ss ps w = (tr, qs, w')" and "i < length ps"
    and "needs P R (ps ! i)" and "qs ! i = Ret a" and "R a"
  shows "\<exists>e. (i, e) \<in> set tr \<and> P e"
proof -
  have "path (ps ! i) (events_of i tr) (Ret a)"
    using run_pool_path [OF run assms(2)] assms(4) by simp
  from needs_path [OF this assms(3) refl assms(5)]
  show ?thesis by (auto simp: events_of_def)
qed

section \<open>SETNX is won once\<close>

definition wins_claim :: "string \<Rightarrow> event \<Rightarrow> bool" where
  "wins_claim K e \<longleftrightarrow> (\<exists>x t. e = EvSetNX K x t (Inr True))"

text \<open>
  Calls that leave a claim on \<open>K\<close> alone: no command but \<open>SETNX\<close> names \<open>K\<close>, and a claim on
  \<open>K\<close> lasts longer than \<open>b\<close> seconds. Expiry times are positive, as the program's are.
\<close>

fun claim_safe :: "string \<Rightarrow> int \<Rightarrow> event \<Rightarrow> bool" where
  "claim_safe K b (EvSet k x t r) = (k \<noteq> K \<and> 0 < t)"
| "claim_safe K b (EvSetNX k x t r) = (0 < t \<and> (k = K \<longrightarrow> b < t))"
| "claim_safe K b (EvDelete k r) = (k \<noteq> K)"
| "claim_safe K b (EvIncr k r) = (k \<noteq> K)"
| "claim_safe K b (EvExpire k t r) = (k \<noteq> K \<and> 0 < t)"
| "claim_safe K b _ = True"

lemma wins_claim_simps [simp]:
  "wins_claim K (EvSetNX k x t r) \<longleftrightarrow> k = K \<and> r = Inr True"
  "\<not> wins_claim K (EvGet k r0)" "\<not> wins_claim K (EvSet k x t r1)" "\<not> wins_claim K (EvDelete k r1)"
  "\<not> wins_claim K (EvIncr k r2)" "\<not> wins_claim K (EvExpire k t r1)" "\<not> wins_claim K (EvExists k r3)"
  "\<not> wins_claim K EvOther"
  by (auto simp: wins_claim_def)

context redis
begin

lemma claim_step:
  assumes "env_cache E = api" and "step_proc E p w = (p', w')"
    and "claim_safe K b (step_event E p w)"
  shows "(wins_claim K (step_event E p w) \<longrightarrow>
            live (w_redis w) K = None \<and> live (w_redis w') K \<noteq> None \<and>
            (\<exists>t. ttl (w_redis w') K = Some t \<and> b < t)) \<and>
         (live (w_redis w) K \<noteq> None \<longrightarrow>
            live (w_redis w') K \<noteq> None \<and> ttl (w_redis w') K = ttl (w_redis w) K)"
proof (cases p)
  case (RGet x f)
  then show ?thesis using assms get_law get_ttl by (auto split: prod.splits)
next
  case (RSet x v t f)
  then obtain u s where "op_Set api x v t (w_redis w) = (u, s)" by fastforce
  with set_ttl [OF _ this] show ?thesis using assms RSet by auto
next
  case (RSetNX x v t f)
  then obtain u s where "op_SetNX api x v t (w_redis w) = (u, s)" by fastforce
  with setnx_ttl [OF _ this] show ?thesis using assms RSetNX by auto
next
  case (RDelete x f)
  then obtain u s where "op_Delete api x (w_redis w) = (u, s)" by fastforce
  with delete_ttl [OF this] show ?thesis using assms RDelete by auto
next
  case (RIncr x f)
  then obtain u s where "op_Incr api x (w_redis w) = (u, s)" by fastforce
  with incr_ttl [OF this] incr_frame [OF this] show ?thesis using assms RIncr by auto
next
  case (RExpire x t f)
  then obtain u s where e: "op_Expire api x t (w_redis w) = (u, s)" by fastforce
  have "0 < t" "x \<noteq> K" using assms(3) RExpire by auto
  moreover have "ttl s K = ttl (w_redis w) K"
    using e \<open>x \<noteq> K\<close> expire_ttl [OF \<open>0 < t\<close>] expire_failed_ttl [OF \<open>0 < t\<close>]
    by (cases u) (fastforce split: if_splits)+
  ultimately show ?thesis using e assms RExpire expire_law [OF \<open>0 < t\<close> e] by auto
next
  case (RExists x f)
  then show ?thesis using assms exists_law exists_ttl by (auto split: prod.splits)
qed (use assms in \<open>auto split: prod.splits if_splits\<close>)

lemma no_claim_while_held:
  assumes "env_cache E = api" and "run_pool E elapse ss ps w = (tr, qs, w')"
    and "list_all (\<lambda>x. claim_safe K b (snd x)) tr" and "good_sched ss"
    and "live (w_redis w) K \<noteq> None"
    and "\<forall>t. ttl (w_redis w) K = Some t \<longrightarrow> time_of ss < t"
  shows "filter (\<lambda>x. wins_claim K (snd x)) tr = []"
  using assms(2-)
proof (induction ss arbitrary: ps w tr)
  case Nil
  then show ?case by auto
next
  case (Cons s ss)
  show ?case
  proof (cases s)
    case (Elapse d)
    let ?w = "w\<lparr>w_redis := elapse d (w_redis w)\<rparr>"
    have d: "0 \<le> d" "good_sched ss" "0 \<le> time_of ss" using Cons.prems Elapse time_of_nonneg by auto
    then have "live (w_redis ?w) K \<noteq> None"
      "\<forall>t. ttl (w_redis ?w) K = Some t \<longrightarrow> time_of ss < t"
      using Cons.prems(4,5) Elapse elapse_live [OF d(1), of "w_redis w" K] elapse_ttl [OF d(1), of "w_redis w" K]
      by (auto split: option.splits)
    then show ?thesis
      using Cons.IH [of ps ?w tr] Cons.prems(1,2) Elapse d by simp
  next
    case (Turn j)
    show ?thesis
    proof (cases "j < length ps")
      case False
      then show ?thesis using Cons Turn by simp
    next
      case True
      obtain p' w1 where st: "step_proc E (ps ! j) w = (p', w1)" by fastforce
      obtain tr' where run: "run_pool E elapse ss (ps[j := p']) w1 = (tr', qs, w')"
        and tr: "tr = (j, step_event E (ps ! j) w) # tr'"
        using Cons.prems(1) Turn True st by (auto split: prod.splits)
      have "\<not> wins_claim K (step_event E (ps ! j) w)"
        "live (w_redis w1) K \<noteq> None" "ttl (w_redis w1) K = ttl (w_redis w) K"
        using claim_step [OF assms(1) st, of K b] Cons.prems(2,4) tr by auto
      then show ?thesis using Cons.IH [OF run] Cons.prems Turn tr by simp
    qed
  qed
qed

lemma claim_unique:
  assumes "env_cache E = api" and "run_pool E elapse ss ps w = (tr, qs, w')"
    and "list_all (\<lambda>x. claim_safe K b (snd x)) tr" and "good_sched ss" and "time_of ss \<le> b"
  shows "length (filter (\<lambda>x. wins_claim K (snd x)) tr) \<le> 1"
  using assms(2-)
proof (induction ss arbitrary: ps w tr)
  case Nil
  then show ?case by auto
next
  case (Cons s ss)
  show ?case
  proof (cases s)
    case (Elapse d)
    then show ?thesis using Cons by simp
  next
    case (Turn j)
    show ?thesis
    proof (cases "j < length ps")
      case False
      then show ?thesis using Cons Turn by simp
    next
      case True
      obtain p' w1 where st: "step_proc E (ps ! j) w = (p', w1)" by fastforce
      obtain tr' where run: "run_pool E elapse ss (ps[j := p']) w1 = (tr', qs, w')"
        and tr: "tr = (j, step_event E (ps ! j) w) # tr'"
        using Cons.prems(1) Turn True st by (auto split: prod.splits)
      show ?thesis
      proof (cases "wins_claim K (step_event E (ps ! j) w)")
        case True
        then have "live (w_redis w1) K \<noteq> None" "\<exists>t. ttl (w_redis w1) K = Some t \<and> b < t"
          using claim_step [OF assms(1) st, of K b] Cons.prems(2) tr by auto
        then have "filter (\<lambda>x. wins_claim K (snd x)) tr' = []"
          using no_claim_while_held [OF assms(1) run, of K b] Cons.prems Turn tr by auto
        then show ?thesis using tr by simp
      next
        case False
        then show ?thesis using Cons.IH [OF run] Cons.prems Turn tr by simp
      qed
    qed
  qed
qed

end


section \<open>INCR hands out each number once\<close>

text \<open>The numbers handed out for \<open>K\<close>, with the program that got each.\<close>

fun number_of :: "string \<Rightarrow> event \<Rightarrow> int option" where
  "number_of K (EvIncr k (Inr n)) = (if k = K then Some n else None)"
| "number_of K _ = None"

fun numbers :: "string \<Rightarrow> trace \<Rightarrow> (nat \<times> int) list" where
  "numbers K [] = []"
| "numbers K ((i, e) # tr) =
     (case number_of K e of None \<Rightarrow> numbers K tr | Some n \<Rightarrow> (i, n) # numbers K tr)"

lemma number_of_Some: "number_of K e = Some n \<longleftrightarrow> e = EvIncr K (Inr n)"
  by (cases "(K, e)" rule: number_of.cases) auto

lemma numbers_mem: "(i, EvIncr K (Inr n)) \<in> set tr \<Longrightarrow> (i, n) \<in> set (numbers K tr)"
  by (induction K tr rule: numbers.induct) (auto split: option.split)

fun counter_safe :: "string \<Rightarrow> int \<Rightarrow> event \<Rightarrow> bool" where
  "counter_safe K b (EvSet k x t r) = (k \<noteq> K \<and> 0 < t)"
| "counter_safe K b (EvSetNX k x t r) = (k \<noteq> K \<and> 0 < t)"
| "counter_safe K b (EvDelete k r) = (k \<noteq> K)"
| "counter_safe K b (EvExpire k t r) = (0 < t \<and> (k = K \<longrightarrow> b < t))"
| "counter_safe K b _ = True"

text \<open>The counter stands at \<open>i\<close> (absent when 0), and does not expire for \<open>b\<close> seconds.\<close>

definition counter_at :: "(string \<Rightarrow> string option) \<Rightarrow> string \<Rightarrow> int \<Rightarrow> bool" where
  "counter_at L K i \<longleftrightarrow> 0 \<le> i \<and> L K = (if i = 0 then None else Some (strconv_Itoa i))"

definition lasting :: "(string \<Rightarrow> int option) \<Rightarrow> string \<Rightarrow> int \<Rightarrow> bool" where
  "lasting T K b \<longleftrightarrow> (\<forall>t. T K = Some t \<longrightarrow> b < t)"

context redis
begin

lemma incr_cases:
  assumes "counter_at (live s) K i" and "i < 2 ^ 63 - 1" and "op_Incr api K s = (n, s')"
  shows "n = Inr (i + 1) \<and> counter_at (live s') K (i + 1) \<or>
         (\<exists>e. n = Inl e) \<and> (counter_at (live s') K i \<or> counter_at (live s') K (i + 1))"
proof (cases "i = 0")
  case True
  then have "live s K = None" using assms(1) by (simp add: counter_at_def)
  from incr_fresh_law [OF this assms(3)] show ?thesis
    using True assms(1) by (auto simp: counter_at_def)
next
  case False
  then have "live s K = Some (strconv_Itoa i)" "0 \<le> i"
    using assms(1) by (auto simp: counter_at_def)
  from incr_law [OF this assms(2,3)] show ?thesis
    using False assms(1) by (auto simp: counter_at_def)
qed

lemma counter_step:
  assumes "env_cache E = api" and "step_proc E p w = (p', w')"
    and "counter_safe K b (step_event E p w)"
    and "counter_at (live (w_redis w)) K i" and "i < 2 ^ 63 - 1"
    and "lasting (ttl (w_redis w)) K b"
  shows "lasting (ttl (w_redis w')) K b \<and>
         (\<exists>j. counter_at (live (w_redis w')) K j \<and> i \<le> j \<and> j \<le> i + 1 \<and>
              (\<forall>n. step_event E p w = EvIncr K (Inr n) \<longrightarrow> n = i + 1 \<and> j = i + 1))"
proof -
  have same: ?thesis if "live (w_redis w') K = live (w_redis w) K"
    "lasting (ttl (w_redis w')) K b" "\<forall>n. step_event E p w \<noteq> EvIncr K (Inr n)"
    using that assms(4) by (auto simp: counter_at_def intro!: exI [of _ i])
  show ?thesis
  proof (cases p)
    case (RGet x f)
    then show ?thesis
      using assms(1,2,6) get_law get_ttl by (intro same) (auto split: prod.splits)
  next
    case (RSet x v t f)
    then obtain u s where "op_Set api x v t (w_redis w) = (u, s)" by fastforce
    with set_ttl [OF _ this] show ?thesis
      using assms(1-3,6) RSet by (intro same) (auto simp: lasting_def)
  next
    case (RSetNX x v t f)
    then obtain u s where "op_SetNX api x v t (w_redis w) = (u, s)" by fastforce
    with setnx_ttl [OF _ this] show ?thesis
      using assms(1-3,6) RSetNX by (intro same) (auto simp: lasting_def)
  next
    case (RDelete x f)
    then obtain u s where "op_Delete api x (w_redis w) = (u, s)" by fastforce
    with delete_ttl [OF this] show ?thesis
      using assms(1-3,6) RDelete by (intro same) (auto simp: lasting_def)
  next
    case (RIncr x f)
    obtain u s where op: "op_Incr api x (w_redis w) = (u, s)" by fastforce
    have w': "w_redis w' = s" and ev: "step_event E p w = EvIncr x u"
      using op RIncr assms(1,2) by auto
    have t: "lasting (ttl (w_redis w')) K b" using incr_ttl [OF op] w' assms(6) by simp
    show ?thesis
    proof (cases "x = K")
      case True
      from incr_cases [OF assms(4,5) op [unfolded True]] show ?thesis
        using t w' ev by auto
    next
      case False
      then show ?thesis using incr_frame [OF op, of K] w' ev t by (intro same) auto
    qed
  next
    case (RExpire x t f)
    obtain u s where op: "op_Expire api x t (w_redis w) = (u, s)" by fastforce
    have tp: "0 < t" and tb: "x = K \<longrightarrow> b < t" using assms(3) RExpire by auto
    have "ttl s = ttl (w_redis w) \<or> ttl s = (ttl (w_redis w))(x := Some t)"
    proof (cases u)
      case (Inl e)
      then show ?thesis using expire_failed_ttl [OF tp, of x _ e s] op by blast
    next
      case (Inr y)
      then show ?thesis using expire_ttl [OF tp, of x "w_redis w" s] op by (simp split: if_splits)
    qed
    then have "lasting (ttl s) K b" using tb assms(6) by (auto simp: lasting_def split: if_splits)
    moreover have "live s = live (w_redis w)" using expire_law [OF tp op] .
    ultimately show ?thesis using op RExpire assms(1,2) by (intro same) auto
  next
    case (RExists x f)
    then show ?thesis
      using assms(1,2,6) exists_law exists_ttl by (intro same) (auto split: prod.splits)
  qed (use assms(2,4,6) in \<open>auto intro!: exI [of _ i] split: prod.splits if_splits\<close>)
qed

lemma numbers_increase:
  assumes "env_cache E = api" and "run_pool E elapse ss ps w = (tr, qs, w')"
    and "list_all (\<lambda>x. counter_safe K b (snd x)) tr" and "good_sched ss"
    and "counter_at (live (w_redis w)) K i" and "i + int (length ss) < 2 ^ 63 - 1"
    and "lasting (ttl (w_redis w)) K (time_of ss)" and "time_of ss \<le> b"
  shows "sorted_wrt (\<lambda>x y. snd x < snd y) (numbers K tr) \<and> (\<forall>x \<in> set (numbers K tr). i < snd x)"
  using assms(2-)
proof (induction ss arbitrary: ps w tr i)
  case Nil
  then show ?case by auto
next
  case (Cons s ss)
  show ?case
  proof (cases s)
    case (Elapse d)
    let ?w = "w\<lparr>w_redis := elapse d (w_redis w)\<rparr>"
    have d: "0 \<le> d" "good_sched ss" "0 \<le> time_of ss" using Cons.prems Elapse time_of_nonneg by auto
    have "counter_at (live (w_redis ?w)) K i" "lasting (ttl (w_redis ?w)) K (time_of ss)"
      using Cons.prems(4,6) Elapse d
        elapse_live [OF d(1), of "w_redis w" K] elapse_ttl [OF d(1), of "w_redis w" K]
      by (auto simp: counter_at_def lasting_def split: option.splits)
    then show ?thesis
      using Cons.IH [of ps ?w tr i] Cons.prems Elapse d by simp
  next
    case (Turn j)
    show ?thesis
    proof (cases "j < length ps")
      case False
      then show ?thesis using Cons.IH [of ps w tr i] Cons.prems Turn by simp
    next
      case True
      obtain p' w1 where st: "step_proc E (ps ! j) w = (p', w1)" by fastforce
      obtain tr' where run: "run_pool E elapse ss (ps[j := p']) w1 = (tr', qs, w')"
        and tr: "tr = (j, step_event E (ps ! j) w) # tr'"
        using Cons.prems(1) Turn True st by (auto split: prod.splits)
      have safe: "counter_safe K b (step_event E (ps ! j) w)" using Cons.prems(2) tr by simp
      then have safe': "counter_safe K (time_of ss) (step_event E (ps ! j) w)"
        using Cons.prems(7) Turn by (cases "step_event E (ps ! j) w") auto
      obtain m where m: "lasting (ttl (w_redis w1)) K (time_of ss)"
        "counter_at (live (w_redis w1)) K m" "i \<le> m" "m \<le> i + 1"
        "\<forall>n. step_event E (ps ! j) w = EvIncr K (Inr n) \<longrightarrow> n = i + 1 \<and> m = i + 1"
        using counter_step [OF assms(1) st safe', of i] Cons.prems Turn by auto
      have ih: "sorted_wrt (\<lambda>x y. snd x < snd y) (numbers K tr')
          \<and> (\<forall>x \<in> set (numbers K tr'). m < snd x)"
        using Cons.IH [OF run, of m] Cons.prems Turn tr m by simp
      show ?thesis
      proof (cases "number_of K (step_event E (ps ! j) w)")
        case None
        then have "numbers K tr = numbers K tr'" using tr by simp
        then show ?thesis using ih m(3) by force
      next
        case (Some n)
        then have "step_event E (ps ! j) w = EvIncr K (Inr n)" by (simp add: number_of_Some)
        with m(5) have "n = i + 1" "m = i + 1" by auto
        moreover have "numbers K tr = (j, n) # numbers K tr'" using tr Some by simp
        ultimately show ?thesis using ih by auto
      qed
    qed
  qed
qed

text \<open>So no two programs of the pool are given the same number.\<close>

lemma numbers_distinct:
  assumes "env_cache E = api" and "run_pool E elapse ss ps w = (tr, qs, w')"
    and "list_all (\<lambda>x. counter_safe K b (snd x)) tr" and "good_sched ss"
    and "counter_at (live (w_redis w)) K i" and "i + int (length ss) < 2 ^ 63 - 1"
    and "lasting (ttl (w_redis w)) K (time_of ss)" and "time_of ss \<le> b"
    and "(j, EvIncr K (Inr n)) \<in> set tr" and "(k, EvIncr K (Inr n)) \<in> set tr"
  shows "j = k \<and> i < n"
proof -
  have inc: "sorted_wrt (\<lambda>x y. snd x < snd y) (numbers K tr)"
    and low: "\<forall>x \<in> set (numbers K tr). i < snd x"
    using numbers_increase [OF assms(1-8)] by auto
  have "distinct (map snd (numbers K tr))"
    using inc by (metis sorted_wrt_map strict_sorted_iff)
  then have "inj_on snd (set (numbers K tr))" by (simp add: distinct_map)
  then have "(j, n) = (k, n)"
    using numbers_mem assms(9,10) by (metis inj_onD snd_conv)
  then show ?thesis using low numbers_mem [OF assms(9)] by auto
qed

end

end
