(* ===== verification/CacheClient.thy ===== *)
theory CacheClient
  imports Interleave
begin

text \<open>
  The cache client itself (\<open>db/cache.go\<close>): its only field is the operations value, which may
  be nil, and the two operations that belong to no other component, \<open>Reachable\<close> and
  \<open>ClaimSession\<close>. The facts below are the shared reasoning about programs that use only the
  cache: they touch nothing of the world but the Redis state.
\<close>

record CacheClient =
  cc_api :: "unit option"

definition NewFromOperations :: "unit option \<Rightarrow> CacheClient" where
  "NewFromOperations ops = \<lparr>cc_api = ops\<rparr>"

definition not_initialized :: goerror where
  "not_initialized = Errorf ''cache client not initialized''"

definition Reachable :: "CacheClient \<Rightarrow> goerror option proc" where
  "Reachable c =
     (if cc_api c = None then Ret (Some (Errorf ''cache unavailable''))
      else RExists healthSentinel (\<lambda>r.
        case r of Inl err \<Rightarrow> Ret (Some (Wrapf ''failed to reach redis'' err))
        | Inr _ \<Rightarrow> Ret None))"

definition ClaimSession :: "CacheClient \<Rightarrow> string \<Rightarrow> bool res proc" where
  "ClaimSession c sessionID =
     (if cc_api c = None then Ret (Inl not_initialized)
      else RSetNX (sessionClaimKey @ sessionID) sentinel sessionClaimTTL (\<lambda>r.
        case r of Inl err \<Rightarrow> Ret (Inl (Wrapf ''failed to claim session'' err))
        | Inr claimed \<Rightarrow> Ret (Inr claimed)))"

section \<open>Programs that use only the cache\<close>

primrec redis_only :: "'a proc \<Rightarrow> bool" where
  "redis_only (Ret a) = True"
| "redis_only (RGet x f) = (\<forall>r. redis_only (f r))"
| "redis_only (RSet x v t f) = (\<forall>r. redis_only (f r))"
| "redis_only (RSetNX x v t f) = (\<forall>r. redis_only (f r))"
| "redis_only (RDelete x f) = (\<forall>r. redis_only (f r))"
| "redis_only (RIncr x f) = (\<forall>r. redis_only (f r))"
| "redis_only (RExpire x t f) = (\<forall>r. redis_only (f r))"
| "redis_only (RExists x f) = (\<forall>r. redis_only (f r))"
| "redis_only (HttpDo q f) = False"
| "redis_only (DdbGetItem t x f) = False"
| "redis_only (DdbDescribe t f) = False"
| "redis_only (TimeNow f) = False"
| "redis_only (UuidNew f) = False"
| "redis_only (RandInt n f) = False"
| "redis_only (RandRead n f) = False"
| "redis_only (SvcLoad f) = False"
| "redis_only (SvcStore v f) = False"
| "redis_only (SemTryAcquire n f) = False"
| "redis_only (GoSendEmail q f) = False"
| "redis_only (JwksLoad f) = False"
| "redis_only (JwksStore c f) = False"

lemma exec_redis_only:
  "redis_only p \<Longrightarrow> exec p E w = (a, w') \<Longrightarrow> w' = w\<lparr>w_redis := w_redis w'\<rparr>"
proof (induction p arbitrary: w)
  case (Ret x)
  then show ?case by simp
qed (fastforce split: prod.splits)+

section \<open>Programs that do not use the cache\<close>

primrec no_redis :: "'a proc \<Rightarrow> bool" where
  "no_redis (Ret a) = True"
| "no_redis (RGet x f) = False"
| "no_redis (RSet x v t f) = False"
| "no_redis (RSetNX x v t f) = False"
| "no_redis (RDelete x f) = False"
| "no_redis (RIncr x f) = False"
| "no_redis (RExpire x t f) = False"
| "no_redis (RExists x f) = False"
| "no_redis (HttpDo q f) = (\<forall>r. no_redis (f r))"
| "no_redis (DdbGetItem t x f) = (\<forall>r. no_redis (f r))"
| "no_redis (DdbDescribe t f) = (\<forall>r. no_redis (f r))"
| "no_redis (TimeNow f) = (\<forall>r. no_redis (f r))"
| "no_redis (UuidNew f) = (\<forall>r. no_redis (f r))"
| "no_redis (RandInt n f) = (\<forall>r. no_redis (f r))"
| "no_redis (RandRead n f) = (\<forall>r. no_redis (f r))"
| "no_redis (SvcLoad f) = (\<forall>r. no_redis (f r))"
| "no_redis (SvcStore v f) = (\<forall>r. no_redis (f r))"
| "no_redis (SemTryAcquire n f) = (\<forall>r. no_redis (f r))"
| "no_redis (GoSendEmail q f) = (\<forall>r. no_redis (f r))"
| "no_redis (JwksLoad f) = (\<forall>r. no_redis (f r))"
| "no_redis (JwksStore c f) = (\<forall>r. no_redis (f r))"

lemma exec_no_redis:
  "no_redis p \<Longrightarrow> exec p E w = (a, w') \<Longrightarrow> w_redis w' = w_redis w"
proof (induction p arbitrary: w)
  case (Ret x)
  then show ?case by simp
next
  case (SvcLoad f)
  from SvcLoad.prems show ?case
    by (auto simp del: split_paired_All dest!: SvcLoad.IH [OF rangeI, rotated])
next
  case (SvcStore v f)
  from SvcStore.prems show ?case
    by (auto split: if_splits dest!: SvcStore.IH [OF rangeI, rotated])
next
  case (SemTryAcquire n f)
  from SemTryAcquire.prems show ?case
    by (auto split: if_splits dest!: SemTryAcquire.IH [OF rangeI, rotated])
next
  case (GoSendEmail q f)
  from GoSendEmail.prems show ?case
    by (auto split: if_splits dest!: GoSendEmail.IH [OF rangeI, rotated])
next
  case (JwksLoad f)
  from JwksLoad.prems show ?case
    by (auto split: if_splits dest!: JwksLoad.IH [OF rangeI, rotated])
next
  case (JwksStore c f)
  from JwksStore.prems show ?case
    by (auto split: if_splits dest!: JwksStore.IH [OF rangeI, rotated])
qed (fastforce split: prod.splits)+

lemma no_redis_call: "no_redis p \<Longrightarrow> (\<And>a. no_redis (k a)) \<Longrightarrow> no_redis (call p k)"
  by (induction p) auto

end
