(* ===== verification/TokenStore.thy ===== *)
theory TokenStore
  imports CacheClient
begin

text \<open>
  \<open>db/tokens.go\<close>: revoked token IDs and revoked token families. A \<open>time.Duration\<close> is an
  integer number of nanoseconds; \<open>int64(d.Seconds())\<close> drops the fraction (exactly so for
  durations below 2^23 seconds, where the float keeps the nanoseconds; the program's tokens
  live at most 2592000 seconds).
\<close>

section \<open>The operations\<close>

definition second_ns :: int where
  "second_ns = 1000000000"

definition ttl_seconds :: "int \<Rightarrow> int" where
  "ttl_seconds remaining = max (remaining div second_ns) 1"

definition StoreRevoked :: "CacheClient \<Rightarrow> string \<Rightarrow> int \<Rightarrow> goerror option proc" where
  "StoreRevoked c jti remaining =
     (if jti = [] then Ret (Some (Errorf ''received empty JTI''))
      else if remaining \<le> 0 \<or> cc_api c = None then Ret None
      else RSet (revokedKey @ jti) sentinel (ttl_seconds remaining) (\<lambda>r.
        case r of Inl err \<Rightarrow> Ret (Some (Wrapf (''failed to store revoked JTI '' @ jti) err))
        | Inr _ \<Rightarrow> Ret None))"

definition IsRevoked :: "CacheClient \<Rightarrow> string \<Rightarrow> bool res proc" where
  "IsRevoked c jti =
     (if jti = [] \<or> cc_api c = None then Ret (Inr False)
      else RGet (revokedKey @ jti) (\<lambda>r.
        case r of Inl err \<Rightarrow> Ret (Inl (Wrapf (''failed to check revocation for JTI '' @ jti) err))
        | Inr val \<Rightarrow> Ret (Inr (val \<noteq> []))))"

definition StoreRevokedFamily :: "CacheClient \<Rightarrow> string \<Rightarrow> int \<Rightarrow> goerror option proc" where
  "StoreRevokedFamily c familyID ttl =
     (if familyID = [] then Ret (Some (Errorf ''received empty family ID''))
      else if ttl \<le> 0 \<or> cc_api c = None then Ret None
      else RSet (revokedFamilyKey @ familyID) sentinel (ttl_seconds ttl) (\<lambda>r.
        case r of Inl err \<Rightarrow> Ret (Some (Wrapf (''failed to store revoked family '' @ familyID) err))
        | Inr _ \<Rightarrow> Ret None))"

definition IsFamilyRevoked :: "CacheClient \<Rightarrow> string \<Rightarrow> bool res proc" where
  "IsFamilyRevoked c familyID =
     (if familyID = [] \<or> cc_api c = None then Ret (Inr False)
      else RGet (revokedFamilyKey @ familyID) (\<lambda>r.
        case r of Inl err \<Rightarrow> Ret (Inl (Wrapf (''failed to check family revocation for '' @ familyID) err))
        | Inr val \<Rightarrow> Ret (Inr (val \<noteq> []))))"

lemma ttl_seconds_pos [simp]: "0 < ttl_seconds r"
  by (simp add: ttl_seconds_def)

lemma sentinel_nonempty [simp]: "sentinel \<noteq> []"
  by (simp add: sentinel_def)

lemma token_redis_only:
  "redis_only (StoreRevoked c jti r)" "redis_only (IsRevoked c jti)"
  "redis_only (StoreRevokedFamily c fam r)" "redis_only (IsFamilyRevoked c fam)"
  by (auto simp: StoreRevoked_def IsRevoked_def StoreRevokedFamily_def IsFamilyRevoked_def
      split: sum.split)

section \<open>The abstract set of revoked IDs\<close>

text \<open>What a store says is revoked: the keys with a value that is not empty.\<close>

definition revoked_in :: "(string \<Rightarrow> string option) \<Rightarrow> string \<Rightarrow> bool" where
  "revoked_in L jti \<longleftrightarrow> jti \<noteq> [] \<and> (\<exists>v. L (revokedKey @ jti) = Some v \<and> v \<noteq> [])"

definition family_revoked_in :: "(string \<Rightarrow> string option) \<Rightarrow> string \<Rightarrow> bool" where
  "family_revoked_in L fam \<longleftrightarrow> fam \<noteq> [] \<and> (\<exists>v. L (revokedFamilyKey @ fam) = Some v \<and> v \<noteq> [])"

lemma revoked_in_upd [simp]:
  "revoked_in (L(revokedKey @ j \<mapsto> sentinel)) k \<longleftrightarrow> k \<noteq> [] \<and> (k = j \<or> revoked_in L k)"
  "revoked_in (L(revokedFamilyKey @ f \<mapsto> x)) k \<longleftrightarrow> revoked_in L k"
  "family_revoked_in (L(revokedFamilyKey @ f \<mapsto> sentinel)) g \<longleftrightarrow> g \<noteq> [] \<and> (g = f \<or> family_revoked_in L g)"
  "family_revoked_in (L(revokedKey @ j \<mapsto> x)) g \<longleftrightarrow> family_revoked_in L g"
  by (auto simp: revoked_in_def family_revoked_in_def)

context kv_store
begin

text \<open>A check that answers, answers what the store says.\<close>

lemma IsRevoked_exec:
  assumes "env_cache E = api" and "cc_api c \<noteq> None" and "exec (IsRevoked c jti) E w = (r, w')"
  shows "live (w_redis w') = live (w_redis w) \<and> (\<forall>b. r = Inr b \<longrightarrow> b = revoked_in (live (w_redis w)) jti)"
proof (cases "jti = []")
  case True
  then show ?thesis using assms(3) by (auto simp: IsRevoked_def revoked_in_def)
next
  case False
  obtain g s where g: "op_Get (env_cache E) (revokedKey @ jti) (w_redis w) = (g, s)" by fastforce
  from get_law [OF g [unfolded assms(1)]] show ?thesis
    using assms(2,3) g False
    by (auto simp: IsRevoked_def revoked_in_def split: sum.splits option.splits)
qed

lemma IsFamilyRevoked_exec:
  assumes "env_cache E = api" and "cc_api c \<noteq> None" and "exec (IsFamilyRevoked c f) E w = (r, w')"
  shows "live (w_redis w') = live (w_redis w) \<and>
    (\<forall>b. r = Inr b \<longrightarrow> b = family_revoked_in (live (w_redis w)) f)"
proof (cases "f = []")
  case True
  then show ?thesis using assms(3) by (auto simp: IsFamilyRevoked_def family_revoked_in_def)
next
  case False
  obtain g s where g: "op_Get (env_cache E) (revokedFamilyKey @ f) (w_redis w) = (g, s)" by fastforce
  from get_law [OF g [unfolded assms(1)]] show ?thesis
    using assms(2,3) g False
    by (auto simp: IsFamilyRevoked_def family_revoked_in_def split: sum.splits option.splits)
qed

lemma StoreRevoked_cases:
  assumes "env_cache E = api" and "exec (StoreRevoked c jti r) E w = (x, w')"
  shows "live (w_redis w') = live (w_redis w) \<or>
    live (w_redis w') = (live (w_redis w))(revokedKey @ jti \<mapsto> sentinel)"
proof (cases "jti = [] \<or> r \<le> 0 \<or> cc_api c = None")
  case True
  then show ?thesis using assms(2) by (auto simp: StoreRevoked_def split: if_splits)
next
  case False
  obtain u s where u: "op_Set (env_cache E) (revokedKey @ jti) sentinel (ttl_seconds r) (w_redis w) = (u, s)"
    by fastforce
  from set_law [OF ttl_seconds_pos u [unfolded assms(1)]] show ?thesis
    using assms(2) u False by (auto simp: StoreRevoked_def split: sum.splits)
qed

end

context kv_reliable
begin

text \<open>On a store that answers, the four operations are the operations of a pair of sets.\<close>

lemma IsRevoked_eq:
  assumes "env_cache E = api" and "cc_api c \<noteq> None" and "ok (w_redis w)"
  shows "\<exists>s. exec (IsRevoked c jti) E w = (Inr (revoked_in (live (w_redis w)) jti), w\<lparr>w_redis := s\<rparr>)
    \<and> ok s \<and> live s = live (w_redis w)"
proof (cases "jti \<noteq> []")
  case True
  then show ?thesis using get_eq [OF assms(3), of "revokedKey @ jti"] assms by (auto simp: IsRevoked_def revoked_in_def split: option.splits)
next
  case False
  then show ?thesis using assms by (auto simp: IsRevoked_def revoked_in_def intro!: exI [of _ "w_redis w"])
qed

lemma IsFamilyRevoked_eq:
  assumes "env_cache E = api" and "cc_api c \<noteq> None" and "ok (w_redis w)"
  shows "\<exists>s. exec (IsFamilyRevoked c f) E w
      = (Inr (family_revoked_in (live (w_redis w)) f), w\<lparr>w_redis := s\<rparr>)
    \<and> ok s \<and> live s = live (w_redis w)"
proof (cases "f \<noteq> []")
  case True
  then show ?thesis using get_eq [OF assms(3), of "revokedFamilyKey @ f"] assms by (auto simp: IsFamilyRevoked_def family_revoked_in_def split: option.splits)
next
  case False
  then show ?thesis using assms by (auto simp: IsFamilyRevoked_def family_revoked_in_def intro!: exI [of _ "w_redis w"])
qed

lemma StoreRevoked_eq:
  assumes "env_cache E = api" and "cc_api c \<noteq> None" and "ok (w_redis w)" and "jti \<noteq> []"
  shows "\<exists>s. exec (StoreRevoked c jti r) E w = (None, w\<lparr>w_redis := s\<rparr>) \<and> ok s \<and>
    live s = (if 0 < r then (live (w_redis w))(revokedKey @ jti \<mapsto> sentinel) else live (w_redis w))"
proof (cases "0 < r")
  case True
  then show ?thesis using set_eq [OF assms(3) ttl_seconds_pos [of r], of "revokedKey @ jti" sentinel] assms by (auto simp: StoreRevoked_def)
next
  case False
  then show ?thesis using assms by (auto simp: StoreRevoked_def intro!: exI [of _ "w_redis w"])
qed

lemma StoreRevokedFamily_eq:
  assumes "env_cache E = api" and "cc_api c \<noteq> None" and "ok (w_redis w)" and "f \<noteq> []"
  shows "\<exists>s. exec (StoreRevokedFamily c f r) E w = (None, w\<lparr>w_redis := s\<rparr>) \<and> ok s \<and>
    live s = (if 0 < r then (live (w_redis w))(revokedFamilyKey @ f \<mapsto> sentinel) else live (w_redis w))"
proof (cases "0 < r")
  case True
  then show ?thesis using set_eq [OF assms(3) ttl_seconds_pos [of r], of "revokedFamilyKey @ f" sentinel] assms by (auto simp: StoreRevokedFamily_def)
next
  case False
  then show ?thesis using assms by (auto simp: StoreRevokedFamily_def intro!: exI [of _ "w_redis w"])
qed

end

section \<open>How long a revocation lasts\<close>

context redis
begin

lemma StoreRevoked_lasts:
  assumes "env_cache E = api" and "cc_api c \<noteq> None" and "0 < remaining" and "0 \<le> d"
    and "exec (StoreRevoked c jti remaining) E w = (None, w')"
  shows "revoked_in (live (elapse d (w_redis w'))) jti \<longleftrightarrow> d < ttl_seconds remaining"
proof -
  have jti: "jti \<noteq> []" using assms(5) by (auto simp: StoreRevoked_def)
  obtain u s where s: "op_Set (env_cache E) (revokedKey @ jti) sentinel (ttl_seconds remaining) (w_redis w)
      = (u, s)" by fastforce
  then have "w' = w\<lparr>w_redis := s\<rparr>" "u = Inr ()"
    using assms(2,3,5) jti by (auto simp: StoreRevoked_def split: sum.splits)
  then show ?thesis
    using set_ttl [OF ttl_seconds_pos s [unfolded assms(1)]] jti
      elapse_live [OF assms(4), of s "revokedKey @ jti"]
    by (auto simp: revoked_in_def)
qed

lemma StoreRevokedFamily_lasts:
  assumes "env_cache E = api" and "cc_api c \<noteq> None" and "0 < remaining" and "0 \<le> d"
    and "exec (StoreRevokedFamily c fam remaining) E w = (None, w')"
  shows "family_revoked_in (live (elapse d (w_redis w'))) fam \<longleftrightarrow> d < ttl_seconds remaining"
proof -
  have fam: "fam \<noteq> []" using assms(5) by (auto simp: StoreRevokedFamily_def)
  obtain u s where s: "op_Set (env_cache E) (revokedFamilyKey @ fam) sentinel (ttl_seconds remaining) (w_redis w)
      = (u, s)" by fastforce
  then have "w' = w\<lparr>w_redis := s\<rparr>" "u = Inr ()"
    using assms(2,3,5) fam by (auto simp: StoreRevokedFamily_def split: sum.splits)
  then show ?thesis
    using set_ttl [OF ttl_seconds_pos s [unfolded assms(1)]] fam
      elapse_live [OF assms(4), of s "revokedFamilyKey @ fam"]
    by (auto simp: family_revoked_in_def)
qed

end

lemma ttl_seconds_bounds:
  "0 < remaining \<Longrightarrow> ttl_seconds remaining * second_ns \<le> max remaining second_ns \<and>
     remaining - second_ns < ttl_seconds remaining * second_ns"
  using pos_mod_bound [of second_ns remaining] pos_mod_sign [of second_ns remaining]
    div_mult_mod_eq [of remaining second_ns]
  by (auto simp: ttl_seconds_def second_ns_def max_def)

end
