(* ===== verification/AuthCodeStore.thy ===== *)
theory AuthCodeStore
  imports CacheClient GoJson
begin

text \<open>
  \<open>db/authcode.go\<close>: authorization codes, stored for ten minutes as JSON text under
  \<open>authcode:<code>\<close>. What is read back is what was stored.
\<close>

definition ErrAuthCodeNotFound :: goerror where
  "ErrAuthCodeNotFound = Sentinel ''ErrAuthCodeNotFound''"

definition authCodeKeyPrefix :: string where "authCodeKeyPrefix = ''authcode:''"
definition authCodeTTLSec :: int where "authCodeTTLSec = 600"

record AuthCodeEntry =
  ac_ClientID :: string
  ac_RedirectURI :: string
  ac_Scope :: string
  ac_UserID :: string
  ac_CodeChallenge :: string

definition AuthCodeEntry_to_json :: "AuthCodeEntry \<Rightarrow> json" where
  "AuthCodeEntry_to_json e = JObj (
     [(''client_id'', JStr (ac_ClientID e)), (''redirect_uri'', JStr (ac_RedirectURI e))]
     @ omit_empty ''scope'' (ac_Scope e)
     @ [(''user_id'', JStr (ac_UserID e)), (''code_challenge'', JStr (ac_CodeChallenge e))])"

definition AuthCodeEntry_of_json :: "json \<Rightarrow> AuthCodeEntry res" where
  "AuthCodeEntry_of_json v0 =
     and_then (struct_value v0) (\<lambda>v.
     and_then (field_string ''client_id'' v) (\<lambda>c.
     and_then (field_string ''redirect_uri'' v) (\<lambda>r.
     and_then (field_string ''scope'' v) (\<lambda>s.
     and_then (field_string ''user_id'' v) (\<lambda>u.
     and_then (field_string ''code_challenge'' v) (\<lambda>h.
       Inr \<lparr>ac_ClientID = c, ac_RedirectURI = r, ac_Scope = s, ac_UserID = u,
            ac_CodeChallenge = h\<rparr>))))))"

definition StoreAuthCode :: "CacheClient \<Rightarrow> string \<Rightarrow> AuthCodeEntry \<Rightarrow> bool res proc" where
  "StoreAuthCode c code entry =
     (if cc_api c = None then Ret (Inl not_initialized)
      else
        (let raw = print_value (AuthCodeEntry_to_json entry)
         in RSetNX (authCodeKeyPrefix @ code) raw authCodeTTLSec (\<lambda>r.
              case r of
                Inl err \<Rightarrow> Ret (Inl (Wrapf ''failed to store authorization code'' err))
              | Inr claimed \<Rightarrow> Ret (Inr claimed))))"

definition GetAuthCode :: "CacheClient \<Rightarrow> string \<Rightarrow> AuthCodeEntry res proc" where
  "GetAuthCode c code =
     (if cc_api c = None then Ret (Inl not_initialized)
      else RGet (authCodeKeyPrefix @ code) (\<lambda>r.
        case r of
          Inl err \<Rightarrow> Ret (Inl (Wrapf ''failed to look up authorization code'' err))
        | Inr raw \<Rightarrow>
            if raw = [] then Ret (Inl ErrAuthCodeNotFound)
            else (case and_then (Unmarshal raw) AuthCodeEntry_of_json of
                    Inl err \<Rightarrow> Ret (Inl (Wrapf ''failed to unmarshal authorization code entry'' err))
                  | Inr entry \<Rightarrow> Ret (Inr entry))))"

definition DeleteAuthCode :: "CacheClient \<Rightarrow> string \<Rightarrow> goerror option proc" where
  "DeleteAuthCode c code =
     (if cc_api c = None then Ret (Some not_initialized)
      else RDelete (authCodeKeyPrefix @ code) (\<lambda>r.
        case r of
          Inl err \<Rightarrow> Ret (Some (Wrapf ''failed to delete authorization code'' err))
        | Inr _ \<Rightarrow> Ret None))"

lemma authcode_redis_only:
  "redis_only (StoreAuthCode c code e)" "redis_only (GetAuthCode c code)"
  "redis_only (DeleteAuthCode c code)"
  by (auto simp: StoreAuthCode_def GetAuthCode_def DeleteAuthCode_def Let_def split: sum.split)

section \<open>The text of an entry\<close>

text \<open>Entries that are UTF-8 text, as the query of a request and the registry provide them.\<close>

definition utf8_entry :: "AuthCodeEntry \<Rightarrow> bool" where
  "utf8_entry e \<longleftrightarrow> to_valid (ac_ClientID e) = ac_ClientID e \<and>
     to_valid (ac_RedirectURI e) = ac_RedirectURI e \<and> to_valid (ac_Scope e) = ac_Scope e \<and>
     to_valid (ac_UserID e) = ac_UserID e \<and> to_valid (ac_CodeChallenge e) = ac_CodeChallenge e"

lemma entry_fields:
  "AuthCodeEntry_of_json (AuthCodeEntry_to_json e) = Inr e"
  by (simp add: AuthCodeEntry_of_json_def AuthCodeEntry_to_json_def struct_value_def field_string_def
      members_of_def omit_empty_def fold_name_lower)

lemma entry_json_ok: "utf8_entry e \<Longrightarrow> json_ok maxNestingDepth (AuthCodeEntry_to_json e)"
  by (auto simp: AuthCodeEntry_to_json_def utf8_entry_def maxNestingDepth_def omit_empty_def
      to_valid_ascii)

lemma entry_text: "utf8_entry e \<Longrightarrow>
    and_then (Unmarshal (print_value (AuthCodeEntry_to_json e))) AuthCodeEntry_of_json = Inr e"
  by (simp add: Unmarshal_print entry_json_ok entry_fields)

lemma entry_text_nonempty: "print_value (AuthCodeEntry_to_json e) \<noteq> []"
    "[] \<noteq> print_value (AuthCodeEntry_to_json e)"
  by (simp_all add: AuthCodeEntry_to_json_def)

section \<open>On a store\<close>

lemma authcode_ttl_pos: "0 < authCodeTTLSec"
  by (simp add: authCodeTTLSec_def)

context kv_store
begin

text \<open>What \<open>GetAuthCode\<close> returns is what is stored.\<close>

lemma GetAuthCode_value:
  assumes "env_cache E = api" and "exec (GetAuthCode c code) E w = (Inr e, w')"
  shows "live (w_redis w') = live (w_redis w) \<and> cc_api c \<noteq> None \<and>
    (\<exists>raw. live (w_redis w) (authCodeKeyPrefix @ code) = Some raw \<and>
       and_then (Unmarshal raw) AuthCodeEntry_of_json = Inr e)"
proof -
  obtain g s where g: "op_Get (env_cache E) (authCodeKeyPrefix @ code) (w_redis w) = (g, s)" by fastforce
  from get_law [OF g [unfolded assms(1)]] show ?thesis
    using assms(2) g
    by (auto simp: GetAuthCode_def split: if_splits sum.splits option.splits)
qed

lemma StoreAuthCode_cases:
  assumes "env_cache E = api" and "exec (StoreAuthCode c code e) E w = (r, w')"
  shows "live (w_redis w') = live (w_redis w) \<or>
    live (w_redis w) (authCodeKeyPrefix @ code) = None \<and>
    live (w_redis w') = (live (w_redis w))(authCodeKeyPrefix @ code \<mapsto> print_value (AuthCodeEntry_to_json e))"
proof -
  obtain b s where b: "op_SetNX (env_cache E) (authCodeKeyPrefix @ code) (print_value (AuthCodeEntry_to_json e))
      authCodeTTLSec (w_redis w) = (b, s)" by fastforce
  from setnx_law [OF authcode_ttl_pos b [unfolded assms(1)]] show ?thesis
    using assms(2) b by (auto simp: StoreAuthCode_def Let_def split: if_splits sum.splits bool.splits)
qed

end

context kv_reliable
begin

lemma StoreAuthCode_exec:
  assumes "env_cache E = api" and "cc_api c \<noteq> None" and "ok (w_redis w)"
  shows "\<exists>s. exec (StoreAuthCode c code e) E w
      = (Inr (live (w_redis w) (authCodeKeyPrefix @ code) = None), w\<lparr>w_redis := s\<rparr>) \<and> ok s \<and>
    live s = (if live (w_redis w) (authCodeKeyPrefix @ code) = None
      then (live (w_redis w))(authCodeKeyPrefix @ code \<mapsto> print_value (AuthCodeEntry_to_json e))
      else live (w_redis w))"
  using setnx_eq [OF assms(3) authcode_ttl_pos, of "authCodeKeyPrefix @ code"
      "print_value (AuthCodeEntry_to_json e)"] assms
  by (auto simp: StoreAuthCode_def Let_def)

lemma GetAuthCode_exec:
  assumes "env_cache E = api" and "cc_api c \<noteq> None" and "ok (w_redis w)"
  shows "\<exists>r s. exec (GetAuthCode c code) E w = (r, w\<lparr>w_redis := s\<rparr>) \<and> ok s \<and>
    live s = live (w_redis w) \<and>
    (live (w_redis w) (authCodeKeyPrefix @ code) = None \<longrightarrow> r = Inl ErrAuthCodeNotFound) \<and>
    (\<forall>e. utf8_entry e \<and> live (w_redis w) (authCodeKeyPrefix @ code)
        = Some (print_value (AuthCodeEntry_to_json e)) \<longrightarrow> r = Inr e)"
proof -
  obtain s where s: "op_Get api (authCodeKeyPrefix @ code) (w_redis w)
      = (Inr (case live (w_redis w) (authCodeKeyPrefix @ code) of None \<Rightarrow> [] | Some x \<Rightarrow> x), s)"
    "ok s" "live s = live (w_redis w)" using get_eq [OF assms(3)] by blast
  show ?thesis
  proof (cases "live (w_redis w) (authCodeKeyPrefix @ code)")
    case None
    then show ?thesis using s assms(1,2) by (auto simp: GetAuthCode_def)
  next
    case (Some raw)
    then have "\<exists>r. exec (GetAuthCode c code) E w = (r, w\<lparr>w_redis := s\<rparr>) \<and>
      (\<forall>e. utf8_entry e \<and> raw = print_value (AuthCodeEntry_to_json e) \<longrightarrow> r = Inr e)"
      using s assms(1,2)
      by (cases "raw = []"; cases "and_then (Unmarshal raw) AuthCodeEntry_of_json")
        (auto simp: GetAuthCode_def entry_text entry_text_nonempty)
    then show ?thesis using s(2,3) Some by auto
  qed
qed

lemma DeleteAuthCode_exec:
  assumes "env_cache E = api" and "cc_api c \<noteq> None" and "ok (w_redis w)"
  shows "\<exists>s. exec (DeleteAuthCode c code) E w = (None, w\<lparr>w_redis := s\<rparr>) \<and> ok s \<and>
    live s = (live (w_redis w))(authCodeKeyPrefix @ code := None)"
  using delete_eq [OF assms(3), of "authCodeKeyPrefix @ code"] assms
  by (auto simp: DeleteAuthCode_def)

end

end
