(* ===== verification/OtpStore.thy ===== *)
theory OtpStore
  imports CacheClient GoCrypto
begin

text \<open>
  \<open>db/otp.go\<close>: generating, verifying and rate-limiting one-time codes on top of the Redis
  commands. The abstract view of one address is the pair of keys \<open>otp:<email>\<close> (the pending
  code) and \<open>otp:redeemed:<email>\<close> (the redemption claim); \<open>otp_verdict\<close> says what a
  verification must answer on that view, and \<open>VerifyOTP\<close> refines it.
\<close>

section \<open>The operations\<close>

definition ErrOTPNotFound :: goerror where "ErrOTPNotFound = Sentinel ''ErrOTPNotFound''"
definition ErrOTPInvalid :: goerror where "ErrOTPInvalid = Sentinel ''ErrOTPInvalid''"
definition ErrOTPCooldown :: goerror where "ErrOTPCooldown = Sentinel ''ErrOTPCooldown''"
definition ErrOTPAlreadyRedeemed :: goerror where
  "ErrOTPAlreadyRedeemed = Sentinel ''ErrOTPAlreadyRedeemed''"

lemmas otp_errors = ErrOTPNotFound_def ErrOTPInvalid_def ErrOTPCooldown_def
  ErrOTPAlreadyRedeemed_def

definition generateOTPCode :: "string res proc" where
  "generateOTPCode = RandInt otpMax (\<lambda>r.
     case r of Inl err \<Rightarrow> Ret (Inl err)
     | Inr n \<Rightarrow> Ret (Inr (sprintf_06d n)))"

definition GenerateAndStoreOTP :: "CacheClient \<Rightarrow> string \<Rightarrow> string res proc" where
  "GenerateAndStoreOTP c email =
     (if cc_api c = None then Ret (Inl not_initialized)
      else RSetNX (otpCooldownKey @ email) sentinel otpCooldownTTL (\<lambda>claimed.
        case claimed of
          Inl err \<Rightarrow> Ret (Inl (Wrapf ''failed to claim OTP cooldown'' err))
        | Inr False \<Rightarrow> Ret (Inl ErrOTPCooldown)
        | Inr True \<Rightarrow>
            RDelete (otpRedeemedKey @ email) (\<lambda>_.
            call generateOTPCode (\<lambda>code.
              case code of
                Inl err \<Rightarrow> Ret (Inl (Wrapf ''failed to generate OTP code'' err))
              | Inr code \<Rightarrow>
                  RSet (otpKeyPrefix @ email) code otpTTLSec (\<lambda>r.
                    case r of
                      Inl err \<Rightarrow> Ret (Inl (Wrapf ''failed to store OTP'' err))
                    | Inr _ \<Rightarrow> Ret (Inr code))))))"

definition VerifyOTP :: "CacheClient \<Rightarrow> string \<Rightarrow> string \<Rightarrow> goerror option proc" where
  "VerifyOTP c email code =
     (if cc_api c = None then Ret (Some not_initialized)
      else RGet (otpKeyPrefix @ email) (\<lambda>r.
        case r of
          Inl err \<Rightarrow> Ret (Some (Wrapf ''failed to look up OTP'' err))
        | Inr stored \<Rightarrow>
            if stored = [] then Ret (Some ErrOTPNotFound)
            else if subtle_ConstantTimeCompare stored code \<noteq> 1 then Ret (Some ErrOTPInvalid)
            else RSetNX (otpRedeemedKey @ email) sentinel otpRedeemedTTL (\<lambda>claimed.
              case claimed of
                Inl err \<Rightarrow> Ret (Some (Wrapf ''failed to claim OTP redemption'' err))
              | Inr False \<Rightarrow> Ret (Some ErrOTPAlreadyRedeemed)
              | Inr True \<Rightarrow>
                  RDelete (otpKeyPrefix @ email) (\<lambda>r.
                    case r of
                      Inl err \<Rightarrow> Ret (Some (Wrapf ''failed to delete OTP after use'' err))
                    | Inr _ \<Rightarrow> Ret None))))"

definition GetOTPAttempts :: "CacheClient \<Rightarrow> string \<Rightarrow> int res proc" where
  "GetOTPAttempts c email =
     (if cc_api c = None then Ret (Inr 0)
      else RGet (otpAttemptsKey @ email) (\<lambda>r.
        case r of
          Inl err \<Rightarrow> Ret (Inl (Wrapf ''failed to read OTP attempt count'' err))
        | Inr raw \<Rightarrow>
            if raw = [] then Ret (Inr 0)
            else (case strconv_ParseInt raw of
                    Inl err \<Rightarrow> Ret (Inl (Wrapf ''failed to parse OTP attempt count'' err))
                  | Inr count \<Rightarrow> Ret (Inr count))))"

text \<open>The count and the error come back together: when arming the expiry fails, both are set.\<close>

definition IncrOTPAttempts :: "CacheClient \<Rightarrow> string \<Rightarrow> (int \<times> goerror option) proc" where
  "IncrOTPAttempts c email =
     (if cc_api c = None then Ret (0, None)
      else RExists (otpKeyPrefix @ email) (\<lambda>r.
        case r of
          Inl err \<Rightarrow> Ret (0, Some (Wrapf ''failed to check OTP existence'' err))
        | Inr otpActive \<Rightarrow>
            if \<not> otpActive then Ret (0, None)
            else RIncr (otpAttemptsKey @ email) (\<lambda>n.
              case n of
                Inl err \<Rightarrow> Ret (0, Some (Wrapf ''failed to increment OTP attempts'' err))
              | Inr count \<Rightarrow>
                  if count = 1 then
                    RExpire (otpAttemptsKey @ email) otpTTLSec (\<lambda>r.
                      case r of
                        Inl err \<Rightarrow> Ret (count, Some (Wrapf ''failed to set OTP attempts TTL'' err))
                      | Inr _ \<Rightarrow> Ret (count, None))
                  else Ret (count, None))))"

definition DeleteOTPAttempts :: "CacheClient \<Rightarrow> string \<Rightarrow> unit proc" where
  "DeleteOTPAttempts c email =
     (if cc_api c = None then Ret ()
      else RDelete (otpAttemptsKey @ email) (\<lambda>_. Ret ()))"

lemma otp_redis_only:
  "redis_only (VerifyOTP c email code)" "redis_only (IncrOTPAttempts c email)"
  "redis_only (GetOTPAttempts c email)" "redis_only (DeleteOTPAttempts c email)"
  by (auto simp: VerifyOTP_def IncrOTPAttempts_def GetOTPAttempts_def DeleteOTPAttempts_def
      split: sum.split bool.split)

section \<open>What a verification answers\<close>

text \<open>
  The specification of a verification on the readable values: the pending code decides
  first, then the redemption claim; only a successful verification changes anything.
\<close>

definition otp_verdict :: "(string \<Rightarrow> string option) \<Rightarrow> string \<Rightarrow> string \<Rightarrow> goerror option" where
  "otp_verdict L email code =
     (case L (otpKeyPrefix @ email) of
        None \<Rightarrow> Some ErrOTPNotFound
      | Some stored \<Rightarrow>
          if stored = [] then Some ErrOTPNotFound
          else if stored \<noteq> code then Some ErrOTPInvalid
          else if L (otpRedeemedKey @ email) \<noteq> None then Some ErrOTPAlreadyRedeemed
          else None)"

definition otp_after :: "(string \<Rightarrow> string option) \<Rightarrow> string \<Rightarrow> string \<Rightarrow> string \<Rightarrow> string option" where
  "otp_after L email code =
     (if otp_verdict L email code = None
      then L(otpRedeemedKey @ email \<mapsto> sentinel, otpKeyPrefix @ email := None) else L)"

lemma redeemed_ttl_pos: "0 < otpRedeemedTTL" and cooldown_ttl_pos: "0 < otpCooldownTTL"
  and otp_ttl_pos: "0 < otpTTLSec"
  by (simp_all add: cache_ttls)

context kv_reliable
begin

lemma VerifyOTP_exec:
  assumes "env_cache E = api" and "cc_api c \<noteq> None" and "ok (w_redis w)"
  shows "\<exists>s. exec (VerifyOTP c email code) E w
               = (otp_verdict (live (w_redis w)) email code, w\<lparr>w_redis := s\<rparr>)
             \<and> ok s \<and> live s = otp_after (live (w_redis w)) email code"
proof -
  let ?L = "live (w_redis w)"
  obtain s1 where g: "op_Get api (otpKeyPrefix @ email) (w_redis w)
      = (Inr (case ?L (otpKeyPrefix @ email) of None \<Rightarrow> [] | Some x \<Rightarrow> x), s1)"
    and s1: "ok s1" "live s1 = ?L"
    using get_eq [OF assms(3)] by blast
  obtain s2 where n: "op_SetNX api (otpRedeemedKey @ email) sentinel otpRedeemedTTL s1
      = (Inr (?L (otpRedeemedKey @ email) = None), s2)" "ok s2"
    and s2: "live s2 = (if ?L (otpRedeemedKey @ email) = None
               then ?L(otpRedeemedKey @ email \<mapsto> sentinel) else ?L)"
    using setnx_eq [OF s1(1) redeemed_ttl_pos] s1(2) by metis
  obtain s3 where d: "op_Delete api (otpKeyPrefix @ email) s2 = (Inr (), s3)" "ok s3"
    and s3: "live s3 = (live s2)(otpKeyPrefix @ email := None)"
    using delete_eq [OF n(2)] by blast
  show ?thesis
    using assms(1,2) g s1 n s2 d s3
    by (auto simp: VerifyOTP_def otp_verdict_def otp_after_def split: option.splits)
qed

end

section \<open>The format of a code\<close>

lemma exec_generateOTPCode:
  "exec generateOTPCode E w =
     (case env_rand_int E otpMax (w_rt w) of
        (Inl err, s) \<Rightarrow> (Inl err, w\<lparr>w_rt := s\<rparr>)
      | (Inr n, s) \<Rightarrow> (Inr (sprintf_06d n), w\<lparr>w_rt := s\<rparr>))"
  by (simp add: generateOTPCode_def split: prod.split sum.split)

text \<open>\<open>crypto/rand.Int(r, max)\<close> answers below \<open>max\<close>.\<close>

definition rand_int_bounded :: "('r, 'h, 'c) env \<Rightarrow> bool" where
  "rand_int_bounded E \<longleftrightarrow> (\<forall>m s n s'. env_rand_int E m s = (Inr n, s') \<longrightarrow> n < m)"

lemma generateOTPCode_format:
  assumes "rand_int_bounded E" and "exec generateOTPCode E w = (Inr code, w')"
  shows "length code = 6 \<and> (\<forall>ch \<in> set code. \<exists>d < 10. ch = digit_char d) \<and> code \<noteq> []"
proof -
  obtain n s where "env_rand_int E otpMax (w_rt w) = (Inr n, s)" and code: "code = sprintf_06d n"
    using assms(2) by (auto simp: exec_generateOTPCode split: prod.splits sum.splits)
  then have "n < 1000000"
    using assms(1) by (auto simp: rand_int_bounded_def otpMax_def)
  then show ?thesis
    using code length_sprintf_06d [of n] sprintf_06d_digits [of _ n] by auto
qed


section \<open>One redemption per code\<close>

text \<open>
  On every path of a verification: only a won claim on the address's redemption key leads to
  success, and nothing it does disturbs any address's claim for \<open>otpRedeemedTTL\<close> seconds.
\<close>

lemma VerifyOTP_needs_claim:
  "needs (wins_claim (otpRedeemedKey @ email)) (\<lambda>a. a = None) (VerifyOTP c email code)"
  by (auto simp: VerifyOTP_def split: sum.split bool.split)

lemma VerifyOTP_claim_safe:
  "plain_id email \<Longrightarrow> b < otpRedeemedTTL \<Longrightarrow>
     always (claim_safe (otpRedeemedKey @ e) b) (VerifyOTP c email code)"
  using redeemed_ttl_pos by (auto simp: VerifyOTP_def key_simps split: sum.split bool.split)

context redis
begin

lemma one_redemption:
  assumes "env_cache E = api"
    and "\<And>e code. (e, code) \<in> set reqs \<Longrightarrow> plain_id e"
    and run: "run_pool E elapse ss (map (\<lambda>(e, code). VerifyOTP c e code) reqs) w = (tr, qs, w')"
    and "good_sched ss" and "time_of ss < otpRedeemedTTL"
    and i: "i < length reqs" "qs ! i = Ret None" and j: "j < length reqs" "qs ! j = Ret None"
    and same: "fst (reqs ! i) = fst (reqs ! j)"
  shows "i = j"
proof -
  let ?ps = "map (\<lambda>(e, code). VerifyOTP c e code) reqs"
  let ?K = "otpRedeemedKey @ fst (reqs ! i)"
  have safe: "list_all (\<lambda>x. claim_safe ?K (time_of ss) (snd x)) tr"
    using VerifyOTP_claim_safe assms(2,5)
    by (intro run_pool_always [OF run]) auto
  have won: "\<exists>e. (k, e) \<in> set tr \<and> wins_claim ?K e"
    if k: "k < length reqs" "qs ! k = Ret None" "fst (reqs ! k) = fst (reqs ! i)" for k
    using run_pool_needs [OF run, of k "wins_claim ?K" "\<lambda>a. a = None"] VerifyOTP_needs_claim k
    by (cases "reqs ! k") auto
  obtain e1 e2 where e: "(i, e1) \<in> set tr" "wins_claim ?K e1" "(j, e2) \<in> set tr" "wins_claim ?K e2"
    using won [OF i] won [OF j] same by auto
  have "length (filter (\<lambda>x. wins_claim ?K (snd x)) tr) \<le> 1"
    using claim_unique [OF assms(1) run safe assms(4)] by simp
  moreover have "(i, e1) \<in> set (filter (\<lambda>x. wins_claim ?K (snd x)) tr)"
    "(j, e2) \<in> set (filter (\<lambda>x. wins_claim ?K (snd x)) tr)"
    using e by auto
  ultimately show "i = j"
    by (cases "filter (\<lambda>x. wins_claim ?K (snd x)) tr") auto
qed

end


section \<open>Generation\<close>

lemma Generate_frame:
  assumes "exec (GenerateAndStoreOTP c email) E w = (r, w')"
  shows "w_emails w' = w_emails w \<and> w_sem w' = w_sem w"
  using assms
  by (auto simp: GenerateAndStoreOTP_def exec_call exec_generateOTPCode
      split: if_splits prod.splits sum.splits bool.splits)


text \<open>What a successful generation leaves behind.\<close>

definition otp_issued :: "(string \<Rightarrow> string option) \<Rightarrow> string \<Rightarrow> string \<Rightarrow> string \<Rightarrow> string option" where
  "otp_issued L email code =
     L(otpCooldownKey @ email \<mapsto> sentinel, otpRedeemedKey @ email := None,
       otpKeyPrefix @ email \<mapsto> code)"

lemma otp_issued_verdict:
  "code \<noteq> [] \<Longrightarrow> plain_id email \<Longrightarrow> otp_verdict (otp_issued L email code) email code = None"
  by (simp add: otp_verdict_def otp_issued_def key_simps)

lemma otp_after_twice:
  assumes "otp_verdict L email code = None" and "plain_id email"
  shows "otp_verdict (otp_after L email code) email code' = Some ErrOTPNotFound"
  using assms by (simp add: otp_verdict_def otp_after_def)

context kv_reliable
begin

lemma Generate_exec:
  assumes "env_cache E = api" and "cc_api c \<noteq> None" and "ok (w_redis w)" and "plain_id email"
  shows "\<exists>r w'. exec (GenerateAndStoreOTP c email) E w = (r, w') \<and> ok (w_redis w') \<and>
     (case r of
        Inr code \<Rightarrow> live (w_redis w) (otpCooldownKey @ email) = None \<and>
          (\<exists>n s. env_rand_int E otpMax (w_rt w) = (Inr n, s) \<and> code = sprintf_06d n) \<and>
          live (w_redis w') = otp_issued (live (w_redis w)) email code
      | Inl err \<Rightarrow>
          (if live (w_redis w) (otpCooldownKey @ email) \<noteq> None
           then err = ErrOTPCooldown \<and> live (w_redis w') = live (w_redis w)
           else (\<exists>e s. env_rand_int E otpMax (w_rt w) = (Inl e, s))))"
proof -
  let ?L = "live (w_redis w)"
  obtain s1 where n: "op_SetNX api (otpCooldownKey @ email) sentinel otpCooldownTTL (w_redis w)
      = (Inr (?L (otpCooldownKey @ email) = None), s1)" "ok s1"
    and s1: "live s1 = (if ?L (otpCooldownKey @ email) = None
               then ?L(otpCooldownKey @ email \<mapsto> sentinel) else ?L)"
    using setnx_eq [OF assms(3) cooldown_ttl_pos] by metis
  obtain s2 where d: "op_Delete api (otpRedeemedKey @ email) s1 = (Inr (), s2)" "ok s2"
    and s2: "live s2 = (live s1)(otpRedeemedKey @ email := None)"
    using delete_eq [OF n(2)] by blast
  have set: "\<exists>s3. op_Set api (otpKeyPrefix @ email) x otpTTLSec s2 = (Inr (), s3) \<and> ok s3 \<and>
      live s3 = (live s2)(otpKeyPrefix @ email \<mapsto> x)" for x
    using set_eq [OF d(2) otp_ttl_pos] .
  show ?thesis
  proof (cases "?L (otpCooldownKey @ email) = None")
    case False
    then show ?thesis using n s1 assms(1,2) by (auto simp: GenerateAndStoreOTP_def)
  next
    case True
    obtain r s where rnd: "env_rand_int E otpMax (w_rt w) = (r, s)" by fastforce
    show ?thesis
    proof (cases r)
      case (Inl err)
      then show ?thesis
        using n d True rnd assms(1,2)
        by (simp add: GenerateAndStoreOTP_def exec_call exec_generateOTPCode)
    next
      case (Inr m)
      obtain s3 where "op_Set api (otpKeyPrefix @ email) (sprintf_06d m) otpTTLSec s2 = (Inr (), s3)"
        "ok s3" "live s3 = (live s2)(otpKeyPrefix @ email \<mapsto> sprintf_06d m)"
        using set by blast
      then show ?thesis
        using n s1 d s2 True rnd Inr assms(1,2)
        by (auto simp: GenerateAndStoreOTP_def exec_call exec_generateOTPCode otp_issued_def)
    qed
  qed
qed

text \<open>Whatever the outcome, a generation never touches the attempt counter.\<close>

end

context kv_store
begin

lemma Generate_keeps_attempts:
  assumes "env_cache E = api" and "exec (GenerateAndStoreOTP c email) E w = (r, w')"
    and "plain_id email"
  shows "live (w_redis w') (otpAttemptsKey @ e) = live (w_redis w) (otpAttemptsKey @ e)"
proof -
  let ?K = "otpAttemptsKey @ e"
  have nx: "live s' ?K = live s ?K"
    if "op_SetNX (env_cache E) (otpCooldownKey @ email) x otpCooldownTTL s = (b, s')" for s s' x and b :: "bool res"
    using setnx_law [OF cooldown_ttl_pos that [unfolded assms(1)]] by (auto split: sum.splits bool.splits)
  have del: "live s' ?K = live s ?K"
    if "op_Delete (env_cache E) (otpRedeemedKey @ email) s = (b, s')" for s s' and b :: "unit res"
    using delete_law [OF that [unfolded assms(1)]] by auto
  have set: "live s' ?K = live s ?K"
    if "op_Set (env_cache E) (otpKeyPrefix @ email) x otpTTLSec s = (b, s')" for s s' x and b :: "unit res"
    using set_law [OF otp_ttl_pos that [unfolded assms(1)]] otp_keys_distinct(4) [OF assms(3), of e] by auto
  show ?thesis
    using assms(2)
    by (auto simp: GenerateAndStoreOTP_def exec_call exec_generateOTPCode
        split: if_splits prod.splits sum.splits bool.splits dest!: nx del set)
qed

end


section \<open>The attempt counter\<close>

lemma IncrOTPAttempts_needs_number:
  "n \<noteq> 0 \<Longrightarrow> needs (\<lambda>e. e = EvIncr (otpAttemptsKey @ email) (Inr n)) (\<lambda>a. a = (n, None))
     (IncrOTPAttempts c email)"
  by (auto simp: IncrOTPAttempts_def split: sum.split)

lemma IncrOTPAttempts_counter_safe:
  "b < otpTTLSec \<Longrightarrow> always (counter_safe K b) (IncrOTPAttempts c email)"
  using otp_ttl_pos by (auto simp: IncrOTPAttempts_def split: sum.split)

context redis
begin

lemma attempt_numbers_differ:
  assumes "env_cache E = api"
    and run: "run_pool E elapse ss (map (IncrOTPAttempts c) emails) w = (tr, qs, w')"
    and "good_sched ss" and "time_of ss < otpTTLSec"
    and "counter_at (live (w_redis w)) (otpAttemptsKey @ email) i"
    and "i + int (length ss) < 2 ^ 63 - 1"
    and "lasting (ttl (w_redis w)) (otpAttemptsKey @ email) (time_of ss)"
    and j: "j < length emails" "emails ! j = email" "qs ! j = Ret (n, None)"
    and k: "k < length emails" "emails ! k = email" "qs ! k = Ret (n, None)"
    and "n \<noteq> 0"
  shows "j = k \<and> i < n"
proof -
  let ?K = "otpAttemptsKey @ email"
  have safe: "list_all (\<lambda>x. counter_safe ?K (time_of ss) (snd x)) tr"
    using IncrOTPAttempts_counter_safe [OF assms(4)] by (intro run_pool_always [OF run]) auto
  have got: "(m, EvIncr ?K (Inr n)) \<in> set tr"
    if "m < length emails" "emails ! m = email" "qs ! m = Ret (n, None)" for m
    using run_pool_needs [OF run, of m "\<lambda>e. e = EvIncr ?K (Inr n)" "\<lambda>a. a = (n, None)"]
      IncrOTPAttempts_needs_number [OF assms(14)] that by auto
  show ?thesis
    using numbers_distinct [OF assms(1) run safe assms(3,5-7) order_refl got [OF j] got [OF k]] .
qed

lemma attempts_capped:
  assumes "env_cache E = api"
    and run: "run_pool E elapse ss (map (IncrOTPAttempts c) emails) w = (tr, qs, w')"
    and "good_sched ss" and "time_of ss < otpTTLSec"
    and "counter_at (live (w_redis w)) (otpAttemptsKey @ email) i"
    and "i + int (length ss) < 2 ^ 63 - 1"
    and "lasting (ttl (w_redis w)) (otpAttemptsKey @ email) (time_of ss)"
  shows "card {j. j < length emails \<and> emails ! j = email \<and>
      (\<exists>n. qs ! j = Ret (n, None) \<and> n \<noteq> 0 \<and> n \<le> m)} \<le> nat (m - i)"
proof -
  let ?J = "{j. j < length emails \<and> emails ! j = email \<and>
      (\<exists>n. qs ! j = Ret (n, None) \<and> n \<noteq> 0 \<and> n \<le> m)}"
  let ?f = "\<lambda>j. THE n. qs ! j = Ret (n, None)"
  note differ = attempt_numbers_differ [OF assms]
  have f: "\<exists>n. qs ! j = Ret (n, None) \<and> ?f j = n \<and> i < n \<and> n \<le> m" if "j \<in> ?J" for j
    using that differ by fastforce
  have "inj_on ?f ?J"
  proof (rule inj_onI)
    fix j k assume jk: "j \<in> ?J" "k \<in> ?J" "?f j = ?f k"
    obtain n where "qs ! j = Ret (n, None)" "?f j = n" using f [OF jk(1)] by blast
    moreover obtain n' where "qs ! k = Ret (n', None)" "?f k = n'" using f [OF jk(2)] by blast
    ultimately have "qs ! j = Ret (n, None)" "qs ! k = Ret (n, None)" "n \<noteq> 0"
      using jk by auto
    then show "j = k" using differ [where j = j and k = k and n = n] jk by auto
  qed
  moreover have "?f ` ?J \<subseteq> {i<..m}" using f by fastforce
  ultimately have "card ?J \<le> card {i<..m}" by (intro card_inj_on_le) auto
  then show ?thesis by simp
qed

text \<open>
  Only the call that creates the counter arms its expiry: later calls leave the remaining
  life alone, so a counter whose \<open>EXPIRE\<close> was lost stays.
\<close>

lemma Incr_never_rearms:
  assumes "env_cache E = api" and "exec (IncrOTPAttempts c email) E w = (r, w')"
    and "counter_at (live (w_redis w)) (otpAttemptsKey @ email) i" and "1 \<le> i"
    and "i < 2 ^ 63 - 1"
  shows "ttl (w_redis w') = ttl (w_redis w) \<and>
    (\<exists>j. counter_at (live (w_redis w')) (otpAttemptsKey @ email) j \<and> i \<le> j \<and> j \<le> i + 1)"
proof -
  let ?K = "otpAttemptsKey @ email"
  have ex: "live s' = live s \<and> ttl s' = ttl s"
    if "op_Exists (env_cache E) (otpKeyPrefix @ email) s = (b, s')" for s s' b
    using exists_law [OF that [unfolded assms(1)]] exists_ttl [OF that [unfolded assms(1)]] by auto
  have inc: "(\<forall>n. b = Inr n \<longrightarrow> n \<noteq> 1) \<and> ttl s' = ttl s \<and>
      (\<exists>j. counter_at (live s') ?K j \<and> i \<le> j \<and> j \<le> i + 1)"
    if "live s = live (w_redis w)" "op_Incr (env_cache E) ?K s = (b, s')" for s s' b
  proof -
    have "counter_at (live s) ?K i" using that(1) assms(3) by simp
    from incr_cases [OF this assms(5) that(2) [unfolded assms(1)]] show ?thesis
      using incr_ttl [OF that(2) [unfolded assms(1)]] assms(4) by auto
  qed
  obtain b s1 where e1: "op_Exists (env_cache E) (otpKeyPrefix @ email) (w_redis w) = (b, s1)"
    by fastforce
  obtain n s2 where e2: "op_Incr (env_cache E) ?K s1 = (n, s2)" by fastforce
  note l1 = ex [OF e1] and l2 = inc [OF conjunct1 [OF ex [OF e1]] e2]
  show ?thesis
    using assms(2,3) e1 e2 l1 l2
    by (auto simp: IncrOTPAttempts_def split: if_splits sum.splits)
qed

end

end
