(* ===== verification/Service.thy ===== *)
theory Service
  imports Clients JwtKeys ClientRegistry TokenStore AuthCodeStore OtpStore
begin

text \<open>
  \<open>api/service.go\<close> and the service token of \<open>api/otp.go\<close>: the handlers' shared dependencies.
  The keys and the registry are the ones current when the request runs; a reload between
  requests is a change of these fields. The mutable part of the service (the cached service
  token, the e-mail semaphore) is in the world.
\<close>

record Service =
  sv_lib :: jwt_lib
  sv_sdk :: sdk
  sv_HttpClient :: "HttpClient option"
  sv_CacheClient :: CacheClient
  sv_BannedChecker :: "BannedCustomersClient option"
  sv_BannedReachability :: "BannedCustomersClient option"
  sv_JWT :: "Keys option"
  sv_ClientRegistry :: "Registry option"
  sv_authCodeGrantEnabled :: bool

text \<open>
  \<open>ServiceConfig\<close>; what \<open>clients.New\<close> and \<open>db.New\<close> make of their configurations (both call
  into the SDK) is given as their results.
\<close>

record ServiceConfig =
  sc_HttpClient :: "HttpClient res"
  sc_CacheClient :: "CacheClient res option"
  sc_BannedCustomers :: "(string \<times> unit option) option"
  sc_JWT :: "Keys option"
  sc_ClientRegistry :: "Registry option"
  sc_AuthCodeGrantEnabled :: bool

definition NewService :: "jwt_lib \<Rightarrow> sdk \<Rightarrow> ServiceConfig \<Rightarrow> Service res" where
  "NewService lib S cfg =
     (case sc_HttpClient cfg of
        Inl err \<Rightarrow> Inl (Wrapf ''failed to create http client'' err)
      | Inr httpClient \<Rightarrow>
          (case (case sc_CacheClient cfg of None \<Rightarrow> Inr (NewFromOperations None) | Some r \<Rightarrow> r) of
             Inl err \<Rightarrow> Inl (Wrapf ''failed to create cache client'' err)
           | Inr cache \<Rightarrow>
               (let banned = map_option (\<lambda>(t, d). NewBannedCustomers t d) (sc_BannedCustomers cfg)
                in Inr \<lparr>sv_lib = lib, sv_sdk = S, sv_HttpClient = Some httpClient,
                     sv_CacheClient = cache, sv_BannedChecker = banned,
                     sv_BannedReachability = banned, sv_JWT = sc_JWT cfg,
                     sv_ClientRegistry = sc_ClientRegistry cfg,
                     sv_authCodeGrantEnabled = sc_AuthCodeGrantEnabled cfg\<rparr>)))"

section \<open>The token authority of a service\<close>

text \<open>Calls through a nil \<open>TokenAuthority\<close> panic; the results stand for that.\<close>

definition s_SignToken ::
  "Service \<Rightarrow> string \<Rightarrow> string \<Rightarrow> string \<Rightarrow> int \<Rightarrow> string list \<Rightarrow> string res proc" where
  "s_SignToken s iss sub aud ttl scopes =
     (case sv_JWT s of None \<Rightarrow> Ret (Inl nil_keyset)
      | Some k \<Rightarrow> SignToken (sv_lib s) k iss sub aud ttl scopes)"

definition s_SignRefreshToken ::
  "Service \<Rightarrow> string \<Rightarrow> string \<Rightarrow> string \<Rightarrow> string \<Rightarrow> string \<Rightarrow> int \<Rightarrow> string list \<Rightarrow> string res proc" where
  "s_SignRefreshToken s iss sub aud azp fam ttl scopes =
     (case sv_JWT s of None \<Rightarrow> Ret (Inl nil_keyset)
      | Some k \<Rightarrow> SignRefreshToken (sv_lib s) k iss sub aud azp fam ttl scopes)"

definition s_ParseClaims :: "Service \<Rightarrow> string \<Rightarrow> CustomClaims res proc" where
  "s_ParseClaims s tok =
     (case sv_JWT s of None \<Rightarrow> Ret (Inl nil_keyset) | Some k \<Rightarrow> ParseClaims (sv_lib s) k tok)"

definition s_ValidateAndParseClaims :: "Service \<Rightarrow> string \<Rightarrow> CustomClaims res proc" where
  "s_ValidateAndParseClaims s tok =
     (case sv_JWT s of None \<Rightarrow> Ret (Inl nil_keyset)
      | Some k \<Rightarrow> ValidateAndParseClaims (sv_lib s) k tok)"

section \<open>The service token\<close>

definition otpTokenTTL :: int where "otpTokenTTL = 1800"
definition svcJWTTTLSec :: int where "svcJWTTTLSec = 30"
definition audienceUser :: string where "audienceUser = ''komodo-apis:user''"
definition audienceService :: string where "audienceService = ''komodo-apis:service''"
definition otpScope :: string where "otpScope = ''otp:verified''"
definition this_issuer :: string where "this_issuer = ''komodo-auth-api''"

text \<open>The function runs under the mutex of the service: without other requests in between.\<close>

definition getOrRefreshSvcJWT :: "Service \<Rightarrow> string res proc" where
  "getOrRefreshSvcJWT s =
     SvcLoad (\<lambda>(svcJWT, svcJWTExpiry).
       let refresh =
         call (s_SignToken s this_issuer this_issuer audienceService svcJWTTTLSec [''svc:komodo-auth-api'']) (\<lambda>r.
           case r of
             Inl err \<Rightarrow> Ret (Inl (Wrapf ''failed to sign service token'' err))
           | Inr token \<Rightarrow>
               TimeNow (\<lambda>now.
               SvcStore (token, now + svcJWTTTLSec * second_ns) (\<lambda>_.
               Ret (Inr token))))
       in if svcJWT \<noteq> [] then
            TimeNow (\<lambda>now. if now < svcJWTExpiry - 5 * second_ns then Ret (Inr svcJWT) else refresh)
          else refresh)"

text \<open>
  What is cached: nothing, or a token this service signed for itself, whose recorded expiry is
  at most \<open>slack\<close> after the expiry that was asked for when it was signed.
\<close>

definition own_token :: "Service \<Rightarrow> string \<Rightarrow> CustomClaims \<Rightarrow> bool" where
  "own_token s tok c \<longleftrightarrow> (\<exists>k ks. sv_JWT s = Some k \<and> k_active k = Some ks \<and>
     gj_SignedString (sv_lib s) (ks_kid ks) c (ks_privateKey ks) = Inr tok)"

definition svc_claims :: "CustomClaims \<Rightarrow> int \<Rightarrow> bool" where
  "svc_claims c t1 \<longleftrightarrow> (\<exists>t2 t3 jti. c = refresh_claims this_issuer this_issuer audienceService [] []
     svcJWTTTLSec [''svc:komodo-auth-api''] t1 t2 t3 jti)"

definition svc_cache_inv :: "Service \<Rightarrow> int \<Rightarrow> string \<times> int \<Rightarrow> bool" where
  "svc_cache_inv s slack v \<longleftrightarrow> fst v = [] \<or>
     (\<exists>c t1. own_token s (fst v) c \<and> svc_claims c t1 \<and> snd v \<le> t1 + svcJWTTTLSec * second_ns + slack)"

text \<open>
  A token this service signed with its active key at time \<open>now\<close>: subject, audience, authorized
  party, family, lifetime and scopes are the arguments; issued-at, not-before and the ID are
  whatever the clock and the UUID source said.
\<close>

definition token_for ::
  "Service \<Rightarrow> string \<Rightarrow> string \<Rightarrow> string \<Rightarrow> string \<Rightarrow> string \<Rightarrow> int \<Rightarrow> string list \<Rightarrow> int \<Rightarrow> bool" where
  "token_for s tok sub aud azp fam ttl scopes now \<longleftrightarrow>
     (\<exists>t2 t3 jti. own_token s tok (refresh_claims this_issuer sub aud azp fam ttl scopes now t2 t3 jti))"

lemma exec_s_SignToken:
  "exec (s_SignToken s this_issuer sub aud ttl scopes) E w = (Inr tok, w') \<Longrightarrow>
     token_for s tok sub aud [] [] ttl scopes (fst (env_now E (w_rt w))) \<and> w' = w\<lparr>w_rt := w_rt w'\<rparr>"
  by (auto simp: s_SignToken_def exec_SignToken exec_SignRefreshToken own_token_def token_for_def
      split: option.splits prod.splits)

lemma exec_s_SignRefreshToken:
  "exec (s_SignRefreshToken s this_issuer sub aud azp fam ttl scopes) E w = (Inr tok, w') \<Longrightarrow>
     token_for s tok sub aud azp fam ttl scopes (fst (env_now E (w_rt w))) \<and> w' = w\<lparr>w_rt := w_rt w'\<rparr>"
  by (auto simp: s_SignRefreshToken_def exec_SignRefreshToken own_token_def token_for_def
      split: option.splits prod.splits)

lemma exec_s_Sign_runtime:
  "exec (s_SignToken s iss sub aud ttl scopes) E w = (r, w') \<Longrightarrow> w' = w\<lparr>w_rt := w_rt w'\<rparr>"
  "exec (s_SignRefreshToken s iss sub aud azp fam ttl scopes) E w = (r, w') \<Longrightarrow> w' = w\<lparr>w_rt := w_rt w'\<rparr>"
  by (auto simp: s_SignToken_def s_SignRefreshToken_def exec_SignToken exec_SignRefreshToken
      split: option.splits prod.splits)

end
