(* ===== verification/OAuthToken.thy ===== *)
theory OAuthToken
  imports Service
begin

text \<open>
  \<open>api/oauth_token.go\<close>: the token endpoint. \<open>OAuthTokenHandler\<close> decodes the request and
  dispatches on the grant type; each grant is one handler, with the error paths in the order
  of the code. Log output is not modelled.
\<close>

definition accessTokenTTL :: int where "accessTokenTTL = 3600"
definition refreshTokenTTL :: int where "refreshTokenTTL = 2592000"
definition passkeyLoginScope :: string where "passkeyLoginScope = ''passkey:verified''"
definition offline_access :: string where "offline_access = ''offline_access''"

definition serviceScopes :: "string \<Rightarrow> string list \<Rightarrow> string list" where
  "serviceScopes clientID requested = requested @ [''svc:'' @ clientID]"

definition verifyCodeChallenge :: "string \<Rightarrow> string \<Rightarrow> bool" where
  "verifyCodeChallenge challenge verifier \<longleftrightarrow>
     subtle_ConstantTimeCompare (base64_RawURL_EncodeToString (sha256_Sum256 verifier)) challenge = 1"

section \<open>Decoding the request\<close>

definition optionalForm :: "url_values \<Rightarrow> string \<Rightarrow> string option" where
  "optionalForm form key = (let v = Values_Get form key in if v \<noteq> [] then Some v else None)"

definition form_TokenRequest :: "url_values \<Rightarrow> TokenRequest" where
  "form_TokenRequest form =
     \<lparr>tr_GrantType = Values_Get form ''grant_type'', tr_ClientId = Values_Get form ''client_id'',
      tr_ClientSecret = Values_Get form ''client_secret'', tr_Scope = optionalForm form ''scope'',
      tr_RefreshToken = optionalForm form ''refresh_token'', tr_Code = optionalForm form ''code'',
      tr_RedirectUri = optionalForm form ''redirect_uri'',
      tr_CodeVerifier = optionalForm form ''code_verifier''\<rparr>"

definition decodeTokenRequest :: "http_in \<Rightarrow> TokenRequest res" where
  "decodeTokenRequest rq =
     map_sum id
       (\<lambda>tr. case BasicAuth rq of None \<Rightarrow> tr
          | Some (cid, secret) \<Rightarrow> tr\<lparr>tr_ClientId := cid, tr_ClientSecret := secret\<rparr>)
       (if strings_HasPrefix (in_ContentType rq) form_type
        then map_sum id form_TokenRequest (ParseForm rq)
        else and_then (Decode (in_Body rq)) TokenRequest_of_json)"

section \<open>Client credentials\<close>

text \<open>The requested scopes without \<open>offline_access\<close>: the scope text, its fields, and whether it was there.\<close>

definition split_offline :: "string \<Rightarrow> string \<times> string list \<times> bool" where
  "split_offline scopeStr =
     (let scopeFields = strings_Fields scopeStr
      in if offline_access \<in> set scopeFields then
           (let filtered = filter (\<lambda>s. s \<noteq> offline_access) scopeFields
            in (strings_Join filtered '' '', filtered, True))
         else (scopeStr, scopeFields, False))"

definition token_audience :: "ClientRecord \<Rightarrow> string" where
  "token_audience rec =
     (if length (cr_AllowedAudiences rec) = 1 then cr_AllowedAudiences rec ! 0 else audienceService)"

definition nonempty :: "string \<Rightarrow> string option" where
  "nonempty x = (if x \<noteq> [] then Some x else None)"

text \<open>The second half of the handler: the tokens are signed.\<close>

definition cc_issue ::
  "Service \<Rightarrow> string \<Rightarrow> ClientRecord \<Rightarrow> string \<Rightarrow> string list \<Rightarrow> bool \<Rightarrow> response proc" where
  "cc_issue s clientId rec normalScope scopeFields requestedOfflineAccess =
     (let hs = json_no_store;
          audience = token_audience rec;
          scopes = (if scopeFields \<noteq> [] then serviceScopes clientId scopeFields else [])
      in call (s_SignToken s this_issuer clientId audience accessTokenTTL scopes) (\<lambda>r.
           case r of
             Inl err \<Rightarrow> respond hs (SendError Global_Internal ''failed to sign access token'')
           | Inr accessToken \<Rightarrow>
               (let finish = (\<lambda>refreshToken.
                  respond hs (Reply 200 (TokenBody
                    \<lparr>ts_AccessToken = accessToken, ts_ExpiresIn = accessTokenTTL,
                     ts_RefreshToken = nonempty refreshToken, ts_Scope = nonempty normalScope,
                     ts_TokenType = ''Bearer''\<rparr>)))
                in if \<not> requestedOfflineAccess then finish []
                   else UuidNew (\<lambda>fam.
                     call (s_SignRefreshToken s this_issuer clientId ''komodo-apis:service'' clientId fam
                             refreshTokenTTL (offline_access # scopeFields)) (\<lambda>r.
                       case r of
                         Inl err \<Rightarrow> respond hs (SendError Global_Internal ''failed to sign refresh token'')
                       | Inr refreshToken \<Rightarrow> finish refreshToken)))))"

definition handleClientCredentials :: "Service \<Rightarrow> TokenRequest \<Rightarrow> response proc" where
  "handleClientCredentials s reqBody =
     (let hs = json_no_store in
      if tr_ClientId reqBody = [] \<or> tr_ClientSecret reqBody = []
      then respond hs (SendError Auth_InvalidClientCredentials ''missing client credentials'')
      else case ValidateAndGet (sv_ClientRegistry s) (tr_ClientId reqBody) (tr_ClientSecret reqBody) of
        (rec, ok) \<Rightarrow>
          if \<not> ok
          then respond hs (SendError Auth_InvalidClientCredentials ''invalid client credentials'')
          else
            (let scopeStr = (case tr_Scope reqBody of None \<Rightarrow> [] | Some x \<Rightarrow> x)
             in case split_offline scopeStr of (normalScope, scopeFields, requestedOfflineAccess) \<Rightarrow>
               if normalScope \<noteq> [] \<and> \<not> sdk_IsValidScope (sv_sdk s) normalScope
               then respond hs (SendError Auth_InvalidScope (''invalid scope: '' @ normalScope))
               else if normalScope \<noteq> [] \<and> \<not> HasScope rec normalScope
               then respond hs (SendError Auth_InsufficientScope
                      (''client not permitted to request scope: '' @ normalScope))
               else cc_issue s (tr_ClientId reqBody) rec normalScope scopeFields requestedOfflineAccess))"

section \<open>Refresh\<close>

text \<open>The checks before a refresh: \<open>Some\<close> the response that denies it.\<close>

definition refreshRevocationDenied :: "Service \<Rightarrow> CustomClaims \<Rightarrow> outcome option proc" where
  "refreshRevocationDenied s claims =
     (let cache = sv_CacheClient s;
          family_check =
            (if cl_FamilyId claims \<noteq> [] then
               call (IsFamilyRevoked cache (cl_FamilyId claims)) (\<lambda>r.
                 case r of
                   Inl err \<Rightarrow> Ret (Some (SendError Global_Internal ''revocation check unavailable''))
                 | Inr familyRevoked \<Rightarrow>
                     if familyRevoked
                     then Ret (Some (SendError Auth_InvalidToken ''refresh token has been revoked''))
                     else Ret None)
             else Ret None)
      in if cl_ID claims \<noteq> [] then
           call (IsRevoked cache (cl_ID claims)) (\<lambda>r.
             case r of
               Inl err \<Rightarrow> Ret (Some (SendError Global_Internal ''revocation check unavailable''))
             | Inr revoked \<Rightarrow>
                 if revoked then
                   (let deny = Ret (Some (SendError Auth_InvalidToken ''refresh token has been revoked''))
                    in case cl_ExpiresAt claims of
                         Some e \<Rightarrow>
                           if cl_FamilyId claims \<noteq> [] then
                             TimeNow (\<lambda>now.
                               let familyTTL = e * second_ns - now
                               in if 0 < familyTTL
                                  then call (StoreRevokedFamily cache (cl_FamilyId claims) familyTTL) (\<lambda>_. deny)
                                  else deny)
                           else deny
                       | None \<Rightarrow> deny)
                 else family_check)
         else family_check)"

text \<open>
  The ban gate, which lets the request through whenever it cannot decide. The interfaces
  \<open>BannedChecker\<close> and \<open>HttpClient\<close> may be nil.
\<close>

definition isRefreshTokenUserBanned :: "Service \<Rightarrow> string list \<Rightarrow> string \<Rightarrow> bool proc" where
  "isRefreshTokenUserBanned s scopes subject =
     (let isServiceToken = list_ex (\<lambda>sc. strings_HasPrefix sc ''svc:'') scopes
      in if isServiceToken then Ret False
         else case sv_BannedChecker s of None \<Rightarrow> Ret False | Some banned \<Rightarrow>
           (case sv_HttpClient s of None \<Rightarrow> Ret False | Some http \<Rightarrow>
              call (getOrRefreshSvcJWT s) (\<lambda>t.
                case t of Inl err \<Rightarrow> Ret False | Inr svcToken \<Rightarrow>
                  call (GetUserByID (sv_sdk s) http subject svcToken) (\<lambda>u.
                    case u of
                      Inl err \<Rightarrow> Ret False
                    | Inr None \<Rightarrow> Ret False
                    | Inr (Some user) \<Rightarrow>
                        call (IsBanned (sv_sdk s) banned (us_Email user)) (\<lambda>b.
                          case b of Inl err \<Rightarrow> Ret False | Inr isBanned \<Rightarrow> Ret isBanned)))))"

text \<open>What is signed into the new tokens.\<close>

definition is_user_session :: "CustomClaims \<Rightarrow> bool" where
  "is_user_session claims \<longleftrightarrow> cl_Azp claims \<noteq> [] \<and> cl_Azp claims \<noteq> cl_Subject claims"

definition refresh_audience :: "CustomClaims \<Rightarrow> string" where
  "refresh_audience claims =
     (if 0 < length (cl_Audience claims) then cl_Audience claims ! 0 else ''komodo-apis:service'')"

definition refresh_access_scopes :: "CustomClaims \<Rightarrow> string list" where
  "refresh_access_scopes claims =
     (if is_user_session claims then [passkeyLoginScope]
      else filter (\<lambda>sc. sc \<noteq> offline_access) (cl_Scopes claims))"

definition refresh_token_scopes :: "string \<Rightarrow> CustomClaims \<Rightarrow> string list" where
  "refresh_token_scopes clientId claims =
     (if is_user_session claims then refresh_access_scopes claims
      else serviceScopes clientId (refresh_access_scopes claims))"

definition allowed_refresh_audiences :: "ClientRecord \<Rightarrow> string list" where
  "allowed_refresh_audiences rec =
     (if cr_AllowedAudiences rec = [] then [''komodo-apis:service''] else cr_AllowedAudiences rec)"

definition revoke_rotated :: "Service \<Rightarrow> CustomClaims \<Rightarrow> unit proc" where
  "revoke_rotated s claims =
     (if cl_ID claims = [] then Ret ()
      else case cl_ExpiresAt claims of None \<Rightarrow> Ret () | Some e \<Rightarrow>
        TimeNow (\<lambda>now.
          let remaining = e * second_ns - now
          in if 0 < remaining
             then call (StoreRevoked (sv_CacheClient s) (cl_ID claims) remaining) (\<lambda>_. Ret ())
             else Ret ()))"

text \<open>The second half of the handler: the tokens are signed, the old one is revoked.\<close>

definition refresh_issue :: "Service \<Rightarrow> string \<Rightarrow> CustomClaims \<Rightarrow> response proc" where
  "refresh_issue s clientId claims =
     (let hs = json_no_store; audience = refresh_audience claims;
          scope = strings_Join (refresh_access_scopes claims) '' ''
      in call (s_SignToken s this_issuer (cl_Subject claims) audience accessTokenTTL
                 (refresh_token_scopes clientId claims)) (\<lambda>a.
           case a of
             Inl err \<Rightarrow> respond hs (SendError Global_Internal ''failed to sign access token'')
           | Inr accessToken \<Rightarrow>
               (let rotate = (\<lambda>rotatedFamilyID.
                  call (s_SignRefreshToken s this_issuer (cl_Subject claims) audience clientId
                          rotatedFamilyID refreshTokenTTL (cl_Scopes claims)) (\<lambda>r.
                    case r of
                      Inl err \<Rightarrow> respond hs (SendError Global_Internal ''failed to sign refresh token'')
                    | Inr newRefreshToken \<Rightarrow>
                        call (revoke_rotated s claims) (\<lambda>_.
                          respond hs (Reply 200 (TokenBody
                            \<lparr>ts_AccessToken = accessToken, ts_ExpiresIn = accessTokenTTL,
                             ts_RefreshToken = Some newRefreshToken, ts_Scope = nonempty scope,
                             ts_TokenType = ''Bearer''\<rparr>)))))
                in if cl_FamilyId claims = [] then UuidNew rotate else rotate (cl_FamilyId claims))))"

text \<open>The handler from the parsed claims on.\<close>

definition refresh_with :: "Service \<Rightarrow> string \<Rightarrow> ClientRecord \<Rightarrow> CustomClaims \<Rightarrow> response proc" where
  "refresh_with s clientId rec claims =
     (let hs = json_no_store in
      if offline_access \<notin> set (cl_Scopes claims)
      then respond hs (SendError Auth_InvalidToken ''token is not a refresh token'')
      else if cl_Azp claims \<noteq> clientId
      then respond hs (SendError Auth_InvalidToken ''refresh token was not issued to this client'')
      else call (refreshRevocationDenied s claims) (\<lambda>denied.
        case denied of
          Some out \<Rightarrow> respond hs out
        | None \<Rightarrow>
            call (isRefreshTokenUserBanned s (cl_Scopes claims) (cl_Subject claims)) (\<lambda>banned.
              if banned
              then respond hs (SendError Global_Forbidden ''account is not eligible for token refresh'')
              else if \<not> is_user_session claims \<and>
                refresh_audience claims \<notin> set (allowed_refresh_audiences rec)
              then respond hs (SendError Global_BadRequest ''audience not permitted for this client'')
              else refresh_issue s clientId claims)))"

definition handleRefreshToken :: "Service \<Rightarrow> TokenRequest \<Rightarrow> response proc" where
  "handleRefreshToken s reqBody =
     (let hs = json_no_store in
      case tr_RefreshToken reqBody of
        None \<Rightarrow> respond hs (SendError Global_BadRequest ''missing refresh token'')
      | Some refreshToken \<Rightarrow>
        if refreshToken = []
        then respond hs (SendError Global_BadRequest ''missing refresh token'')
        else if tr_ClientId reqBody = [] \<or> tr_ClientSecret reqBody = []
        then respond hs (SendError Auth_InvalidClientCredentials ''missing client credentials'')
        else case ValidateAndGet (sv_ClientRegistry s) (tr_ClientId reqBody) (tr_ClientSecret reqBody) of
          (rec, credOK) \<Rightarrow>
            if \<not> credOK
            then respond hs (SendError Auth_InvalidClientCredentials ''invalid client credentials'')
            else call (s_ParseClaims s refreshToken) (\<lambda>c.
              case c of
                Inl err \<Rightarrow> respond hs (SendError Auth_InvalidToken ''failed to parse refresh token'')
              | Inr claims \<Rightarrow> refresh_with s (tr_ClientId reqBody) rec claims))"

section \<open>Authorization code\<close>

text \<open>The ban check of the exchange; a nil \<open>HttpClient\<close> panics in it (treated as a failed lookup).\<close>

definition exchange_banned :: "Service \<Rightarrow> string \<Rightarrow> bool proc" where
  "exchange_banned s userID =
     (case sv_BannedChecker s of None \<Rightarrow> Ret False | Some banned \<Rightarrow>
        call (getOrRefreshSvcJWT s) (\<lambda>t.
          case t of Inl err \<Rightarrow> Ret False | Inr svcToken \<Rightarrow>
            (case sv_HttpClient s of None \<Rightarrow> Ret False | Some http \<Rightarrow>
               call (GetUserByID (sv_sdk s) http userID svcToken) (\<lambda>u.
                 case u of
                   Inl err \<Rightarrow> Ret False
                 | Inr None \<Rightarrow> Ret False
                 | Inr (Some user) \<Rightarrow>
                     call (IsBanned (sv_sdk s) banned (us_Email user)) (\<lambda>b.
                       case b of Inl err \<Rightarrow> Ret False | Inr isBanned \<Rightarrow> Ret isBanned)))))"

definition exchange_issue :: "Service \<Rightarrow> string \<Rightarrow> AuthCodeEntry \<Rightarrow> response proc" where
  "exchange_issue s clientId entry =
     (let hs = json_no_store; scopes = (if ac_Scope entry \<noteq> [] then strings_Fields (ac_Scope entry) else [])
      in call (s_SignToken s this_issuer (ac_UserID entry) audienceUser accessTokenTTL scopes) (\<lambda>a.
           case a of
             Inl err \<Rightarrow> respond hs (SendError Global_Internal ''failed to sign access token'')
           | Inr accessToken \<Rightarrow>
               UuidNew (\<lambda>fam.
               call (s_SignRefreshToken s this_issuer (ac_UserID entry) audienceUser clientId fam
                       refreshTokenTTL (offline_access # scopes)) (\<lambda>r.
                 case r of
                   Inl err \<Rightarrow> respond hs (SendError Global_Internal ''failed to sign refresh token'')
                 | Inr refreshToken \<Rightarrow>
                     respond hs (Reply 200 (TokenBody
                       \<lparr>ts_AccessToken = accessToken, ts_ExpiresIn = accessTokenTTL,
                        ts_RefreshToken = Some refreshToken, ts_Scope = nonempty (ac_Scope entry),
                        ts_TokenType = ''Bearer''\<rparr>))))))"

definition handleAuthorizationCode :: "Service \<Rightarrow> TokenRequest \<Rightarrow> response proc" where
  "handleAuthorizationCode s reqBody =
     (let hs = json_no_store; get = (\<lambda>x. case x of None \<Rightarrow> [] | Some v \<Rightarrow> v);
          code = get (tr_Code reqBody); verifier = get (tr_CodeVerifier reqBody);
          redirectUri = get (tr_RedirectUri reqBody)
      in if \<not> sv_authCodeGrantEnabled s
         then respond hs (SendError Global_NotImplemented ''authorization_code grant is disabled'')
         else if code = []
         then respond hs (SendError Global_BadRequest ''missing authorization code'')
         else if verifier = []
         then respond hs (SendError Global_BadRequest ''missing code_verifier'')
         else if redirectUri = []
         then respond hs (SendError Global_BadRequest ''missing redirect_uri'')
         else if tr_ClientId reqBody = []
         then respond hs (SendError Auth_InvalidClientCredentials ''missing client_id'')
         else if \<not> snd (Registry_Get (sv_ClientRegistry s) (tr_ClientId reqBody))
         then respond hs (SendError Auth_InvalidClientCredentials ''unknown client_id'')
         else call (GetAuthCode (sv_CacheClient s) code) (\<lambda>g.
           case g of
             Inl err \<Rightarrow> respond hs (SendError Auth_InvalidToken ''authorization code not found or expired'')
           | Inr entry \<Rightarrow>
               if ac_ClientID entry \<noteq> tr_ClientId reqBody
               then respond hs (SendError Auth_InvalidToken ''authorization code was not issued to this client'')
               else if ac_RedirectURI entry \<noteq> redirectUri
               then respond hs (SendError Auth_InvalidToken ''redirect_uri does not match'')
               else if \<not> verifyCodeChallenge (ac_CodeChallenge entry) verifier
               then respond hs (SendError Auth_InvalidToken ''code_verifier verification failed'')
               else call (DeleteAuthCode (sv_CacheClient s) code) (\<lambda>_.
                 call (exchange_banned s (ac_UserID entry)) (\<lambda>banned.
                   if banned
                   then respond hs (SendError Global_Forbidden ''account is not eligible for token issuance'')
                   else exchange_issue s (tr_ClientId reqBody) entry))))"

section \<open>The endpoint\<close>

definition OAuthTokenHandler :: "Service \<Rightarrow> http_in \<Rightarrow> response proc" where
  "OAuthTokenHandler s req =
     (let hs = json_no_store in
      case decodeTokenRequest req of
        Inl err \<Rightarrow> respond hs (SendError Global_BadRequest ''failed to parse request body'')
      | Inr reqBody \<Rightarrow>
          if tr_GrantType reqBody = []
          then respond hs (SendError Auth_UnsupportedGrantType ''missing grant type'')
          else if \<not> sdk_IsValidGrantType (sv_sdk s) (tr_GrantType reqBody)
          then respond hs (SendError Auth_UnsupportedGrantType ''unsupported grant type'')
          else if tr_GrantType reqBody = ''client_credentials'' then handleClientCredentials s reqBody
          else if tr_GrantType reqBody = ''refresh_token'' then handleRefreshToken s reqBody
          else if tr_GrantType reqBody = ''authorization_code'' then handleAuthorizationCode s reqBody
          else respond hs (SendError Auth_UnsupportedGrantType ''unsupported grant type''))"

end
