(* ===== verification/OAuthTokenLemmas.thy ===== *)
theory OAuthTokenLemmas
  imports OAuthToken
begin

text \<open>
  What the grants of the token endpoint do, grant by grant: when a token is issued, which
  checks have passed and what was signed; and what happens to the revocation entries.
\<close>

lemma issued_simps [simp]:
  "issued \<lparr>rs_Headers = hs, rs_Outcome = SendError e d\<rparr> = None"
  "issued \<lparr>rs_Headers = hs, rs_Outcome = Reply n (TokenBody t)\<rparr> = Some t"
  by (simp_all add: issued_def)

section \<open>Client credentials\<close>

lemma split_offline_fields:
  assumes "split_offline scopeStr = (sc, fs, off)"
  shows "strings_Fields sc = fs \<and> offline_access \<notin> set fs \<and>
    set fs = set (strings_Fields scopeStr) - {offline_access} \<and>
    off = (offline_access \<in> set (strings_Fields scopeStr))"
proof (cases "offline_access \<in> set (strings_Fields scopeStr)")
  case True
  let ?f = "filter (\<lambda>s. s \<noteq> offline_access) (strings_Fields scopeStr)"
  have "list_all is_field ?f" using Fields_are_fields by (auto simp: list_all_iff)
  then show ?thesis using assms True
    by (auto simp: split_offline_def Let_def Fields_Join)
next
  case False
  then show ?thesis using assms by (auto simp: split_offline_def Let_def)
qed

lemma cc_issue_issued:
  assumes "exec (cc_issue s cid rec sc fs off) E w = (r, w')" and "issued r = Some t"
  shows "token_for s (ts_AccessToken t) cid (token_audience rec) [] [] accessTokenTTL
       (if fs = [] then [] else serviceScopes cid fs) (fst (env_now E (w_rt w))) \<and>
     ts_Scope t = nonempty sc \<and> ts_ExpiresIn t = accessTokenTTL \<and>
     (\<forall>rt. ts_RefreshToken t = Some rt \<longrightarrow> off \<and>
        (\<exists>fam now. token_for s rt cid audienceService cid fam refreshTokenTTL (offline_access # fs) now))"
  using assms
  by (auto simp: cc_issue_def exec_call nonempty_def Let_def audienceService_def
      split: prod.splits sum.splits if_splits dest!: exec_s_SignToken exec_s_SignRefreshToken; blast)

definition requested_scope :: "TokenRequest \<Rightarrow> string" where
  "requested_scope rb = (case tr_Scope rb of None \<Rightarrow> [] | Some x \<Rightarrow> x)"

text \<open>The checks of the grant: \<open>Inl\<close> the answer that refuses, \<open>Inr\<close> the client's record.\<close>

definition cc_checks :: "Service \<Rightarrow> TokenRequest \<Rightarrow> outcome + ClientRecord" where
  "cc_checks s rb =
     (if tr_ClientId rb = [] \<or> tr_ClientSecret rb = []
      then Inl (SendError Auth_InvalidClientCredentials ''missing client credentials'')
      else case registered (sv_ClientRegistry s) (tr_ClientId rb) of
        None \<Rightarrow> Inl (SendError Auth_InvalidClientCredentials ''invalid client credentials'')
      | Some rec \<Rightarrow>
          if cr_SecretHash rec \<noteq> sha256_hex (tr_ClientSecret rb)
          then Inl (SendError Auth_InvalidClientCredentials ''invalid client credentials'')
          else
            (let sc = fst (split_offline (requested_scope rb)) in
             if sc \<noteq> [] \<and> \<not> sdk_IsValidScope (sv_sdk s) sc
             then Inl (SendError Auth_InvalidScope (''invalid scope: '' @ sc))
             else if sc \<noteq> [] \<and> \<not> HasScope rec sc
             then Inl (SendError Auth_InsufficientScope (''client not permitted to request scope: '' @ sc))
             else Inr rec))"

lemma HasScope_redact [simp]: "HasScope (redact rec) sc = HasScope rec sc"
  by (simp add: HasScope_def)

lemma token_audience_redact [simp]: "token_audience (redact rec) = token_audience rec"
  by (simp add: token_audience_def)

lemma cc_issue_redact: "cc_issue s cid (redact rec) sc fs off = cc_issue s cid rec sc fs off"
  by (simp add: cc_issue_def)

text \<open>The handler decides by the checks and then signs.\<close>

lemma handleClientCredentials_checks:
  "handleClientCredentials s rb =
     (case cc_checks s rb of
        Inl out \<Rightarrow> respond json_no_store out
      | Inr rec \<Rightarrow>
          (case split_offline (requested_scope rb) of (sc, fs, off) \<Rightarrow>
             cc_issue s (tr_ClientId rb) rec sc fs off))"
  by (auto simp: handleClientCredentials_def cc_checks_def ValidateAndGet_value requested_scope_def
      Let_def cc_issue_redact split: option.splits prod.splits)

lemma cc_checks_Inr:
  assumes "cc_checks s rb = Inr rec" and "split_offline (requested_scope rb) = (sc, fs, off)"
  shows "registered (sv_ClientRegistry s) (tr_ClientId rb) = Some rec \<and>
    cr_SecretHash rec = sha256_hex (tr_ClientSecret rb) \<and>
    (fs = [] \<or> ''*'' \<in> set (cr_AllowedScopes rec) \<or> set fs \<subseteq> set (cr_AllowedScopes rec))"
proof -
  have f: "strings_Fields sc = fs" using split_offline_fields [OF assms(2)] by simp
  have "sc = [] \<or> HasScope rec sc" and "registered (sv_ClientRegistry s) (tr_ClientId rb) = Some rec"
    "cr_SecretHash rec = sha256_hex (tr_ClientSecret rb)"
    using assms by (auto simp: cc_checks_def Let_def split: if_splits option.splits)
  then show ?thesis using f by (auto simp: HasScope_iff)
qed

section \<open>Signing\<close>

text \<open>The service can sign: it has an active key set with which the library never fails.\<close>

definition signs :: "Service \<Rightarrow> bool" where
  "signs s \<longleftrightarrow> (\<exists>k ks. sv_JWT s = Some k \<and> k_active k = Some ks \<and>
     (\<forall>c. \<exists>tok. gj_SignedString (sv_lib s) (ks_kid ks) c (ks_privateKey ks) = Inr tok))"

lemma signs_exec:
  assumes "signs s"
  shows "\<exists>tok w'. exec (s_SignToken s iss sub aud ttl scopes) E w = (Inr tok, w')"
    and "\<exists>tok w'. exec (s_SignRefreshToken s iss sub aud azp fam ttl scopes) E w = (Inr tok, w')"
proof -
  obtain k ks where k: "sv_JWT s = Some k" "k_active k = Some ks"
    and t: "\<And>c. \<exists>tok. gj_SignedString (sv_lib s) (ks_kid ks) c (ks_privateKey ks) = Inr tok"
    using assms unfolding signs_def by blast
  show "\<exists>tok w'. exec (s_SignToken s iss sub aud ttl scopes) E w = (Inr tok, w')"
    using k t by (auto simp: s_SignToken_def exec_SignToken exec_SignRefreshToken split: prod.split)
  show "\<exists>tok w'. exec (s_SignRefreshToken s iss sub aud azp fam ttl scopes) E w = (Inr tok, w')"
    using k t by (auto simp: s_SignRefreshToken_def exec_SignRefreshToken split: prod.split)
qed

section \<open>Calls that leave the cache alone\<close>

lemma no_redis_sign:
  "no_redis (s_SignToken s iss sub aud ttl scopes)"
  "no_redis (s_SignRefreshToken s iss sub aud azp fam ttl scopes)"
  "no_redis (s_ParseClaims s tok)" "no_redis (s_ValidateAndParseClaims s tok)"
  by (auto simp: s_SignToken_def s_SignRefreshToken_def SignToken_def SignTokenWithAZP_def
      SignRefreshToken_def s_ParseClaims_def ParseClaims_def s_ValidateAndParseClaims_def
      ValidateAndParseClaims_def parseValidated_def split: option.split sum.split)

lemma no_redis_svc: "no_redis (getOrRefreshSvcJWT s)"
  by (auto simp: getOrRefreshSvcJWT_def Let_def intro!: no_redis_call no_redis_sign split: sum.split)

lemma no_redis_user: "no_redis (GetUserByID S c uid tok)" "no_redis (GetUserCredentials c email tok)"
  by (auto simp: GetUserByID_def GetUserCredentials_def authorized_get_def intro!: no_redis_call
      split: sum.split)

lemma no_redis_banned_check: "no_redis (IsBanned S c email)"
  by (auto simp: IsBanned_def split: sum.split)

lemma no_redis_banned:
  "no_redis (isRefreshTokenUserBanned s scopes sub)" "no_redis (exchange_banned s uid)"
  by (auto simp: isRefreshTokenUserBanned_def exchange_banned_def Let_def
      intro!: no_redis_call no_redis_svc no_redis_user no_redis_banned_check
      split: option.split sum.split)

section \<open>The revocation check of a refresh\<close>

lemma revoked_claims_fields [simp]: "revoked_in L [] = False" "family_revoked_in L [] = False"
  by (simp_all add: revoked_in_def family_revoked_in_def)

context kv_store
begin

text \<open>It fails closed: it lets a token through only when the store said it is not revoked.\<close>

lemma revocation_passed:
  assumes "env_cache E = api" and "cc_api (sv_CacheClient s) \<noteq> None"
    and "exec (refreshRevocationDenied s c) E w = (None, w')"
  shows "\<not> revoked_in (live (w_redis w)) (cl_ID c) \<and>
    \<not> family_revoked_in (live (w_redis w)) (cl_FamilyId c) \<and>
    live (w_redis w') = live (w_redis w)"
proof -
  let ?f = "if cl_FamilyId c \<noteq> [] then
      call (IsFamilyRevoked (sv_CacheClient s) (cl_FamilyId c)) (\<lambda>r.
        case r of Inl err \<Rightarrow> Ret (Some (SendError Global_Internal ''revocation check unavailable''))
        | Inr b \<Rightarrow> if b then Ret (Some (SendError Auth_InvalidToken ''refresh token has been revoked''))
            else Ret None)
     else Ret None"
  have fam: "\<not> family_revoked_in (live (w_redis v)) (cl_FamilyId c) \<and> live (w_redis v') = live (w_redis v)"
    if "exec ?f E v = (None, v')" for v v'
    using that IsFamilyRevoked_exec [OF assms(1,2), of "cl_FamilyId c" v]
    by (auto simp: exec_call split: if_splits prod.splits sum.splits)
  show ?thesis
  proof (cases "cl_ID c = []")
    case True
    then show ?thesis using assms(3) fam [of w w'] by (simp add: refreshRevocationDenied_def Let_def)
  next
    case False
    obtain r w1 where r: "exec (IsRevoked (sv_CacheClient s) (cl_ID c)) E w = (r, w1)" by fastforce
    from IsRevoked_exec [OF assms(1,2) r] have l: "live (w_redis w1) = live (w_redis w)"
      "\<And>b. r = Inr b \<Longrightarrow> b = revoked_in (live (w_redis w)) (cl_ID c)" by auto
    have "r = Inr False \<and> exec ?f E w1 = (None, w')"
      using assms(3) False r
      by (auto simp: refreshRevocationDenied_def Let_def exec_call split: if_splits sum.splits option.splits prod.splits)
    then show ?thesis using l fam [of w1 w'] by auto
  qed
qed

end

context kv_reliable
begin

text \<open>On a store that answers, a revoked token is refused and its family revoked with it.\<close>

lemma revocation_denied:
  assumes "env_cache E = api" and "cc_api (sv_CacheClient s) \<noteq> None" and "ok (w_redis w)"
    and "revoked_in (live (w_redis w)) (cl_ID c) \<or> family_revoked_in (live (w_redis w)) (cl_FamilyId c)"
  shows "\<exists>w'. exec (refreshRevocationDenied s c) E w
      = (Some (SendError Auth_InvalidToken ''refresh token has been revoked''), w') \<and> ok (w_redis w') \<and>
    live (w_redis w') =
      (if revoked_in (live (w_redis w)) (cl_ID c) \<and> cl_FamilyId c \<noteq> [] \<and>
          (\<exists>e. cl_ExpiresAt c = Some e \<and> fst (env_now E (w_rt w)) < e * second_ns)
       then (live (w_redis w))(revokedFamilyKey @ cl_FamilyId c \<mapsto> sentinel) else live (w_redis w))"
proof -
  let ?cc = "sv_CacheClient s"
  obtain s1 where r: "exec (IsRevoked ?cc (cl_ID c)) E w
      = (Inr (revoked_in (live (w_redis w)) (cl_ID c)), w\<lparr>w_redis := s1\<rparr>)"
    and s1: "ok s1" "live s1 = live (w_redis w)"
    using IsRevoked_eq [OF assms(1,2,3)] by blast
  obtain now rt where n: "env_now E (w_rt w) = (now, rt)" by fastforce
  show ?thesis
  proof (cases "revoked_in (live (w_redis w)) (cl_ID c)")
    case True
    then have id: "cl_ID c \<noteq> []" by (auto simp: revoked_in_def)
    show ?thesis
    proof (cases "cl_FamilyId c \<noteq> [] \<and> (\<exists>e. cl_ExpiresAt c = Some e \<and> now < e * second_ns)")
      case F: True
      then obtain e where e: "cl_ExpiresAt c = Some e" "now < e * second_ns" "cl_FamilyId c \<noteq> []" by blast
      let ?w = "w\<lparr>w_redis := s1, w_rt := rt\<rparr>"
      obtain s2 where "exec (StoreRevokedFamily ?cc (cl_FamilyId c) (e * second_ns - now)) E ?w
          = (None, ?w\<lparr>w_redis := s2\<rparr>)" "ok s2"
        "live s2 = (live s1)(revokedFamilyKey @ cl_FamilyId c \<mapsto> sentinel)"
        using StoreRevokedFamily_eq [OF assms(1,2), of ?w "cl_FamilyId c" "e * second_ns - now"] s1 e by auto
      then show ?thesis using id r n s1 e True
        by (auto simp: refreshRevocationDenied_def Let_def exec_call)
    next
      case False
      then show ?thesis using id r n s1 True
        by (auto simp: refreshRevocationDenied_def Let_def exec_call split: option.split)
    qed
  next
    case False
    then have f: "family_revoked_in (live (w_redis w)) (cl_FamilyId c)" using assms(4) by simp
    then have ne: "cl_FamilyId c \<noteq> []" by (auto simp: family_revoked_in_def)
    obtain s2 where "exec (IsFamilyRevoked ?cc (cl_FamilyId c)) E w = (Inr True, w\<lparr>w_redis := s2\<rparr>)"
      "ok s2" "live s2 = live (w_redis w)"
      using IsFamilyRevoked_eq [OF assms(1,2,3), of "cl_FamilyId c"] f by auto
    moreover obtain s3 where "exec (IsFamilyRevoked ?cc (cl_FamilyId c)) E (w\<lparr>w_redis := s1\<rparr>)
        = (Inr True, w\<lparr>w_redis := s3\<rparr>)" "ok s3" "live s3 = live (w_redis w)"
      using IsFamilyRevoked_eq [OF assms(1,2), of "w\<lparr>w_redis := s1\<rparr>" "cl_FamilyId c"] f s1 by auto
    ultimately show ?thesis using False r ne
      by (cases "cl_ID c = []") (auto simp: refreshRevocationDenied_def Let_def exec_call)
  qed
qed

text \<open>A token that is not revoked passes, and the store is as before.\<close>

lemma revocation_allowed:
  assumes "env_cache E = api" and "cc_api (sv_CacheClient s) \<noteq> None" and "ok (w_redis w)"
    and "\<not> revoked_in (live (w_redis w)) (cl_ID c)" and "\<not> family_revoked_in (live (w_redis w)) (cl_FamilyId c)"
  shows "\<exists>r. exec (refreshRevocationDenied s c) E w = (None, w\<lparr>w_redis := r\<rparr>) \<and> ok r \<and>
    live r = live (w_redis w)"
proof -
  let ?cc = "sv_CacheClient s"
  have fam: "\<exists>r. exec (if cl_FamilyId c \<noteq> [] then
      call (IsFamilyRevoked ?cc (cl_FamilyId c)) (\<lambda>r.
        case r of Inl err \<Rightarrow> Ret (Some (SendError Global_Internal ''revocation check unavailable''))
        | Inr b \<Rightarrow> if b then Ret (Some (SendError Auth_InvalidToken ''refresh token has been revoked''))
            else Ret None)
     else Ret None) E v = (None, v\<lparr>w_redis := r\<rparr>) \<and> ok r \<and> live r = live (w_redis v)"
    if v: "ok (w_redis v)" "live (w_redis v) = live (w_redis w)" for v
  proof (cases "cl_FamilyId c = []")
    case True
    then show ?thesis using v by (auto intro!: exI [of _ "w_redis v"])
  next
    case False
    then show ?thesis using IsFamilyRevoked_eq [OF assms(1,2) v(1), of "cl_FamilyId c"] v assms(5)
      by (auto simp: exec_call)
  qed
  show ?thesis
  proof (cases "cl_ID c = []")
    case True
    then show ?thesis using fam [of w] assms(3) by (simp add: refreshRevocationDenied_def Let_def)
  next
    case False
    obtain s1 where "exec (IsRevoked ?cc (cl_ID c)) E w = (Inr False, w\<lparr>w_redis := s1\<rparr>)"
      "ok s1" "live s1 = live (w_redis w)"
      using IsRevoked_eq [OF assms(1,2,3), of "cl_ID c"] assms(4) by auto
    then show ?thesis using fam [of "w\<lparr>w_redis := s1\<rparr>"] False
      by (auto simp: refreshRevocationDenied_def Let_def exec_call)
  qed
qed

end

end
