(* ===== verification/LocalEnv.thy ===== *)
theory LocalEnv
  imports CacheClient
begin

text \<open>
  A concrete environment in which programs are evaluated: the store of \<open>TtlStore\<close>, HTTP and
  DynamoDB peers that answer from a script, a clock that stands still, numbered UUIDs and a
  scripted random source. It shows that the hypotheses of the properties can be met.
\<close>

record peers =
  pe_http :: "http_reply res list"
  pe_ddb :: "bannedRecord res list"

record runtime =
  rt_now :: int
  rt_uuid :: nat
  rt_rand :: "nat list"

definition local_http :: "http_request \<Rightarrow> peers \<Rightarrow> http_reply res \<times> peers" where
  "local_http q p =
     (case pe_http p of
        [] \<Rightarrow> (Inl (Errorf ''connection refused''), p)
      | r # rs \<Rightarrow> (r, p\<lparr>pe_http := rs\<rparr>))"

definition local_ddb_get :: "string \<Rightarrow> ddb_key \<Rightarrow> peers \<Rightarrow> bannedRecord res \<times> peers" where
  "local_ddb_get t k p =
     (case pe_ddb p of
        [] \<Rightarrow> (Inl (Sentinel ''ErrNotFound''), p)
      | r # rs \<Rightarrow> (r, p\<lparr>pe_ddb := rs\<rparr>))"

definition local_uuid :: "runtime \<Rightarrow> string \<times> runtime" where
  "local_uuid s = (''uuid-'' @ format_nat (rt_uuid s), s\<lparr>rt_uuid := Suc (rt_uuid s)\<rparr>)"

definition local_rand_int :: "nat \<Rightarrow> runtime \<Rightarrow> nat res \<times> runtime" where
  "local_rand_int m s =
     (case rt_rand s of
        [] \<Rightarrow> (Inl (Errorf ''entropy exhausted''), s)
      | n # ns \<Rightarrow> if n < m then (Inr n, s\<lparr>rt_rand := ns\<rparr>)
                  else (Inl (Errorf ''entropy exhausted''), s))"

definition local_rand_read :: "nat \<Rightarrow> runtime \<Rightarrow> string res \<times> runtime" where
  "local_rand_read m s = (Inr (replicate m (char_of (65 + rt_uuid s))), s\<lparr>rt_uuid := Suc (rt_uuid s)\<rparr>)"

definition local_env :: "(ttl_store, peers, runtime) env" where
  "local_env = \<lparr>env_cache = ttl_api, env_http = local_http, env_ddb_get = local_ddb_get,
     env_ddb_describe = (\<lambda>t p. (Inr (), p)), env_now = (\<lambda>s. (rt_now s, s)),
     env_uuid = local_uuid, env_rand_int = local_rand_int, env_rand_read = local_rand_read\<rparr>"

definition local_world ::
  "(string \<Rightarrow> (string \<times> int option) option) \<Rightarrow> http_reply res list \<Rightarrow> int \<Rightarrow>
     (ttl_store, peers, runtime) world" where
  "local_world entries replies now =
     \<lparr>w_redis = \<lparr>ts_entries = entries, ts_faults = []\<rparr>,
      w_http = \<lparr>pe_http = replies, pe_ddb = []\<rparr>,
      w_rt = \<lparr>rt_now = now, rt_uuid = 0, rt_rand = [123456, 42, 999999]\<rparr>,
      w_svc = ([], 0), w_sem = 0, w_emails = [], w_jwks = None\<rparr>"

definition local_client :: CacheClient where
  "local_client = \<lparr>cc_api = Some ()\<rparr>"

lemmas local_defs = local_env_def local_world_def local_client_def local_http_def
  local_ddb_get_def local_uuid_def local_rand_int_def local_rand_read_def

lemma local_cache [simp]: "env_cache local_env = ttl_api"
  by (simp add: local_env_def)

lemma local_client_api [simp]: "cc_api local_client \<noteq> None"
  by (simp add: local_client_def)

lemma local_redis_ok [simp]: "ttl_ok (w_redis (local_world m rs now))"
  by (simp add: local_world_def ttl_ok_def)

text \<open>The contract of the operations in terms of the environment's cache.\<close>

lemma local_redis: "redis (env_cache local_env) ttl_live ttl_left ttl_elapse"
  using ttl.redis_axioms by simp

lemma local_kv_reliable: "kv_reliable (env_cache local_env) ttl_live ttl_ok"
  using ttl.kv_reliable_axioms by simp

lemma local_kv_store: "kv_store (env_cache local_env) ttl_live"
  using ttl.kv_store_axioms by simp

text \<open>The clock of this environment stands still, and its store never starts to fail.\<close>

lemma local_clock: "clock_ok local_env rt_now"
  by (auto simp: clock_ok_def local_defs split: list.splits if_splits)

lemma local_step:
  "step_proc local_env q v = (q', v') \<Longrightarrow> rt_now (w_rt v') = rt_now (w_rt v) \<and>
     (ttl_ok (w_redis v) \<longrightarrow> ttl_ok (w_redis v'))"
  by (cases q) (auto simp: local_defs ttl_defs ttl_ok_def
      split: list.splits if_splits option.splits sum.splits prod.splits fault.splits)

lemma local_exec:
  assumes "exec p local_env w = (a, w')"
  shows "rt_now (w_rt w') = rt_now (w_rt w) \<and> (ttl_ok (w_redis w) \<longrightarrow> ttl_ok (w_redis w'))"
  by (rule exec_invariant [where P = "\<lambda>v. rt_now (w_rt v) = rt_now (w_rt w) \<and>
      (ttl_ok (w_redis w) \<longrightarrow> ttl_ok (w_redis v))", OF _ assms]) (auto dest: local_step)

end
