(* ===== verification/LocalService.thy ===== *)
theory LocalService
  imports LocalEnv Service
begin

text \<open>
  A concrete JWT library and a concrete service, in which the properties of the handlers are
  evaluated. A token is the JSON text of its header's \<open>kid\<close>, its claims and the key it was
  signed with; parsing accepts exactly the texts that signing makes. It satisfies the laws the
  development assumes of the real library.
\<close>

section \<open>Claims as text\<close>

definition int_json :: "int \<Rightarrow> json" where
  "int_json i = JArr [JBool (i < 0), JStr (format_nat (nat \<bar>i\<bar>))]"

fun int_of_json :: "json \<Rightarrow> int option" where
  "int_of_json (JArr [JBool neg, JStr s]) =
     map_option (\<lambda>n. if neg then - int n else int n) (parse_digits 0 s)"
| "int_of_json _ = None"

definition opt_json :: "int option \<Rightarrow> json" where
  "opt_json o' = (case o' of None \<Rightarrow> JNull | Some i \<Rightarrow> int_json i)"

definition opt_of_json :: "json \<Rightarrow> int option option" where
  "opt_of_json v = (case v of JNull \<Rightarrow> Some None | _ \<Rightarrow> map_option Some (int_of_json v))"

fun strings_of :: "json list \<Rightarrow> string list option" where
  "strings_of [] = Some []"
| "strings_of (JStr s # vs) = map_option ((#) s) (strings_of vs)"
| "strings_of (v # vs) = None"

definition claims_json :: "CustomClaims \<Rightarrow> json" where
  "claims_json c = JArr [JArr (map JStr (cl_Scopes c)), JStr (cl_Azp c), JStr (cl_FamilyId c),
     JStr (cl_Issuer c), JStr (cl_Subject c), JArr (map JStr (cl_Audience c)),
     opt_json (cl_ExpiresAt c), opt_json (cl_NotBefore c), opt_json (cl_IssuedAt c), JStr (cl_ID c)]"

definition as_str :: "json \<Rightarrow> string option" where
  "as_str v = (case v of JStr x \<Rightarrow> Some x | _ \<Rightarrow> None)"

definition as_arr :: "json \<Rightarrow> json list option" where
  "as_arr v = (case v of JArr vs \<Rightarrow> Some vs | _ \<Rightarrow> None)"

definition claims_of_json :: "json \<Rightarrow> CustomClaims option" where
  "claims_of_json v =
     Option.bind (as_arr v) (\<lambda>vs. if length vs \<noteq> 10 then None else
     Option.bind (Option.bind (as_arr (vs ! 0)) strings_of) (\<lambda>sc.
     Option.bind (as_str (vs ! 1)) (\<lambda>az.
     Option.bind (as_str (vs ! 2)) (\<lambda>fa.
     Option.bind (as_str (vs ! 3)) (\<lambda>is.
     Option.bind (as_str (vs ! 4)) (\<lambda>su.
     Option.bind (Option.bind (as_arr (vs ! 5)) strings_of) (\<lambda>au.
     Option.bind (opt_of_json (vs ! 6)) (\<lambda>e.
     Option.bind (opt_of_json (vs ! 7)) (\<lambda>n.
     Option.bind (opt_of_json (vs ! 8)) (\<lambda>i.
     Option.bind (as_str (vs ! 9)) (\<lambda>j.
       Some \<lparr>cl_Scopes = sc, cl_Azp = az, cl_FamilyId = fa, cl_Issuer = is, cl_Subject = su,
             cl_Audience = au, cl_ExpiresAt = e, cl_NotBefore = n, cl_IssuedAt = i, cl_ID = j\<rparr>)))))))))))"

definition key_json :: "PrivateKey \<Rightarrow> json" where
  "key_json sk = JArr [int_json (int (pk_N (sk_Public sk))), int_json (int (pk_E (sk_Public sk))),
     int_json (int (sk_D sk))]"

definition key_of_json :: "json \<Rightarrow> PrivateKey option" where
  "key_of_json v =
     Option.bind (as_arr v) (\<lambda>vs. if length vs \<noteq> 3 then None else
     Option.bind (int_of_json (vs ! 0)) (\<lambda>n.
     Option.bind (int_of_json (vs ! 1)) (\<lambda>e.
     Option.bind (int_of_json (vs ! 2)) (\<lambda>d.
       Some \<lparr>sk_Public = \<lparr>pk_N = nat n, pk_E = nat e\<rparr>, sk_D = nat d\<rparr>))))"

definition token_json :: "string \<Rightarrow> CustomClaims \<Rightarrow> PrivateKey \<Rightarrow> json" where
  "token_json kid c sk = JArr [JStr (to_valid kid), claims_json (valid_claims c), key_json sk]"

definition local_sign :: "string \<Rightarrow> CustomClaims \<Rightarrow> PrivateKey \<Rightarrow> string" where
  "local_sign kid c sk = print_value (token_json kid c sk)"

definition check_claims :: "ParserOptions \<Rightarrow> int \<Rightarrow> CustomClaims \<Rightarrow> goerror option" where
  "check_claims opts now c =
     (if \<not> dates_valid now c then Some (Sentinel ''ErrTokenExpired'')
      else if \<not> opts_valid opts c then Some (Sentinel ''ErrTokenInvalidIssuer'')
      else if ''RS256'' \<notin> set (po_ValidMethods opts) then Some (Sentinel ''ErrTokenSignatureInvalid'')
      else None)"

definition split_token :: "string \<Rightarrow> (string \<times> CustomClaims \<times> PrivateKey) option" where
  "split_token tok =
     (case Unmarshal tok of Inl e \<Rightarrow> None | Inr v \<Rightarrow>
        Option.bind (as_arr v) (\<lambda>vs. if length vs \<noteq> 3 then None else
        Option.bind (as_str (vs ! 0)) (\<lambda>kid.
        Option.bind (claims_of_json (vs ! 1)) (\<lambda>c.
        Option.bind (key_of_json (vs ! 2)) (\<lambda>sk.
          if local_sign kid c sk = tok then Some (kid, c, sk) else None)))))"

definition local_parse ::
  "string \<Rightarrow> (TokenHeader \<Rightarrow> PublicKey res) \<Rightarrow> ParserOptions \<Rightarrow> int \<Rightarrow> ParsedToken res" where
  "local_parse tok kf opts now =
     (case split_token tok of
        None \<Rightarrow> Inl (Sentinel ''ErrTokenMalformed'')
      | Some (kid, c, sk) \<Rightarrow>
          (case kf (rs256_header kid) of
             Inl e \<Rightarrow> Inl (Join ''token is unverifiable'' [Sentinel ''ErrTokenUnverifiable'', e])
           | Inr pk \<Rightarrow>
               if pk \<noteq> sk_Public sk then Inl (Sentinel ''ErrTokenSignatureInvalid'')
               else (case check_claims opts now c of
                       Some e \<Rightarrow> Inl e
                     | None \<Rightarrow> Inr \<lparr>tk_Claims = c, tk_Valid = True\<rparr>)))"

definition local_pem :: "string \<Rightarrow> PublicKey" where
  "local_pem pem = \<lparr>pk_N = length pem, pk_E = 65537\<rparr>"

definition local_jwt :: jwt_lib where
  "local_jwt =
     \<lparr>gj_ParseRSAPrivateKeyFromPEM = (\<lambda>pem. Inr \<lparr>sk_Public = local_pem pem, sk_D = 3\<rparr>),
      gj_ParseRSAPublicKeyFromPEM = (\<lambda>pem. Inr (local_pem pem)),
      gj_SignedString = (\<lambda>kid c sk. Inr (local_sign kid c sk)),
      gj_ParseWithClaims = local_parse\<rparr>"

section \<open>The laws\<close>

lemma int_round [simp]: "int_of_json (int_json i) = Some i"
  by (auto simp: int_json_def parse_format_nat)

lemma opt_round [simp]: "opt_of_json (opt_json x) = Some x"
  by (cases x) (auto simp: opt_json_def opt_of_json_def int_json_def parse_format_nat)

lemma strings_round [simp]: "strings_of (map JStr ss) = Some ss"
  by (induction ss) auto

lemma as_simps [simp]: "as_str (JStr x) = Some x" "as_arr (JArr vs) = Some vs"
  by (simp_all add: as_str_def as_arr_def)

lemma claims_round [simp]: "claims_of_json (claims_json c) = Some c"
  by (simp add: claims_json_def claims_of_json_def)

lemma key_round [simp]: "key_of_json (key_json sk) = Some sk"
  by (simp add: key_json_def key_of_json_def)

lemma format_nat_ascii: "to_valid (format_nat n) = format_nat n"
proof -
  have "(of_char (digit_char d) :: nat) < 0x80" if "d < 10" for d
    using that by (simp add: digit_char_def of_char_of)
  then show ?thesis
    by (intro to_valid_ascii) (use format_nat_digits [of _ n] in \<open>auto simp: list_all_iff\<close>)
qed

lemma int_json_ok [simp]: "1 \<le> d \<Longrightarrow> json_ok d (int_json i)"
  by (simp add: int_json_def format_nat_ascii)

lemma opt_json_ok [simp]: "1 \<le> d \<Longrightarrow> json_ok d (opt_json x)"
  by (cases x) (auto simp: opt_json_def)

lemma token_json_ok: "json_ok maxNestingDepth (token_json kid c sk)"
  by (simp add: token_json_def claims_json_def key_json_def valid_claims_def maxNestingDepth_def
      list_all_iff)

lemma Unmarshal_sign: "Unmarshal (local_sign kid c sk) = Inr (token_json kid c sk)"
  by (simp add: local_sign_def Unmarshal_print token_json_ok)

lemma valid_claims_idem [simp]: "valid_claims (valid_claims c) = valid_claims c"
  by (simp add: valid_claims_def)

lemma local_sign_valid [simp]: "local_sign (to_valid kid) (valid_claims c) sk = local_sign kid c sk"
  by (simp add: local_sign_def token_json_def)

lemma local_parse_sign:
  "local_parse (local_sign kid c sk) kf opts now =
     (case kf (rs256_header (to_valid kid)) of
        Inl e \<Rightarrow> Inl (Join ''token is unverifiable'' [Sentinel ''ErrTokenUnverifiable'', e])
      | Inr pk \<Rightarrow>
          if pk \<noteq> sk_Public sk then Inl (Sentinel ''ErrTokenSignatureInvalid'')
          else (case check_claims opts now (valid_claims c) of
                  Some e \<Rightarrow> Inl e
                | None \<Rightarrow> Inr \<lparr>tk_Claims = valid_claims c, tk_Valid = True\<rparr>))"
proof -
  have "split_token (local_sign kid c sk) = Some (to_valid kid, valid_claims c, sk)"
    by (simp add: split_token_def Unmarshal_sign) (simp add: token_json_def)
  then show ?thesis by (simp add: local_parse_def)
qed

lemma valid_claims_dates [simp]: "dates_valid now (valid_claims c) = dates_valid now c"
  by (simp add: dates_valid_def valid_claims_def)

lemma local_jwt_complete: "jwt_complete local_jwt"
  by (auto simp: jwt_complete_def local_jwt_def local_parse_sign check_claims_def)

lemma split_token_sign: "split_token tok = Some (kid, c, sk) \<Longrightarrow> local_sign kid c sk = tok"
  by (auto simp: split_token_def bind_eq_Some_conv split: sum.splits if_splits)

lemma local_parse_Inr:
  assumes "local_parse tok kf opts now = Inr t"
  shows "\<exists>kid c sk. tok = local_sign kid c sk \<and> tk_Claims t = valid_claims c \<and>
    kf (rs256_header (to_valid kid)) = Inr (sk_Public sk) \<and>
    check_claims opts now (tk_Claims t) = None \<and> tk_Valid t"
proof -
  obtain kid c sk where "split_token tok = Some (kid, c, sk)"
    using assms by (auto simp: local_parse_def split: option.splits)
  then have tok: "tok = local_sign kid c sk" by (simp add: split_token_sign)
  show ?thesis
    using assms unfolding tok local_parse_sign
    by (auto split: sum.splits if_splits option.splits intro!: exI [of _ kid] exI [of _ c] exI [of _ sk])
qed

lemma local_jwt_sound: "jwt_sound local_jwt"
proof -
  have "tk_Valid t \<and> dates_valid now (tk_Claims t) \<and> opts_valid opts (tk_Claims t) \<and>
     (\<exists>kid c sk. gj_SignedString local_jwt kid c sk = Inr tok \<and> tk_Claims t = valid_claims c \<and>
        kf (rs256_header (to_valid kid)) = Inr (sk_Public sk))"
    if "gj_ParseWithClaims local_jwt tok kf opts now = Inr t" for tok kf opts now t
    using local_parse_Inr [of tok kf opts now t] that
    by (auto simp: local_jwt_def check_claims_def split: if_splits)
  then show ?thesis unfolding jwt_sound_def by blast
qed

lemma local_jwt_payload: "jwt_payload local_jwt"
  by (auto simp: jwt_payload_def local_jwt_def local_parse_sign split: sum.splits if_splits option.splits)

section \<open>A service\<close>

definition local_sdk :: sdk where
  "local_sdk =
     \<lparr>sdk_IsValidGrantType = (\<lambda>g. g \<in> {''client_credentials'', ''refresh_token'', ''authorization_code''}),
      sdk_IsValidScope = (\<lambda>s. True), sdk_BuildKey = (\<lambda>k v. Inr [(k, v)]),
      sdk_ParseAddress = (\<lambda>a. if CHR ''@'' \<in> set a then Inr () else Inl (Errorf ''mail: missing @'')),
      sdk_Email_UnmarshalJSON = (\<lambda>v. case v of JStr s \<Rightarrow> Inr s | _ \<Rightarrow> Inl type_error),
      sdk_Email_MarshalJSON = (\<lambda>s. Inr (JStr s))\<rparr>"

definition local_keyset :: keyset where
  "local_keyset = \<lparr>ks_privateKey = \<lparr>sk_Public = local_pem ''pem'', sk_D = 3\<rparr>,
     ks_publicKey = local_pem ''pem'', ks_kid = ''k1'', ks_iss = ''komodo-auth-api'',
     ks_aud = ''komodo-apis:user''\<rparr>"

definition local_keys :: Keys where
  "local_keys = \<lparr>k_active = Some local_keyset, k_previous = None\<rparr>"

definition local_record :: ClientRecord where
  "local_record = \<lparr>cr_Name = ''Orders'', cr_SecretHash = sha256_hex ''s3cret'',
     cr_AllowedScopes = [''orders:read'', ''orders:write''], cr_AllowedAudiences = [],
     cr_AllowedRedirectURIs = [''https://app.example/cb'']\<rparr>"

definition local_registry :: "Registry option" where
  "local_registry = Some \<lparr>reg_ptr = Some [''orders'' \<mapsto> local_record]\<rparr>"

definition local_service :: Service where
  "local_service =
     \<lparr>sv_lib = local_jwt, sv_sdk = local_sdk,
      sv_HttpClient = Some \<lparr>hc_CommsBaseURL = ''http://comms'', hc_CustomerBaseURL = ''http://customer''\<rparr>,
      sv_CacheClient = local_client, sv_BannedChecker = None, sv_BannedReachability = None,
      sv_JWT = Some local_keys, sv_ClientRegistry = local_registry, sv_authCodeGrantEnabled = True\<rparr>"

lemma local_registered [simp]:
  "registered local_registry cid = (if cid = ''orders'' then Some local_record else None)"
  by (simp add: registered_def local_registry_def)

lemma local_service_fields [simp]:
  "sv_lib local_service = local_jwt" "sv_sdk local_service = local_sdk"
  "sv_CacheClient local_service = local_client" "sv_JWT local_service = Some local_keys"
  "sv_ClientRegistry local_service = local_registry" "sv_BannedChecker local_service = None"
  "sv_authCodeGrantEnabled local_service"
  by (simp_all add: local_service_def)

lemma local_keys_ready: "keys_ready local_keys"
  by (simp add: keys_ready_def local_keys_def)

lemma local_keyset_usable: "usable_key local_keys local_keyset"
  by (simp add: usable_key_def local_keys_def local_keyset_def to_valid_ascii)

text \<open>Signing always succeeds here; the clock stands still and UUIDs are numbered.\<close>

lemma local_own_token: "own_token local_service tok c \<longleftrightarrow> tok = local_sign ''k1'' c (ks_privateKey local_keyset)"
  by (auto simp: own_token_def local_keys_def local_jwt_def local_keyset_def)

lemma local_sign_nonempty [simp]: "local_sign kid c sk \<noteq> []"
  by (simp add: local_sign_def token_json_def)

lemma local_now [simp]: "env_now local_env = (\<lambda>s. (rt_now s, s))"
  by (simp add: local_env_def)

lemma local_uuid_env [simp]: "env_uuid local_env = local_uuid"
  by (simp add: local_env_def)

lemma exec_local_SignRefreshToken:
  "exec (s_SignRefreshToken local_service iss sub aud azp fam ttl scopes) local_env w =
     (Inr (local_sign ''k1'' (refresh_claims iss sub aud azp fam ttl scopes (rt_now (w_rt w))
        (rt_now (w_rt w)) (rt_now (w_rt w)) (fst (local_uuid (w_rt w)))) (ks_privateKey local_keyset)),
      w\<lparr>w_rt := snd (local_uuid (w_rt w))\<rparr>)"
  by (simp add: s_SignRefreshToken_def exec_SignRefreshToken local_keys_def local_jwt_def local_keyset_def
      split: prod.split)

lemma exec_local_SignToken:
  "exec (s_SignToken local_service iss sub aud ttl scopes) local_env w =
     exec (s_SignRefreshToken local_service iss sub aud [] [] ttl scopes) local_env w"
  by (simp add: s_SignToken_def s_SignRefreshToken_def exec_SignToken local_keys_def)

end
