(* ===== verification/LocalOAuth.thy ===== *)
theory LocalOAuth
  imports OAuthTokenLemmas LocalService
begin

text \<open>The concrete service at the token endpoint: it can sign, and its cache is the concrete store.\<close>

lemma local_signs: "signs local_service"
  by (auto simp: signs_def local_keys_def local_jwt_def)

text \<open>A JSON request.\<close>

definition local_request :: "json \<Rightarrow> http_in" where
  "local_request v = \<lparr>in_ContentType = ''application/json'', in_Authorization = [], in_RawQuery = [],
     in_Body = print_value v, in_PathID = [], in_UserID = [], in_Scopes = []\<rparr>"

lemma local_request_fields [simp]:
  "in_Body (local_request v) = print_value v" "in_Authorization (local_request v) = []"
  by (simp_all add: local_request_def)

lemma local_no_basic [simp]: "BasicAuth (local_request v) = None"
  by (simp add: BasicAuth_def)

section \<open>ASCII texts\<close>

text \<open>The text of a value whose strings are ASCII is ASCII.\<close>

definition is_ascii :: "string \<Rightarrow> bool" where
  "is_ascii s \<longleftrightarrow> list_all (\<lambda>c. (of_char c :: nat) < 0x80) s"

lemma is_ascii_simps [simp]:
  "is_ascii []" "is_ascii (c # s) \<longleftrightarrow> (of_char c :: nat) < 0x80 \<and> is_ascii s"
  "is_ascii (s @ t) \<longleftrightarrow> is_ascii s \<and> is_ascii t"
  by (simp_all add: is_ascii_def)

lemma is_ascii_valid: "is_ascii s \<Longrightarrow> to_valid s = s"
  by (simp add: is_ascii_def to_valid_ascii)

fun json_ascii :: "json \<Rightarrow> bool" where
  "json_ascii (JNum n) = is_ascii n"
| "json_ascii (JStr s) = is_ascii s"
| "json_ascii (JArr vs) = list_all json_ascii vs"
| "json_ascii (JObj ms) = list_all (\<lambda>m. is_ascii (fst m) \<and> json_ascii (snd m)) ms"
| "json_ascii _ = True"

lemma hex_digit_ascii [simp]: "d < 16 \<Longrightarrow> (of_char (hex_digit d) :: nat) < 0x80"
  by (simp add: hex_digit_def of_char_of)

lemma escape_ascii_ascii: "(of_char c :: nat) < 0x80 \<Longrightarrow> is_ascii (escape_ascii c)"
  by (simp add: escape_ascii_def Let_def)

lemma quote_is_ascii [simp]: "is_ascii s \<Longrightarrow> is_ascii (quote s)"
proof -
  have "is_ascii s \<Longrightarrow> is_ascii (escape s)" for s
    by (induction s) (auto simp: escape.simps escape_ascii_ascii)
  then show "is_ascii s \<Longrightarrow> is_ascii (quote s)" by (simp add: quote_def)
qed

lemma print_ascii:
  "json_ascii v \<Longrightarrow> is_ascii (print_value v)"
  "list_all json_ascii vs \<Longrightarrow> is_ascii (print_elems vs)"
  "list_all (\<lambda>m. is_ascii (fst m) \<and> json_ascii (snd m)) ms \<Longrightarrow> is_ascii (print_members ms)"
  by (induction v and vs and ms rule: print_value_print_elems_print_members.induct) auto

lemma int_json_ascii [simp]: "json_ascii (int_json i)"
proof -
  have "is_ascii (format_nat n)" for n
  proof (induction n rule: format_nat.induct)
    case (1 n)
    have "n mod 10 < 80" by (rule less_trans [of _ 10]) simp_all
    then show ?case using 1 by (subst format_nat.simps) (auto simp: digit_char_def of_char_of)
  qed
  then show ?thesis by (simp add: int_json_def)
qed

end
