(* ===== verification/GrantProps.thy ===== *)
theory GrantProps
  imports LocalOAuth
begin

text \<open>
  Properties of the client-credentials grant: who is issued a token and what it carries, and
  the answer on every refusal.
\<close>

section \<open>Client credentials\<close>

text \<open>C1: A client-credentials token is issued only to a registered client that presented its
  secret, and only for scopes the client is allowed. The access token's subject is the client,
  it lives one hour, has the client's only audience (or the service audience), and carries the
  requested scopes and the client's own \<open>svc:\<close> scope; a refresh token is issued only on a
  request for \<open>offline_access\<close>, bound to the client, for the same scopes.\<close>

theorem client_credentials_grant:
  assumes "exec (handleClientCredentials s rb) E w = (r, w')" and "issued r = Some t"
    and "fs = filter (\<lambda>sc. sc \<noteq> offline_access) (strings_Fields (requested_scope rb))"
  shows "\<exists>rec. registered (sv_ClientRegistry s) (tr_ClientId rb) = Some rec \<and>
    cr_SecretHash rec = sha256_hex (tr_ClientSecret rb) \<and>
    (fs = [] \<or> ''*'' \<in> set (cr_AllowedScopes rec) \<or> set fs \<subseteq> set (cr_AllowedScopes rec)) \<and>
    token_for s (ts_AccessToken t) (tr_ClientId rb) (token_audience rec) [] [] accessTokenTTL
      (if fs = [] then [] else serviceScopes (tr_ClientId rb) fs) (fst (env_now E (w_rt w))) \<and>
    (\<forall>rt. ts_RefreshToken t = Some rt \<longrightarrow> offline_access \<in> set (strings_Fields (requested_scope rb)) \<and>
      (\<exists>fam now. token_for s rt (tr_ClientId rb) audienceService (tr_ClientId rb) fam refreshTokenTTL
         (offline_access # fs) now))"
proof -
  obtain rec where c: "cc_checks s rb = Inr rec"
    using assms(1,2) by (cases "cc_checks s rb") (auto simp: handleClientCredentials_checks issued_def cc_checks_def
        Let_def split: if_splits option.splits)
  obtain sc fs' off where sp: "split_offline (requested_scope rb) = (sc, fs', off)"
    using prod_cases3 by blast
  have fs: "fs' = fs" using sp assms(3) by (auto simp: split_offline_def Let_def split: if_splits intro!: filter_True [symmetric])
  have "exec (cc_issue s (tr_ClientId rb) rec sc fs off) E w = (r, w')"
    using assms(1) c sp fs by (simp add: handleClientCredentials_checks)
  from cc_issue_issued [OF this assms(2)] show ?thesis
    using cc_checks_Inr [OF c sp] split_offline_fields [OF sp] fs by blast
qed

definition orders_request :: "string \<Rightarrow> TokenRequest" where
  "orders_request scope = empty_TokenRequest\<lparr>tr_GrantType := ''client_credentials'',
     tr_ClientId := ''orders'', tr_ClientSecret := ''s3cret'', tr_Scope := Some scope\<rparr>"

lemma orders_fields: "strings_Fields ''orders:read offline_access'' = [''orders:read'', ''offline_access'']"
  by code_simp

lemma orders_request_fields [simp]:
  "tr_ClientId (orders_request sc) = ''orders''" "tr_ClientSecret (orders_request sc) = ''s3cret''"
  "requested_scope (orders_request sc) = sc"
  by (simp_all add: orders_request_def empty_TokenRequest_def requested_scope_def)

lemma orders_split: "split_offline ''orders:read offline_access'' = (''orders:read'', [''orders:read''], True)"
  by (simp add: split_offline_def orders_fields offline_access_def)

lemma HasScope_orders: "HasScope local_record ''orders:read''"
proof -
  have "strings_Fields ''orders:read'' = [''orders:read'']" by code_simp
  then show ?thesis by (simp add: HasScope_iff local_record_def)
qed

lemma orders_checks: "cc_checks local_service (orders_request ''orders:read offline_access'') = Inr local_record"
  using HasScope_orders by (simp add: cc_checks_def orders_split local_sdk_def) (simp add: local_record_def)

lemma orders_issued:
  "\<exists>t rt. issued (fst (exec (handleClientCredentials local_service
      (orders_request ''orders:read offline_access'')) local_env w)) = Some t \<and> ts_RefreshToken t = Some rt"
  by (simp add: handleClientCredentials_checks orders_checks orders_split cc_issue_def Let_def exec_call
      exec_local_SignToken exec_local_SignRefreshToken nonempty_def split: prod.split)

theorem client_credentials_grant_witness:
  "\<exists>t rt fam now. issued (fst (exec (handleClientCredentials local_service
      (orders_request ''orders:read offline_access'')) local_env (local_world Map.empty [] 0))) = Some t \<and>
    ts_RefreshToken t = Some rt \<and>
    token_for local_service rt ''orders'' audienceService ''orders'' fam refreshTokenTTL
      [''offline_access'', ''orders:read''] now"
proof -
  let ?h = "handleClientCredentials local_service (orders_request ''orders:read offline_access'')"
  obtain r w' where e: "exec ?h local_env (local_world Map.empty [] 0) = (r, w')" by fastforce
  then obtain t rt where t: "issued r = Some t" "ts_RefreshToken t = Some rt"
    using orders_issued [of "local_world Map.empty [] 0"] by auto
  from client_credentials_grant [OF e t(1) refl] t(2) show ?thesis
    using e t by (auto simp: orders_fields offline_access_def)
qed

text \<open>A request that is not entitled (credentials missing or not a registered client's, or a
  scope that is malformed or not allowed to the client) is refused with nothing called and
  nothing changed; the answer names the first check that failed.\<close>

theorem client_credentials_refusal:
  assumes "sc = fst (split_offline (requested_scope rb))"
    and "\<not> (\<exists>rec. tr_ClientId rb \<noteq> [] \<and> tr_ClientSecret rb \<noteq> [] \<and>
      registered (sv_ClientRegistry s) (tr_ClientId rb) = Some rec \<and>
      cr_SecretHash rec = sha256_hex (tr_ClientSecret rb) \<and>
      (sc = [] \<or> sdk_IsValidScope (sv_sdk s) sc \<and> HasScope rec sc))"
  shows "exec (handleClientCredentials s rb) E w = (\<lparr>rs_Headers = json_no_store, rs_Outcome =
      (if tr_ClientId rb = [] \<or> tr_ClientSecret rb = []
       then SendError Auth_InvalidClientCredentials ''missing client credentials''
       else if \<not> snd (ValidateAndGet (sv_ClientRegistry s) (tr_ClientId rb) (tr_ClientSecret rb))
       then SendError Auth_InvalidClientCredentials ''invalid client credentials''
       else if \<not> sdk_IsValidScope (sv_sdk s) sc then SendError Auth_InvalidScope (''invalid scope: '' @ sc)
       else SendError Auth_InsufficientScope (''client not permitted to request scope: '' @ sc))\<rparr>, w)"
  using assms
  by (auto simp: handleClientCredentials_checks cc_checks_def ValidateAndGet_value Let_def
      split: if_splits option.splits)

theorem client_credentials_refusal_witness:
  "exec (handleClientCredentials local_service empty_TokenRequest) local_env (local_world Map.empty [] 0) =
    (\<lparr>rs_Headers = json_no_store,
      rs_Outcome = SendError Auth_InvalidClientCredentials ''missing client credentials''\<rparr>,
     local_world Map.empty [] 0)"
  using client_credentials_refusal [OF refl, of empty_TokenRequest local_service local_env
      "local_world Map.empty [] 0"]
  by (simp add: empty_TokenRequest_def)

end
