(* ===== verification/Goroutines.thy ===== *)
theory Goroutines
  imports CacheClient
begin

text \<open>
  Two goroutines that a handler starts and waits for. A schedule says whose call comes next;
  when it is used up, what is left runs one after the other. Goroutines that share no state
  give the same results and the same state under every schedule.
\<close>

section \<open>Running two programs side by side\<close>

text \<open>One call of \<open>p\<close>; the rest is handed on.\<close>

primrec advance :: "'a proc \<Rightarrow> ('a proc \<Rightarrow> 'b proc) \<Rightarrow> 'b proc" where
  "advance (Ret a) k = k (Ret a)"
| "advance (RGet x f) k = RGet x (\<lambda>r. k (f r))"
| "advance (RSet x v t f) k = RSet x v t (\<lambda>r. k (f r))"
| "advance (RSetNX x v t f) k = RSetNX x v t (\<lambda>r. k (f r))"
| "advance (RDelete x f) k = RDelete x (\<lambda>r. k (f r))"
| "advance (RIncr x f) k = RIncr x (\<lambda>r. k (f r))"
| "advance (RExpire x t f) k = RExpire x t (\<lambda>r. k (f r))"
| "advance (RExists x f) k = RExists x (\<lambda>r. k (f r))"
| "advance (HttpDo q f) k = HttpDo q (\<lambda>r. k (f r))"
| "advance (DdbGetItem t x f) k = DdbGetItem t x (\<lambda>r. k (f r))"
| "advance (DdbDescribe t f) k = DdbDescribe t (\<lambda>r. k (f r))"
| "advance (TimeNow f) k = TimeNow (\<lambda>r. k (f r))"
| "advance (UuidNew f) k = UuidNew (\<lambda>r. k (f r))"
| "advance (RandInt n f) k = RandInt n (\<lambda>r. k (f r))"
| "advance (RandRead n f) k = RandRead n (\<lambda>r. k (f r))"
| "advance (SvcLoad f) k = SvcLoad (\<lambda>r. k (f r))"
| "advance (SvcStore v f) k = SvcStore v (\<lambda>r. k (f r))"
| "advance (SemTryAcquire n f) k = SemTryAcquire n (\<lambda>r. k (f r))"
| "advance (GoSendEmail q f) k = GoSendEmail q (\<lambda>r. k (f r))"
| "advance (JwksLoad f) k = JwksLoad (\<lambda>r. k (f r))"
| "advance (JwksStore c f) k = JwksStore c (\<lambda>r. k (f r))"

primrec par :: "bool list \<Rightarrow> 'a proc \<Rightarrow> 'b proc \<Rightarrow> ('a \<times> 'b) proc" where
  "par [] p q = call p (\<lambda>a. call q (\<lambda>b. Ret (a, b)))"
| "par (first # sch) p q =
     (if first then advance p (\<lambda>p'. par sch p' q) else advance q (\<lambda>q'. par sch p q'))"

lemma exec_advance: "exec (advance p k) E w = (case step_proc E p w of (p', v) \<Rightarrow> exec (k p') E v)"
  by (cases p) (auto split: prod.split)

section \<open>Independence\<close>

lemma step_redis_only:
  "redis_only p \<Longrightarrow> step_proc E p w = (p', v) \<Longrightarrow> redis_only p' \<and>
     (\<forall>u. w_redis u = w_redis w \<longrightarrow> step_proc E p u = (p', u\<lparr>w_redis := w_redis v\<rparr>))"
  by (cases p) (auto split: prod.splits)

lemma step_no_redis:
  "no_redis q \<Longrightarrow> step_proc E q w = (q', v) \<Longrightarrow> no_redis q' \<and> w_redis v = w_redis w \<and>
     (\<forall>s. step_proc E q (w\<lparr>w_redis := s\<rparr>) = (q', v\<lparr>w_redis := s\<rparr>))"
  by (cases q) (auto simp del: split_paired_All simp: start_email_def split: prod.splits if_splits option.splits)

lemma exec_redis_frame:
  assumes "redis_only p" and "exec p E w = (a, v)" and "w_redis u = w_redis w"
  shows "exec p E u = (a, u\<lparr>w_redis := w_redis v\<rparr>)"
  using assms
proof (induction p arbitrary: w u)
  case (Ret x)
  then show ?case by simp
qed (fastforce split: prod.splits)+

text \<open>
  A goroutine that works on the cache only and one that leaves it alone: whatever the schedule,
  the results and the final state are those of running one after the other.
\<close>

lemma exec_par:
  assumes "redis_only p" and "no_redis q"
  shows "exec (par sch p q) E w =
    (case exec p E w of (a, v) \<Rightarrow> (case exec q E v of (b, u) \<Rightarrow> ((a, b), u)))"
  using assms
proof (induction sch arbitrary: p q w)
  case Nil
  then show ?case by (simp add: exec_call split: prod.split)
next
  case (Cons first sch)
  show ?case
  proof (cases first)
    case True
    obtain p' v where s: "step_proc E p w = (p', v)" by fastforce
    then have "redis_only p'" using step_redis_only [OF Cons.prems(1)] by blast
    then show ?thesis using True s Cons by (simp add: exec_advance exec_step [of p E w])
  next
    case False
    obtain q' v where s: "step_proc E q w = (q', v)" by fastforce
    note q = step_no_redis [OF Cons.prems(2) s]
    obtain a p1 where p: "exec p E w = (a, p1)" by fastforce
    have p1: "p1 = w\<lparr>w_redis := w_redis p1\<rparr>" by (rule exec_redis_only [OF Cons.prems(1) p])
    have "exec p E v = (a, v\<lparr>w_redis := w_redis p1\<rparr>)"
      by (rule exec_redis_frame [OF Cons.prems(1) p]) (use q in simp)
    moreover have "step_proc E q p1 = (q', v\<lparr>w_redis := w_redis p1\<rparr>)" using q p1 by metis
    ultimately show ?thesis
      using False s q Cons p by (simp add: exec_advance exec_step [of q E p1])
  qed
qed

end
