(* ===== verification/OtpEndpoints.thy ===== *)
theory OtpEndpoints
  imports Service Goroutines
begin

text \<open>
  \<open>api/otp.go\<close>: the endpoints that send and verify one-time codes. The verification runs two
  goroutines, one on the code store and one that looks up the account; the handler waits for
  the first, then for the second. Log output is not modelled.
\<close>

section \<open>Requests\<close>

definition OTPRequest_of_json :: "sdk \<Rightarrow> json \<Rightarrow> string res" where
  "OTPRequest_of_json S v0 = and_then (struct_value v0) (field_email S ''email'')"

definition OTPVerifyRequest_of_json :: "sdk \<Rightarrow> json \<Rightarrow> OTPVerifyRequest res" where
  "OTPVerifyRequest_of_json S v0 =
     and_then (struct_value v0) (\<lambda>v.
     and_then (field_email S ''email'' v) (\<lambda>e.
     and_then (field_string ''code'' v) (\<lambda>c.
       Inr \<lparr>ov_Email = e, ov_Code = c\<rparr>)))"

definition normal_email :: "string \<Rightarrow> string" where
  "normal_email email = strings_TrimSpace (strings_ToLower email)"

section \<open>Sending a code\<close>

text \<open>The ban check, which lets the request through when it fails.\<close>

definition otp_banned :: "Service \<Rightarrow> string \<Rightarrow> bool proc" where
  "otp_banned s email =
     (case sv_BannedChecker s of
        None \<Rightarrow> Ret False
      | Some b \<Rightarrow> call (IsBanned (sv_sdk s) b email) (\<lambda>r.
          case r of Inl err \<Rightarrow> Ret False | Inr banned \<Rightarrow> Ret banned))"

definition otp_email :: "string \<Rightarrow> string \<Rightarrow> SendEmailRequest" where
  "otp_email email code =
     \<lparr>se_To = email, se_TemplateId = ''otp'',
      se_TemplateData = Some [(''code'', JStr code), (''ttl'', JNum (strconv_Itoa otpTokenTTL))]\<rparr>"

text \<open>A nil \<open>HttpClient\<close> panics in the last call; the 500 answer stands for that.\<close>

definition OTPRequestHandler :: "Service \<Rightarrow> http_in \<Rightarrow> response proc" where
  "OTPRequestHandler s req =
     (let hs = json_no_store in
      case and_then (Decode (in_Body req)) (OTPRequest_of_json (sv_sdk s)) of
        Inl err \<Rightarrow> respond hs (SendError Global_BadRequest ''invalid request body'')
      | Inr bodyEmail \<Rightarrow>
          (let email = normal_email bodyEmail in
           case sdk_ParseAddress (sv_sdk s) email of
             Inl err \<Rightarrow> respond hs (SendError Global_BadRequest ''email is required'')
           | Inr _ \<Rightarrow>
               call (otp_banned s email) (\<lambda>banned.
                 if banned
                 then respond hs (SendError Global_Forbidden ''account is not eligible for OTP'')
                 else call (GenerateAndStoreOTP (sv_CacheClient s) email) (\<lambda>g.
                   case g of
                     Inl err \<Rightarrow>
                       if errors_Is err ''ErrOTPCooldown''
                       then respond (hs @ [(''Retry-After'', strconv_Itoa OTPCooldownSeconds)])
                         (SendError Global_TooManyRequests ''OTP requested too soon, try again shortly'')
                       else respond hs (SendError Global_Internal ''failed to generate OTP'')
                   | Inr code \<Rightarrow>
                       (case sv_HttpClient s of
                          None \<Rightarrow> respond hs (SendError Global_Internal ''panic: nil pointer dereference'')
                        | Some http \<Rightarrow>
                            call (SendEmail (sv_sdk s) http (otp_email email code)) (\<lambda>_.
                              respond hs (Reply 200 (MessageBody ''OTP created successfully''))))))))"

section \<open>Verifying a code\<close>

text \<open>The two goroutines. The counter is reset by the handler once the first has succeeded.\<close>

definition verify_side :: "CacheClient \<Rightarrow> string \<Rightarrow> string \<Rightarrow> goerror option proc" where
  "verify_side c email code =
     call (VerifyOTP c email code) (\<lambda>v.
       case v of
         Some err \<Rightarrow> Ret (Some err)
       | None \<Rightarrow> call (DeleteOTPAttempts c email) (\<lambda>_. Ret None))"

definition creds_side :: "Service \<Rightarrow> string \<Rightarrow> CredentialsResponse option res proc" where
  "creds_side s email =
     (case sv_HttpClient s of
        None \<Rightarrow> Ret (Inl (Errorf ''customer-api client not configured''))
      | Some http \<Rightarrow>
          call (getOrRefreshSvcJWT s) (\<lambda>t.
            case t of
              Inl err \<Rightarrow> Ret (Inl (Wrapf ''failed to obtain service token'' err))
            | Inr svcToken \<Rightarrow> GetUserCredentials http email svcToken))"

text \<open>The answer to a failed verification.\<close>

definition verify_refusal :: "goerror \<Rightarrow> outcome" where
  "verify_refusal err =
     (if errors_Is err ''ErrOTPNotFound'' then SendError Auth_InvalidToken ''OTP not found or expired''
      else if errors_Is err ''ErrOTPInvalid'' then SendError Auth_InvalidToken ''invalid OTP''
      else if errors_Is err ''ErrOTPAlreadyRedeemed''
      then SendError Global_Conflict ''OTP has already been used''
      else SendError Global_Internal ''OTP verification failed'')"

definition otp_issue :: "Service \<Rightarrow> string \<Rightarrow> response proc" where
  "otp_issue s subject =
     (let hs = json_no_store in
      call (s_SignToken s this_issuer subject audienceUser otpTokenTTL [''otp:verified'']) (\<lambda>a.
        case a of
          Inl err \<Rightarrow> respond hs (SendError Global_Internal ''failed to issue token'')
        | Inr accessToken \<Rightarrow>
            respond hs (Reply 200 (TokenBody
              \<lparr>ts_AccessToken = accessToken, ts_ExpiresIn = otpTokenTTL, ts_RefreshToken = None,
               ts_Scope = Some otpScope, ts_TokenType = ''Bearer''\<rparr>))))"

text \<open>
  The handler, for a schedule \<open>sch\<close> of its goroutines. (When the verification fails it answers
  at once; the other goroutine then ends on its own.)
\<close>

definition verify_code :: "bool list \<Rightarrow> Service \<Rightarrow> string \<Rightarrow> string \<Rightarrow> response proc" where
  "verify_code sch s email code =
     (let hs = json_no_store in
      call (par sch (verify_side (sv_CacheClient s) email code) (creds_side s email)) (\<lambda>(v, cr).
        case v of
          Some err \<Rightarrow> respond hs (verify_refusal err)
        | None \<Rightarrow>
            (case cr of
               Inl err \<Rightarrow> respond hs (SendError Global_ServiceUnavailable ''credential lookup unavailable'')
             | Inr None \<Rightarrow> respond hs (SendError Auth_InvalidToken ''account not found'')
             | Inr (Some creds) \<Rightarrow> otp_issue s (cred_UserId creds))))"

definition OTPVerifyHandler :: "bool list \<Rightarrow> Service \<Rightarrow> http_in \<Rightarrow> response proc" where
  "OTPVerifyHandler sch s req =
     (let hs = json_no_store in
      case and_then (Decode (in_Body req)) (OTPVerifyRequest_of_json (sv_sdk s)) of
        Inl err \<Rightarrow> respond hs (SendError Global_BadRequest ''invalid request body'')
      | Inr body \<Rightarrow>
          (let verifyEmail = normal_email (ov_Email body);
               code = strings_TrimSpace (ov_Code body) in
           case sdk_ParseAddress (sv_sdk s) verifyEmail of
             Inl err \<Rightarrow> respond hs (SendError Global_BadRequest ''email is required'')
           | Inr _ \<Rightarrow>
               if code = [] then respond hs (SendError Global_BadRequest ''code is required'')
               else call (IncrOTPAttempts (sv_CacheClient s) verifyEmail) (\<lambda>(attempts, incrErr).
                 if incrErr = None \<and> MaxOTPAttempts < attempts
                 then respond hs (SendError Global_TooManyRequests ''too many OTP attempts'')
                 else verify_code sch s verifyEmail code)))"

end
