(* ===== verification/OtpStoreProps.thy ===== *)
theory OtpStoreProps
  imports OtpStore LocalEnv
begin

text \<open>
  The properties of the one-time code store: what a verification answers, that a code is
  redeemed once whatever the interleaving, that the attempt numbers cap the guesses, and two
  consequences of how the counter is armed.
\<close>

lemmas eval_otp = VerifyOTP_def IncrOTPAttempts_def GenerateAndStoreOTP_def generateOTPCode_def
  DeleteOTPAttempts_def ttl_defs local_defs cache_keys cache_ttls sentinel_def otpMax_def

text \<open>C10: On a store that answers, \<open>VerifyOTP\<close> refines the verdict on the stored values: it
  returns exactly what the pending code and the redemption claim decide, and it changes the
  two keys of the address exactly when it succeeds.\<close>

theorem verify_otp_refines_verdict:
  assumes "kv_reliable (env_cache E) live ok" and "cc_api c \<noteq> None" and "ok (w_redis w)"
  shows "fst (exec (VerifyOTP c email code) E w) = otp_verdict (live (w_redis w)) email code \<and>
    live (w_redis (snd (exec (VerifyOTP c email code) E w))) = otp_after (live (w_redis w)) email code"
  using kv_reliable.VerifyOTP_exec [OF assms(1) refl assms(2,3), of email code] by auto

theorem verify_otp_refines_verdict_witness:
  "fst (exec (VerifyOTP local_client ''a@b.c'' ''123456'') local_env
      (local_world [''otp:a@b.c'' \<mapsto> (''123456'', Some 300)] [] 0)) = None"
  using verify_otp_refines_verdict [OF local_kv_reliable local_client_api local_redis_ok,
      of "''a@b.c''" "''123456''" "[''otp:a@b.c'' \<mapsto> (''123456'', Some 300)]" "[]" 0]
  by (simp add: otp_verdict_def local_world_def ttl_live_def cache_keys)


text \<open>C8: A code is redeemed at most once. However any number of verifications, for any
  addresses, are interleaved call by call and delayed by less than the life of the redemption
  claim, with any Redis faults in between, two verifications of one address never both succeed.\<close>

theorem otp_redeemed_at_most_once:
  assumes "redis (env_cache E) live ttl elapse"
    and "\<forall>(e, code) \<in> set reqs. plain_id e"
    and "run_pool E elapse ss (map (\<lambda>(e, code). VerifyOTP c e code) reqs) w = (tr, qs, w')"
    and "good_sched ss" and "time_of ss < otpRedeemedTTL"
    and "i < length reqs" and "qs ! i = Ret None" and "j < length reqs" and "qs ! j = Ret None"
    and "fst (reqs ! i) = fst (reqs ! j)"
  shows "i = j"
  by (rule redis.one_redemption [OF assms(1) refl _ assms(3-10)]) (use assms(2) in auto)

definition two_verifies :: "sched list" where
  "two_verifies = [Turn 0, Turn 1, Elapse 10, Turn 1, Turn 0, Turn 1]"

text \<open>Both requests read the code before either claims it; the second one wins alone.\<close>

lemma two_verifies_run:
  "fst (snd (run_pool local_env ttl_elapse two_verifies
      (map (\<lambda>(e, code). VerifyOTP local_client e code)
        [(''a@b.c'', ''123456''), (''a@b.c'', ''123456'')])
      (local_world [''otp:a@b.c'' \<mapsto> (''123456'', Some 300)] [] 0)))
   = [Ret (Some ErrOTPAlreadyRedeemed), Ret None]"
  by (simp add: two_verifies_def eval_otp)

theorem otp_redeemed_at_most_once_witness:
  "\<not> (\<exists>qs. fst (snd (run_pool local_env ttl_elapse two_verifies
      (map (\<lambda>(e, code). VerifyOTP local_client e code)
        [(''a@b.c'', ''123456''), (''a@b.c'', ''123456'')])
      (local_world [''otp:a@b.c'' \<mapsto> (''123456'', Some 300)] [] 0))) = qs \<and>
      qs ! 0 = Ret None \<and> qs ! 1 = Ret None)"
proof -
  let ?reqs = "[(''a@b.c'', ''123456''), (''a@b.c'', ''123456'')]"
  let ?w = "local_world [''otp:a@b.c'' \<mapsto> (''123456'', Some 300)] [] 0"
  obtain tr qs w' where run: "run_pool local_env ttl_elapse two_verifies
      (map (\<lambda>(e, code). VerifyOTP local_client e code) ?reqs) ?w = (tr, qs, w')"
    using prod_cases3 by blast
  have "plain_id ''a@b.c''" by (simp add: plain_id_def)
  then show ?thesis
    using otp_redeemed_at_most_once [OF local_redis _ run, of 0 1] run
    by (auto simp: two_verifies_def otpRedeemedTTL_def)
qed

text \<open>C9: The attempt cap holds under concurrency. Starting from a counter at \<open>i\<close> (absent
  when 0), however many verifications of an address increment it at the same time, at most
  \<open>MaxOTPAttempts - i\<close> of them are given a number that the cap lets through, while the
  counter lives.\<close>

theorem otp_attempts_capped:
  assumes "redis (env_cache E) live ttl elapse"
    and "run_pool E elapse ss (map (IncrOTPAttempts c) emails) w = (tr, qs, w')"
    and "good_sched ss" and "time_of ss < otpTTLSec"
    and "counter_at (live (w_redis w)) (otpAttemptsKey @ email) i"
    and "i + int (length ss) < 2 ^ 63 - 1"
    and "lasting (ttl (w_redis w)) (otpAttemptsKey @ email) (time_of ss)"
  shows "card {j. j < length emails \<and> emails ! j = email \<and>
      (\<exists>n. qs ! j = Ret (n, None) \<and> n \<noteq> 0 \<and> n \<le> MaxOTPAttempts)} \<le> nat (MaxOTPAttempts - i)"
  by (rule redis.attempts_capped [OF assms(1) refl assms(2-7)])

definition three_incrs :: "sched list" where
  "three_incrs = [Turn 0, Turn 1, Turn 2, Turn 2, Turn 0, Turn 1]"

lemma Itoa_3: "strconv_Itoa 3 = ''3''" and Itoa_5: "strconv_Itoa 5 = ''5''"
  by code_simp+

lemma parse_5: "strconv_ParseInt ''5'' = Inr 5"
  and parse_6: "strconv_ParseInt (strconv_Itoa 6) = Inr 6"
  and parse_7: "strconv_ParseInt (strconv_Itoa 7) = Inr 7"
  using ParseInt_Itoa [of 5] ParseInt_Itoa [of 6] ParseInt_Itoa [of 7] by (simp_all add: Itoa_5)

theorem otp_attempts_capped_witness:
  "card {j. j < (3::nat) \<and> replicate 3 ''a@b.c'' ! j = ''a@b.c'' \<and>
      (\<exists>n. fst (snd (run_pool local_env ttl_elapse three_incrs
          (map (IncrOTPAttempts local_client) (replicate 3 ''a@b.c''))
          (local_world [''otp:a@b.c'' \<mapsto> (''123456'', Some 300),
             ''otp:attempts:a@b.c'' \<mapsto> (''3'', Some 200)] [] 0))) ! j = Ret (n, None) \<and>
        n \<noteq> 0 \<and> n \<le> MaxOTPAttempts)} \<le> 2"
proof -
  let ?w = "local_world [''otp:a@b.c'' \<mapsto> (''123456'', Some 300),
             ''otp:attempts:a@b.c'' \<mapsto> (''3'', Some 200)] [] 0"
  obtain tr qs w' where run: "run_pool local_env ttl_elapse three_incrs
      (map (IncrOTPAttempts local_client) (replicate 3 ''a@b.c'')) ?w = (tr, qs, w')"
    using prod_cases3 by blast
  have "counter_at (ttl_live (w_redis ?w)) (otpAttemptsKey @ ''a@b.c'') 3"
    by (simp add: counter_at_def local_world_def ttl_live_def cache_keys Itoa_3)
  moreover have "lasting (ttl_left (w_redis ?w)) (otpAttemptsKey @ ''a@b.c'') (time_of three_incrs)"
    by (simp add: lasting_def local_world_def ttl_left_def cache_keys three_incrs_def)
  ultimately show ?thesis
    using otp_attempts_capped [OF local_redis run, of "''a@b.c''" 3] run
    by (simp add: three_incrs_def otpTTLSec_def MaxOTPAttempts_def)
qed

section \<open>A code from generation to redemption\<close>

text \<open>On a store that answers, a code that \<open>GenerateAndStoreOTP\<close> returns has six decimal
  digits; submitting it right away succeeds, and submitting it (or anything else) once more
  is answered with \<open>ErrOTPNotFound\<close>. A second generation within the cooldown is refused.\<close>

theorem otp_issued_then_redeemed_once:
  assumes "kv_reliable (env_cache E) live ok" and "cc_api c \<noteq> None" and "ok (w_redis w)"
    and "plain_id email" and "rand_int_bounded E"
    and gen: "exec (GenerateAndStoreOTP c email) E w = (Inr code, w1)"
    and ver: "exec (VerifyOTP c email code) E w1 = (r2, w2)"
  shows "length code = 6 \<and> (\<forall>ch \<in> set code. \<exists>d < 10. ch = digit_char d) \<and> r2 = None \<and>
    fst (exec (VerifyOTP c email code') E w2) = Some ErrOTPNotFound \<and>
    fst (exec (GenerateAndStoreOTP c email) E w1) = Inl ErrOTPCooldown"
proof -
  note store = assms(1)
  have w1: "ok (w_redis w1)" "live (w_redis w1) = otp_issued (live (w_redis w)) email code"
    and ex: "\<exists>n s. env_rand_int E otpMax (w_rt w) = (Inr n, s) \<and> code = sprintf_06d n"
    using kv_reliable.Generate_exec [OF store refl assms(2-4)] gen by auto
  obtain n s0 where rnd: "env_rand_int E otpMax (w_rt w) = (Inr n, s0)"
    and "code = sprintf_06d n" using ex by blast
  moreover have "n < otpMax" using assms(5) rnd by (simp add: rand_int_bounded_def) blast
  ultimately have code: "code = sprintf_06d n" "n < 1000000" by (simp_all add: otpMax_def)
  have ne: "code \<noteq> []" using length_sprintf_06d [OF code(2)] code(1) by auto
  have v1: "otp_verdict (live (w_redis w1)) email code = None"
    using otp_issued_verdict [OF ne assms(4)] w1(2) by simp
  obtain s where "exec (VerifyOTP c email code) E w1 = (None, w1\<lparr>w_redis := s\<rparr>)" "ok s"
    "live s = otp_after (live (w_redis w1)) email code"
    using kv_reliable.VerifyOTP_exec [OF store refl assms(2) w1(1), of email code] v1 by auto
  then have w2: "r2 = None" "ok (w_redis w2)"
    "live (w_redis w2) = otp_after (live (w_redis w1)) email code" using ver by auto
  have "fst (exec (VerifyOTP c email code') E w2) = Some ErrOTPNotFound"
    using kv_reliable.VerifyOTP_exec [OF store refl assms(2) w2(2), of email code']
      otp_after_twice [OF v1 assms(4)] w2(3) by auto
  moreover have "fst (exec (GenerateAndStoreOTP c email) E w1) = Inl ErrOTPCooldown"
  proof -
    obtain r w' where again: "exec (GenerateAndStoreOTP c email) E w1 = (r, w')"
      "case r of Inr _ \<Rightarrow> live (w_redis w1) (otpCooldownKey @ email) = None
       | Inl err \<Rightarrow> live (w_redis w1) (otpCooldownKey @ email) \<noteq> None \<longrightarrow> err = ErrOTPCooldown"
      using kv_reliable.Generate_exec [OF store refl assms(2) w1(1) assms(4)]
      by (fastforce split: sum.splits)
    then show ?thesis using w1(2) assms(4)
      by (cases r) (auto simp: otp_issued_def key_simps)
  qed
  ultimately show ?thesis
    using w2(1) code length_sprintf_06d sprintf_06d_digits by auto
qed

theorem otp_issued_then_redeemed_once_witness:
  "\<exists>code w1. exec (GenerateAndStoreOTP local_client ''a@b.c'') local_env
      (local_world Map.empty [] 0) = (Inr code, w1) \<and>
    fst (exec (VerifyOTP local_client ''a@b.c'' code) local_env w1) = None"
proof -
  let ?g = "exec (GenerateAndStoreOTP local_client ''a@b.c'') local_env (local_world Map.empty [] 0)"
  have gen: "?g = (Inr (sprintf_06d 123456), snd ?g)"
    by (simp add: eval_otp)
  obtain r2 w2 where ver:
    "exec (VerifyOTP local_client ''a@b.c'' (sprintf_06d 123456)) local_env (snd ?g) = (r2, w2)"
    by fastforce
  have "plain_id ''a@b.c''" "rand_int_bounded local_env"
    by (auto simp: plain_id_def rand_int_bounded_def local_defs split: list.splits if_splits)
  then have "r2 = None"
    using otp_issued_then_redeemed_once
      [OF local_kv_reliable local_client_api local_redis_ok _ _ gen ver, of "[]"] by simp
  then show ?thesis using gen ver by (metis fst_conv)
qed

section \<open>What the attempt counter does not do\<close>

text \<open>Generating a new code, whatever its outcome, leaves every attempt counter as it was:
  the attempts made against the previous code count against the new one.\<close>

theorem new_code_keeps_attempts:
  assumes "kv_store (env_cache E) live" and "plain_id email"
  shows "live (w_redis (snd (exec (GenerateAndStoreOTP c email) E w))) (otpAttemptsKey @ e)
    = live (w_redis w) (otpAttemptsKey @ e)"
  by (rule kv_store.Generate_keeps_attempts [OF assms(1) refl prod.collapse [symmetric] assms(2)])

theorem new_code_keeps_attempts_witness:
  "ttl_live (w_redis (snd (exec (GenerateAndStoreOTP local_client ''a@b.c'') local_env
      (local_world [''otp:attempts:a@b.c'' \<mapsto> (''5'', Some 240)] [] 0))))
      (otpAttemptsKey @ ''a@b.c'') = Some ''5''"
proof -
  have "plain_id ''a@b.c''" by (simp add: plain_id_def)
  from new_code_keeps_attempts [OF local_kv_store this, of local_client
      "local_world [''otp:attempts:a@b.c'' \<mapsto> (''5'', Some 240)] [] 0" "''a@b.c''"]
  show ?thesis by (simp add: local_world_def ttl_live_def cache_keys)
qed

text \<open>Verification attempts of one address, each after a delay in seconds.\<close>

primrec attempts_after ::
  "('r, 'h, 'c) env \<Rightarrow> (int \<Rightarrow> 'r \<Rightarrow> 'r) \<Rightarrow> CacheClient \<Rightarrow> string \<Rightarrow> int list \<Rightarrow> ('r, 'h, 'c) world
     \<Rightarrow> ('r, 'h, 'c) world" where
  "attempts_after E el c email [] w = w"
| "attempts_after E el c email (d # ds) w =
     attempts_after E el c email ds
       (snd (exec (IncrOTPAttempts c email) E (w\<lparr>w_redis := el d (w_redis w)\<rparr>)))"

context redis
begin

lemma Incr_number:
  assumes "env_cache E = api" and "exec (IncrOTPAttempts c email) E w = ((n, None), w')"
    and "counter_at (live (w_redis w)) (otpAttemptsKey @ email) i" and "i < 2 ^ 63 - 1"
    and "n \<noteq> 0"
  shows "n = i + 1"
proof -
  let ?K = "otpAttemptsKey @ email"
  obtain b s1 where e1: "op_Exists (env_cache E) (otpKeyPrefix @ email) (w_redis w) = (b, s1)"
    by fastforce
  obtain m s2 where e2: "op_Incr (env_cache E) ?K s1 = (m, s2)" by fastforce
  have "counter_at (live s1) ?K i"
    using exists_law [OF e1 [unfolded assms(1)]] assms(3) by simp
  from incr_cases [OF this assms(4) e2 [unfolded assms(1)]] have "m = Inr n \<longrightarrow> n = i + 1"
    by auto
  then show ?thesis
    using assms(2,5) e1 e2
    by (auto simp: IncrOTPAttempts_def split: if_splits sum.splits prod.splits)
qed

lemma attempts_after_stuck:
  assumes "env_cache E = api" and "\<forall>d \<in> set ds. 0 \<le> d"
    and "counter_at (live (w_redis w)) (otpAttemptsKey @ email) i" and "1 \<le> i"
    and "i + int (length ds) < 2 ^ 63 - 1" and "ttl (w_redis w) (otpAttemptsKey @ email) = None"
  shows "let w' = attempts_after E elapse c email ds w in
    ttl (w_redis w') (otpAttemptsKey @ email) = None \<and>
    (\<exists>j. counter_at (live (w_redis w')) (otpAttemptsKey @ email) j \<and> i \<le> j \<and> j \<le> i + int (length ds))"
  using assms(2-)
proof (induction ds arbitrary: w i)
  case Nil
  then show ?case by auto
next
  case (Cons d ds)
  let ?K = "otpAttemptsKey @ email" and ?w = "w\<lparr>w_redis := elapse d (w_redis w)\<rparr>"
  have d: "0 \<le> d" using Cons.prems by simp
  have c: "counter_at (live (w_redis ?w)) ?K i" "ttl (w_redis ?w) ?K = None"
    using Cons.prems elapse_live [OF d, of "w_redis w" ?K] elapse_ttl [OF d, of "w_redis w" ?K]
    by (auto simp: counter_at_def)
  obtain r w1 where e: "exec (IncrOTPAttempts c email) E ?w = (r, w1)" by fastforce
  obtain j where j: "counter_at (live (w_redis w1)) ?K j" "i \<le> j" "j \<le> i + 1"
    and t: "ttl (w_redis w1) ?K = None"
    using Incr_never_rearms [OF assms(1) e c(1)] c(2) Cons.prems by auto
  have "let w' = attempts_after E elapse c email ds w1 in
    ttl (w_redis w') ?K = None \<and>
    (\<exists>k. counter_at (live (w_redis w')) ?K k \<and> j \<le> k \<and> k \<le> j + int (length ds))"
    using Cons.IH [of w1 j] Cons.prems j t by simp
  then show ?case using e j by (fastforce simp: Let_def)
qed

end

text \<open>A counter that lost its expiry locks the address out for good. Once the counter is at
  the cap and has no remaining life recorded (the \<open>EXPIRE\<close> after its first \<open>INCR\<close> failed), then
  after any number of further attempts at any delays the next attempt is given a number above
  the cap, or fails.\<close>

theorem unexpiring_counter_locks_out:
  assumes "redis (env_cache E) live ttl elapse" and "\<forall>d \<in> set ds. 0 \<le> d"
    and "counter_at (live (w_redis w)) (otpAttemptsKey @ email) i" and "MaxOTPAttempts \<le> i"
    and "i + int (length ds) < 2 ^ 63 - 2" and "ttl (w_redis w) (otpAttemptsKey @ email) = None"
    and "exec (IncrOTPAttempts c email) E (attempts_after E elapse c email ds w) = ((n, None), w')"
    and "n \<noteq> 0"
  shows "MaxOTPAttempts < n \<and> ttl (w_redis w') (otpAttemptsKey @ email) = None"
proof -
  let ?K = "otpAttemptsKey @ email" and ?w = "attempts_after E elapse c email ds w"
  have i: "1 \<le> i" using assms(4) by (simp add: MaxOTPAttempts_def)
  obtain j where t: "ttl (w_redis ?w) ?K = None" and j: "counter_at (live (w_redis ?w)) ?K j"
    "i \<le> j" "j \<le> i + int (length ds)"
    using redis.attempts_after_stuck [OF assms(1) refl assms(2,3) i _ assms(6), of c] assms(5)
    by (auto simp: Let_def)
  then show ?thesis
    using redis.Incr_number [OF assms(1) refl assms(7) j(1) _ assms(8)]
      redis.Incr_never_rearms [OF assms(1) refl assms(7) j(1)] assms(4,5) i by auto
qed

theorem unexpiring_counter_locks_out_witness:
  "\<exists>n w'. exec (IncrOTPAttempts local_client ''a@b.c'') local_env
      (attempts_after local_env ttl_elapse local_client ''a@b.c'' [100, 100000]
        (local_world [''otp:a@b.c'' \<mapsto> (''123456'', None), ''otp:attempts:a@b.c'' \<mapsto> (''5'', None)] [] 0))
    = ((n, None), w') \<and> MaxOTPAttempts < n"
proof -
  let ?w = "local_world [''otp:a@b.c'' \<mapsto> (''123456'', None),
      ''otp:attempts:a@b.c'' \<mapsto> (''5'', None)] [] 0"
  let ?r = "exec (IncrOTPAttempts local_client ''a@b.c'') local_env
      (attempts_after local_env ttl_elapse local_client ''a@b.c'' [100, 100000] ?w)"
  have run: "?r = ((8, None), snd ?r)"
    by (simp add: eval_otp parse_5 parse_6 parse_7)
  have "counter_at (ttl_live (w_redis ?w)) (otpAttemptsKey @ ''a@b.c'') 5"
    by (simp add: counter_at_def local_world_def ttl_live_def cache_keys Itoa_5)
  moreover have "ttl_left (w_redis ?w) (otpAttemptsKey @ ''a@b.c'') = None"
    by (simp add: local_world_def ttl_left_def cache_keys)
  ultimately have "MaxOTPAttempts < 8"
    using unexpiring_counter_locks_out [OF local_redis _ _ _ _ _ run, of 5]
    by (simp add: MaxOTPAttempts_def)
  then show ?thesis using run by blast
qed

end
