(* ===== verification/OtpEndpointProps.thy ===== *)
theory OtpEndpointProps
  imports OtpEndpoints LocalOAuth OtpStoreProps
begin

text \<open>
  Properties of the one-time code endpoints: the schedule of the verification's goroutines does
  not matter, and a token is issued only for the pending code and the looked-up account.
\<close>

section \<open>Schedules\<close>

lemma redis_only_call: "redis_only p \<Longrightarrow> (\<And>a. redis_only (k a)) \<Longrightarrow> redis_only (call p k)"
  by (induction p) auto

lemma verify_side_redis: "redis_only (verify_side c email code)"
  by (auto simp: verify_side_def intro!: redis_only_call otp_redis_only split: option.split)

lemma creds_side_no_redis: "no_redis (creds_side s email)"
  by (auto simp: creds_side_def intro!: no_redis_call no_redis_svc no_redis_user split: option.split sum.split)

lemmas exec_sides = exec_par [OF verify_side_redis creds_side_no_redis]

lemma verify_code_schedule: "exec (verify_code sch s email code) E w = exec (verify_code [] s email code) E w"
  by (simp only: verify_code_def Let_def exec_call exec_sides)


section \<open>Login\<close>

context kv_store
begin

lemma VerifyOTP_success:
  assumes "env_cache E = api" and "exec (VerifyOTP c email code) E w = (None, w')"
  shows "live (w_redis w) (otpKeyPrefix @ email) = Some code \<and> code \<noteq> []"
proof -
  obtain g s where g: "op_Get (env_cache E) (otpKeyPrefix @ email) (w_redis w) = (g, s)" by fastforce
  from get_law [OF g [unfolded assms(1)]] show ?thesis
    using assms(2) g
    by (auto simp: VerifyOTP_def split: if_splits sum.splits option.splits)
qed

lemma Incr_keeps_code:
  assumes "env_cache E = api" and "exec (IncrOTPAttempts c email) E w = (r, w')" and "plain_id x"
  shows "live (w_redis w') (otpKeyPrefix @ x) = live (w_redis w) (otpKeyPrefix @ x)"
proof -
  have ex: "live s' = live s" if "op_Exists (env_cache E) k s = (b, s')" for s s' b k
    using exists_law [OF that [unfolded assms(1)]] by simp
  have inc: "live s' (otpKeyPrefix @ x) = live s (otpKeyPrefix @ x)"
    if "op_Incr (env_cache E) (otpAttemptsKey @ email) s = (b, s')" for s s' b
    using incr_frame [OF that [unfolded assms(1)]] otp_keys_distinct(1) [OF assms(3)] by simp
  have exp: "live s' = live s" if "op_Expire (env_cache E) k otpTTLSec s = (b, s')" for s s' b k
    using expire_law [OF otp_ttl_pos that [unfolded assms(1)]] .
  show ?thesis using assms(2)
    by (auto simp: IncrOTPAttempts_def split: if_splits prod.splits sum.splits dest!: ex inc exp)
qed

end

lemma verify_code_issued:
  assumes "exec (verify_code sch s email code) E w = (r, w')" and "issued r = Some t"
  shows "\<exists>w1 w2 w3 creds. exec (VerifyOTP (sv_CacheClient s) email code) E w = (None, w1) \<and>
    exec (DeleteOTPAttempts (sv_CacheClient s) email) E w1 = ((), w2) \<and> exec (creds_side s email) E w2 = (Inr (Some creds), w3) \<and>
    exec (otp_issue s (cred_UserId creds)) E w3 = (r, w')"
proof -
  obtain v w1 where v: "exec (VerifyOTP (sv_CacheClient s) email code) E w = (v, w1)" by fastforce
  obtain w2 where d: "exec (DeleteOTPAttempts (sv_CacheClient s) email) E w1 = ((), w2)"
    by (cases "exec (DeleteOTPAttempts (sv_CacheClient s) email) E w1") auto
  have side: "exec (verify_side (sv_CacheClient s) email code) E w = (case v of None \<Rightarrow> (None, w2) | Some err \<Rightarrow> (v, w1))"
    using v d by (simp add: verify_side_def exec_call split: option.split)
  have "v = None"
  proof (cases v)
    case (Some err)
    then show ?thesis using assms side
      by (auto simp: verify_code_def exec_call exec_sides verify_refusal_def split: prod.splits if_splits)
  qed simp
  obtain cr w3 where c: "exec (creds_side s email) E w2 = (cr, w3)" by fastforce
  show ?thesis using assms v d side c \<open>v = None\<close>
    by (cases cr) (auto simp: verify_code_def exec_call exec_sides split: option.splits)
qed

text \<open>C2: A login token is issued only when the submitted code (trimmed) is the pending code of the
  address (trimmed, in lower case), after an attempt number that the cap lets through (or a
  counter error), and for the account the customer API names for the address; it lives 30
  minutes, has the scope \<open>otp:verified\<close>, and comes without a refresh token.\<close>

theorem otp_login_sound:
  assumes "kv_store (env_cache E) live"
    and "exec (OTPVerifyHandler sch s req) E w = (r, w')" and "issued r = Some t"
  shows "\<exists>body email n err v v' creds now.
    and_then (Decode (in_Body req)) (OTPVerifyRequest_of_json (sv_sdk s)) = Inr body \<and>
    email = normal_email (ov_Email body) \<and>
    (plain_id email \<longrightarrow>
       live (w_redis w) (otpKeyPrefix @ email) = Some (strings_TrimSpace (ov_Code body))) \<and>
    fst (exec (IncrOTPAttempts (sv_CacheClient s) email) E w) = (n, err) \<and>
    (err \<noteq> None \<or> n \<le> MaxOTPAttempts) \<and>
    exec (creds_side s email) E v = (Inr (Some creds), v') \<and>
    token_for s (ts_AccessToken t) (cred_UserId creds) audienceUser [] [] otpTokenTTL [otpScope] now \<and>
    ts_RefreshToken t = None \<and> ts_ExpiresIn t = otpTokenTTL"
proof -
  obtain body where b: "and_then (Decode (in_Body req)) (OTPVerifyRequest_of_json (sv_sdk s)) = Inr body"
    using assms(2,3) by (auto simp: OTPVerifyHandler_def Let_def split: sum.splits)
  define email code where "email = normal_email (ov_Email body)" and "code = strings_TrimSpace (ov_Code body)"
  obtain n err w1 where i: "exec (IncrOTPAttempts (sv_CacheClient s) email) E w = ((n, err), w1)"
    by (metis prod.exhaust)
  have ok: "(err \<noteq> None \<or> n \<le> MaxOTPAttempts) \<and> exec (verify_code sch s email code) E w1 = (r, w')"
    using assms(2,3) b i
    by (auto simp: OTPVerifyHandler_def Let_def exec_call email_def code_def split: sum.splits if_splits)
  obtain w2 w3 w4 creds where v: "exec (VerifyOTP (sv_CacheClient s) email code) E w1 = (None, w2)"
    and c: "exec (creds_side s email) E w3 = (Inr (Some creds), w4)"
    and t: "exec (otp_issue s (cred_UserId creds)) E w4 = (r, w')"
    using verify_code_issued [OF conjunct2 [OF ok] assms(3)] by metis
  have "plain_id email \<Longrightarrow> live (w_redis w) (otpKeyPrefix @ email) = Some code"
    using kv_store.VerifyOTP_success [OF assms(1) refl v] kv_store.Incr_keeps_code [OF assms(1) refl i, of email]
    by simp
  moreover have "token_for s (ts_AccessToken t) (cred_UserId creds) audienceUser [] [] otpTokenTTL [otpScope]
      (fst (env_now E (w_rt w4))) \<and> ts_RefreshToken t = None \<and> ts_ExpiresIn t = otpTokenTTL"
    using t assms(3)
    by (auto simp: otp_issue_def Let_def exec_call otpScope_def split: prod.splits sum.splits
        dest!: exec_s_SignToken)
  ultimately show ?thesis using b i ok c email_def code_def by fastforce
qed

text \<open>A login in the concrete service.\<close>

definition login_request :: http_in where
  "login_request = local_request (JObj [(''email'', JStr ''A@b.c''), (''code'', JStr ''123456'')])"

definition login_world :: "(ttl_store, peers, runtime) world" where
  "login_world = local_world [''otp:a@b.c'' \<mapsto> (''123456'', Some 300)]
     [Inr \<lparr>rp_status = 200, rp_body = Inr (print_value (JObj [(''user_id'', JStr ''user-1'')]))\<rparr>] 5"

lemma login_decoded:
  "and_then (Decode (in_Body login_request)) (OTPVerifyRequest_of_json local_sdk)
     = Inr \<lparr>ov_Email = ''A@b.c'', ov_Code = ''123456''\<rparr>"
  by (simp add: login_request_def Decode_print maxNestingDepth_def to_valid_ascii OTPVerifyRequest_of_json_def
      struct_value_def field_email_def field_string_def members_of_def local_sdk_def fold_name_lower
      del: print_value.simps)

lemma login_email: "normal_email ''A@b.c'' = ''a@b.c''" "strings_TrimSpace ''123456'' = ''123456''"
  by code_simp+

lemma login_url: "url_parses (''http://customer'' @ PathCredentials @ ''?email='' @ QueryEscape ''a@b.c'')"
  by code_simp

lemma login_sides:
  "\<exists>w1 w2 w3. exec (IncrOTPAttempts local_client ''a@b.c'') local_env login_world = ((1, None), w1) \<and>
    exec (VerifyOTP local_client ''a@b.c'' ''123456'') local_env w1 = (None, w2) \<and>
    exec (DeleteOTPAttempts local_client ''a@b.c'') local_env w2 = ((), w3) \<and>
    w_http w3 = w_http login_world \<and> w_svc w3 = ([], 0)"
  by (simp add: login_world_def eval_otp)

lemma local_svc_token:
  assumes "w_svc w = ([], 0)"
  shows "\<exists>tok w'. exec (getOrRefreshSvcJWT local_service) local_env w = (Inr tok, w') \<and> w_http w' = w_http w"
  using assms
  by (simp add: getOrRefreshSvcJWT_def Let_def exec_call exec_local_SignToken exec_local_SignRefreshToken)

lemma login_reply:
  "and_then (Unmarshal (print_value (JObj [(''user_id'', JStr ''user-1'')]))) CredentialsResponse_of_json
     = Inr \<lparr>cred_AuthMethods = [], cred_EmailVerified = False, cred_PasswordHash = None, cred_UserId = ''user-1''\<rparr>"
  by (simp add: Unmarshal_print maxNestingDepth_def to_valid_ascii CredentialsResponse_of_json_def
      struct_value_def field_string_def field_strings_def field_bool_def field_string_ptr_def members_of_def
      fold_name_lower del: print_value.simps)

text \<open>The steps of a successful login.\<close>

lemma GetUserCredentials_reply:
  assumes "\<And>what. fst (exec (authorized_get what (hc_CustomerBaseURL http @ PathCredentials @ ''?email='' @ QueryEscape email) tok)
      E w) = Inr raw"
    and "and_then (Unmarshal raw) CredentialsResponse_of_json = Inr v"
  shows "\<exists>w'. exec (GetUserCredentials http email tok) E w = (Inr (Some v), w')"
  using assms(1) [of "''get user credentials''"] assms(2)
  by (auto simp: GetUserCredentials_def exec_call split: prod.splits)

lemma creds_side_found:
  assumes "sv_HttpClient s = Some http" and "exec (getOrRefreshSvcJWT s) E w = (Inr tok, w1)"
    and "exec (GetUserCredentials http email tok) E w1 = (Inr v, w2)"
  shows "exec (creds_side s email) E w = (Inr v, w2)"
  using assms by (simp add: creds_side_def exec_call)

lemma OTPVerifyHandler_succeeds:
  assumes "and_then (Decode (in_Body req)) (OTPVerifyRequest_of_json (sv_sdk s)) = Inr body"
    and "normal_email (ov_Email body) = email" and "strings_TrimSpace (ov_Code body) = code"
    and "sdk_ParseAddress (sv_sdk s) email = Inr ()" and "code \<noteq> []"
    and "exec (IncrOTPAttempts (sv_CacheClient s) email) E w = ((n, err), w1)" and "n \<le> MaxOTPAttempts"
    and "exec (VerifyOTP (sv_CacheClient s) email code) E w1 = (None, w2)"
    and "exec (DeleteOTPAttempts (sv_CacheClient s) email) E w2 = ((), w3)"
    and "exec (creds_side s email) E w3 = (Inr (Some creds), w4)"
    and "exec (s_SignToken s this_issuer (cred_UserId creds) audienceUser otpTokenTTL [''otp:verified'']) E w4 = (Inr tok, w5)"
  shows "\<exists>t. issued (fst (exec (OTPVerifyHandler sch s req) E w)) = Some t"
proof -
  have "exec (verify_side (sv_CacheClient s) email code) E w1 = (None, w3)"
    using assms(8,9) by (simp add: verify_side_def exec_call)
  then have "\<exists>t. issued (fst (exec (verify_code sch s email code) E w1)) = Some t"
    using assms(10,11) by (simp add: verify_code_def Let_def exec_call exec_sides otp_issue_def)
  then show ?thesis
    using assms(1-7) by (auto simp: OTPVerifyHandler_def Let_def exec_call)
qed

lemma login_creds:
  assumes "w_http w = w_http login_world" and "w_svc w = ([], 0)"
  shows "\<exists>v w'. exec (creds_side local_service ''a@b.c'') local_env w = (Inr (Some v), w')"
proof -
  obtain tok w1 where t: "exec (getOrRefreshSvcJWT local_service) local_env w = (Inr tok, w1)"
    and h: "w_http w1 = w_http login_world"
    using local_svc_token [OF assms(2)] assms(1) by auto
  obtain http where http: "sv_HttpClient local_service = Some http" "hc_CustomerBaseURL http = ''http://customer''"
    by (simp add: local_service_def)
  define raw where "raw = print_value (JObj [(''user_id'', JStr ''user-1'')])"
  have reply: "env_http local_env q (w_http w1) =
      (Inr \<lparr>rp_status = 200, rp_body = Inr raw\<rparr>, \<lparr>pe_http = [], pe_ddb = []\<rparr>)" for q
    unfolding h raw_def
    by (simp add: login_world_def local_world_def local_env_def local_http_def del: print_value.simps)
  have get: "fst (exec (authorized_get what (hc_CustomerBaseURL http @ PathCredentials @ ''?email='' @ QueryEscape ''a@b.c'') tok)
      local_env w1) = Inr raw" for what
    unfolding http
    by (simp only: authorized_get_def login_url not_True_eq_False if_False exec.simps reply prod.case sum.case)
      (simp add: success_status_def)
  obtain w2 where "exec (GetUserCredentials http ''a@b.c'' tok) local_env w1 = (Inr (Some
      \<lparr>cred_AuthMethods = [], cred_EmailVerified = False, cred_PasswordHash = None, cred_UserId = ''user-1''\<rparr>), w2)"
    using GetUserCredentials_reply [OF get login_reply [folded raw_def]] by (elim exE)
  from creds_side_found [OF http(1) t this] show ?thesis by (intro exI)
qed

lemma login_issued:
  "\<exists>t. issued (fst (exec (OTPVerifyHandler sch local_service login_request) local_env login_world)) = Some t"
proof -
  obtain w1 w2 w3 where a: "exec (IncrOTPAttempts local_client ''a@b.c'') local_env login_world = ((1, None), w1)"
    "exec (VerifyOTP local_client ''a@b.c'' ''123456'') local_env w1 = (None, w2)"
    "exec (DeleteOTPAttempts local_client ''a@b.c'') local_env w2 = ((), w3)"
    "w_http w3 = w_http login_world" "w_svc w3 = ([], 0)"
    by (rule login_sides [THEN exE], elim exE conjE) (rule that; assumption)
  obtain v w4 where c: "exec (creds_side local_service ''a@b.c'') local_env w3 = (Inr (Some v), w4)"
    using login_creds [OF a(4,5)] by blast
  obtain tok w5 where s: "exec (s_SignToken local_service this_issuer (cred_UserId v) audienceUser otpTokenTTL
      [''otp:verified'']) local_env w4 = (Inr tok, w5)"
    by (simp add: exec_local_SignToken exec_local_SignRefreshToken)
  have "exec (VerifyOTP (sv_CacheClient local_service) (normal_email ''A@b.c'') (strings_TrimSpace ''123456'')) local_env w1 = (None, w2)"
    "exec (IncrOTPAttempts (sv_CacheClient local_service) (normal_email ''A@b.c'')) local_env login_world = ((1, None), w1)"
    "exec (DeleteOTPAttempts (sv_CacheClient local_service) (normal_email ''A@b.c'')) local_env w2 = ((), w3)"
    "exec (creds_side local_service (normal_email ''A@b.c'')) local_env w3 = (Inr (Some v), w4)"
    using a(1-3) c by (simp_all only: login_email local_service_fields)
  note steps = this
  have ok: "sdk_ParseAddress (sv_sdk local_service) (normal_email ''A@b.c'') = Inr ()"
      "strings_TrimSpace ''123456'' \<noteq> []" "(1::int) \<le> MaxOTPAttempts"
    by (simp_all only: login_email local_service_fields) (simp_all add: local_sdk_def MaxOTPAttempts_def)
  show ?thesis
    by (rule OTPVerifyHandler_succeeds [OF login_decoded [folded local_service_fields(2)] _ _ ok(1) _ steps(2) ok(3)
          steps(1) steps(3,4) s, unfolded OTPVerifyRequest.select_convs, OF refl refl ok(2)])
qed

theorem otp_login_sound_witness:
  "\<exists>t now subject. issued (fst (exec (OTPVerifyHandler [True, False, False] local_service login_request)
      local_env login_world)) = Some t \<and>
    token_for local_service (ts_AccessToken t) subject audienceUser [] [] otpTokenTTL [otpScope] now \<and>
    ttl_live (w_redis login_world) (otpKeyPrefix @ ''a@b.c'') = Some ''123456''"
proof -
  obtain t where t: "issued (fst (exec (OTPVerifyHandler [True, False, False] local_service login_request)
      local_env login_world)) = Some t"
    using login_issued by blast
  have "plain_id ''a@b.c''" by (simp add: plain_id_def)
  then show ?thesis
    using otp_login_sound [OF local_kv_store prod.collapse [symmetric] t] t login_decoded
    by (auto simp: login_email)
qed

end
