(* ===== verification/OtpRequestProps.thy ===== *)
theory OtpRequestProps
  imports OtpEndpoints LocalOAuth OtpStoreProps
begin

text \<open>
  More properties of the one-time code endpoints: what a request for a code does, how long the
  code lives, that exhausted attempts block guessing, and that pending e-mails are bounded.
\<close>

section \<open>Asking for a code\<close>

lemma otp_banned_frame:
  assumes "exec (otp_banned s email) E w = (b, w1)"
  shows "w1 = w\<lparr>w_http := w_http w1, w_rt := w_rt w1\<rparr>"
  using assms
  by (auto simp: otp_banned_def exec_call IsBanned_def split: option.splits prod.splits sum.splits if_splits)

lemma OTPRequestHandler_reaches:
  assumes "and_then (Decode (in_Body req)) (OTPRequest_of_json (sv_sdk s)) = Inr body"
    and "normal_email body = email" and "sdk_ParseAddress (sv_sdk s) email = Inr ()"
    and "exec (otp_banned s email) E w = (b, w1)"
  shows "exec (OTPRequestHandler s req) E w =
    (if b then (\<lparr>rs_Headers = json_no_store, rs_Outcome = SendError Global_Forbidden ''account is not eligible for OTP''\<rparr>, w1)
     else case exec (GenerateAndStoreOTP (sv_CacheClient s) email) E w1 of
       (Inl err, w2) \<Rightarrow>
         (if errors_Is err ''ErrOTPCooldown''
          then \<lparr>rs_Headers = json_no_store @ [(''Retry-After'', strconv_Itoa OTPCooldownSeconds)],
            rs_Outcome = SendError Global_TooManyRequests ''OTP requested too soon, try again shortly''\<rparr>
          else \<lparr>rs_Headers = json_no_store, rs_Outcome = SendError Global_Internal ''failed to generate OTP''\<rparr>, w2)
     | (Inr code, w2) \<Rightarrow>
         (case sv_HttpClient s of
            None \<Rightarrow> (\<lparr>rs_Headers = json_no_store,
              rs_Outcome = SendError Global_Internal ''panic: nil pointer dereference''\<rparr>, w2)
          | Some http \<Rightarrow>
              (\<lparr>rs_Headers = json_no_store, rs_Outcome = Reply 200 (MessageBody ''OTP created successfully'')\<rparr>,
               snd (exec (SendEmail (sv_sdk s) http (otp_email email code)) E w2))))"
  using assms
  by (auto simp: OTPRequestHandler_def Let_def exec_call split: prod.splits sum.splits option.splits)

text \<open>The world after a code was made: its e-mail is queued when there is a slot for it.\<close>

definition email_queued :: "sdk \<Rightarrow> HttpClient \<Rightarrow> string \<Rightarrow> string \<Rightarrow> ('r, 'h, 'c) world \<Rightarrow> http_request list" where
  "email_queued S http email code w =
     (if maxConcurrentEmails \<le> w_sem w then []
      else case email_request S http (otp_email email code) of None \<Rightarrow> [] | Some q \<Rightarrow> [q])"

text \<open>C23: A request for a code, on a store that answers. A banned address is refused with 403 and an
  address in its cooldown with 429 and \<open>Retry-After: 60\<close>, and in both cases the store is as
  before and no e-mail starts. Otherwise, a new code of the random source replaces any pending
  code, the cooldown starts, an earlier redemption is forgotten, and the e-mail with the code is
  queued if a slot is free; the answer does not show the code.\<close>

theorem otp_request_effect:
  assumes "kv_reliable (env_cache E) live ok" and "cc_api (sv_CacheClient s) \<noteq> None" and "ok (w_redis w)"
    and "and_then (Decode (in_Body req)) (OTPRequest_of_json (sv_sdk s)) = Inr body"
    and "normal_email body = email" and "sdk_ParseAddress (sv_sdk s) email = Inr ()" and "plain_id email"
    and "exec (otp_banned s email) E w = (banned, w1)" and "env_rand_int E otpMax (w_rt w1) = (Inr n, rt)"
    and "sv_HttpClient s = Some http" and "exec (OTPRequestHandler s req) E w = (r, w')"
  shows "if banned then rs_Outcome r = SendError Global_Forbidden ''account is not eligible for OTP'' \<and>
      w_redis w' = w_redis w \<and> w_emails w' = w_emails w
    else if live (w_redis w) (otpCooldownKey @ email) \<noteq> None
    then rs_Outcome r = SendError Global_TooManyRequests ''OTP requested too soon, try again shortly'' \<and>
      (''Retry-After'', ''60'') \<in> set (rs_Headers r) \<and> live (w_redis w') = live (w_redis w) \<and> w_emails w' = w_emails w
    else rs_Outcome r = Reply 200 (MessageBody ''OTP created successfully'') \<and>
      live (w_redis w') = otp_issued (live (w_redis w)) email (sprintf_06d n) \<and>
      w_emails w' = w_emails w @ email_queued (sv_sdk s) http email (sprintf_06d n) w"
proof -
  have f: "w_redis w1 = w_redis w" "w_emails w1 = w_emails w" "w_sem w1 = w_sem w"
    using arg_cong [OF otp_banned_frame [OF assms(8)], of w_redis] arg_cong [OF otp_banned_frame [OF assms(8)], of w_emails]
      arg_cong [OF otp_banned_frame [OF assms(8)], of w_sem] by simp_all
  note run = OTPRequestHandler_reaches [OF assms(4-6,8)]
  show ?thesis
  proof (cases banned)
    case True
    then show ?thesis using run assms(11) f by auto
  next
    case False
    obtain g w2 where g: "exec (GenerateAndStoreOTP (sv_CacheClient s) email) E w1 = (g, w2)" by fastforce
    have fr: "w_emails w2 = w_emails w \<and> w_sem w2 = w_sem w" using Generate_frame [OF g] f by simp
    have c: "case g of
        Inr code \<Rightarrow> live (w_redis w) (otpCooldownKey @ email) = None \<and> code = sprintf_06d n \<and>
          live (w_redis w2) = otp_issued (live (w_redis w)) email code
      | Inl err \<Rightarrow> live (w_redis w) (otpCooldownKey @ email) \<noteq> None \<and> err = ErrOTPCooldown \<and>
          live (w_redis w2) = live (w_redis w)"
      using kv_reliable.Generate_exec [OF assms(1) refl assms(2) _ assms(7), of w1] g f assms(3,9)
      by (auto split: sum.splits if_splits)
    have i: "strconv_Itoa OTPCooldownSeconds = ''60''" by code_simp
    show ?thesis
      using run assms(10,11) False g c fr i
      by (auto simp: ErrOTPCooldown_def SendEmail_exec email_queued_def split: sum.splits option.splits)
  qed
qed

definition code_request :: http_in where
  "code_request = local_request (JObj [(''email'', JStr ''A@b.c'')])"

lemma code_request_decoded:
  "and_then (Decode (in_Body code_request)) (OTPRequest_of_json local_sdk) = Inr ''A@b.c''"
  by (simp add: code_request_def Decode_print maxNestingDepth_def to_valid_ascii OTPRequest_of_json_def
      struct_value_def field_email_def members_of_def local_sdk_def fold_name_lower del: print_value.simps)

lemma code_email: "normal_email ''A@b.c'' = ''a@b.c''"
  by code_simp

lemma local_not_banned: "exec (otp_banned local_service email) local_env w = (False, w)"
  by (simp add: otp_banned_def)

theorem otp_request_effect_witness:
  "\<exists>r w'. exec (OTPRequestHandler local_service code_request) local_env (local_world Map.empty [] 5) = (r, w') \<and>
     rs_Outcome r = Reply 200 (MessageBody ''OTP created successfully'') \<and>
     ttl_live (w_redis w') (otpKeyPrefix @ ''a@b.c'') = Some (sprintf_06d 123456)"
proof -
  let ?w = "local_world Map.empty [] 5"
  obtain r w' where e: "exec (OTPRequestHandler local_service code_request) local_env ?w = (r, w')" by fastforce
  obtain rt where n: "env_rand_int local_env otpMax (w_rt ?w) = (Inr 123456, rt)"
    by (simp add: local_env_def local_rand_int_def local_world_def otpMax_def)
  obtain http where h: "sv_HttpClient local_service = Some http" by (simp add: local_service_def)
  have p: "sdk_ParseAddress (sv_sdk local_service) ''a@b.c'' = Inr ()" "plain_id ''a@b.c''"
    by (simp_all add: local_sdk_def plain_id_def)
  have d: "and_then (Decode (in_Body code_request)) (OTPRequest_of_json (sv_sdk local_service)) = Inr ''A@b.c''"
    using code_request_decoded by (simp only: local_service_fields)
  have "ttl_live (w_redis ?w) (otpCooldownKey @ ''a@b.c'') = None" by (simp add: local_world_def ttl_live_def)
  with otp_request_effect [OF local_kv_reliable _ local_redis_ok d code_email p local_not_banned n h e] e
  show ?thesis by (auto simp: otp_issued_def)
qed

section \<open>Guessing\<close>

context kv_reliable
begin

lemma Incr_counts:
  assumes "env_cache E = api" and "cc_api c \<noteq> None" and "ok (w_redis w)"
    and "live (w_redis w) (otpKeyPrefix @ email) \<noteq> None"
    and "live (w_redis w) (otpAttemptsKey @ email) = Some (strconv_Itoa i)" and "1 \<le> i" and "i < 2 ^ 63 - 1"
  shows "\<exists>s. exec (IncrOTPAttempts c email) E w = ((i + 1, None), w\<lparr>w_redis := s\<rparr>) \<and> ok s \<and>
    live s = (live (w_redis w))(otpAttemptsKey @ email \<mapsto> strconv_Itoa (i + 1))"
proof -
  obtain s1 where 1: "op_Exists api (otpKeyPrefix @ email) (w_redis w) = (Inr True, s1)" "ok s1"
    "live s1 = live (w_redis w)" using exists_eq [OF assms(3), of "otpKeyPrefix @ email"] assms(4) by auto
  obtain s2 where "op_Incr api (otpAttemptsKey @ email) s1 = (Inr (i + 1), s2)" "ok s2"
    "live s2 = (live s1)(otpAttemptsKey @ email \<mapsto> strconv_Itoa (i + 1))"
    using incr_eq [OF 1(2), of "otpAttemptsKey @ email" i] 1(3) assms(5-7) by auto
  then show ?thesis using 1 assms(1,2,6) by (auto simp: IncrOTPAttempts_def)
qed

end

text \<open>Once five attempts are counted against an address with a pending code, a submission is answered
  with 429 whatever code it carries: on a store that answers, only the counter changes, so that
  the response says nothing about the code and the code is not used up.\<close>

theorem otp_exhausted_blocks:
  assumes "kv_reliable (env_cache E) live ok" and "cc_api (sv_CacheClient s) \<noteq> None" and "ok (w_redis w)"
    and "and_then (Decode (in_Body req)) (OTPVerifyRequest_of_json (sv_sdk s)) = Inr body"
    and "normal_email (ov_Email body) = email" and "sdk_ParseAddress (sv_sdk s) email = Inr ()"
    and "strings_TrimSpace (ov_Code body) \<noteq> []"
    and "live (w_redis w) (otpKeyPrefix @ email) \<noteq> None"
    and "live (w_redis w) (otpAttemptsKey @ email) = Some (strconv_Itoa i)" and "MaxOTPAttempts \<le> i" and "i < 2 ^ 63 - 1"
  shows "\<exists>w'. exec (OTPVerifyHandler sch s req) E w =
      (\<lparr>rs_Headers = json_no_store, rs_Outcome = SendError Global_TooManyRequests ''too many OTP attempts''\<rparr>, w') \<and>
    live (w_redis w') = (live (w_redis w))(otpAttemptsKey @ email \<mapsto> strconv_Itoa (i + 1))"
proof -
  have "1 \<le> i" using assms(10) by (simp add: MaxOTPAttempts_def)
  then obtain st where "exec (IncrOTPAttempts (sv_CacheClient s) email) E w = ((i + 1, None), w\<lparr>w_redis := st\<rparr>)"
    "live st = (live (w_redis w))(otpAttemptsKey @ email \<mapsto> strconv_Itoa (i + 1))"
    using kv_reliable.Incr_counts [OF assms(1) refl assms(2,3,8,9) _ assms(11)] by blast
  then show ?thesis using assms(4-7,10) by (auto simp: OTPVerifyHandler_def Let_def exec_call)
qed

theorem otp_exhausted_blocks_witness:
  "\<exists>w'. exec (OTPVerifyHandler [] local_service (local_request
        (JObj [(''email'', JStr ''A@b.c''), (''code'', JStr ''123456'')]))) local_env
      (local_world [''otp:a@b.c'' \<mapsto> (''123456'', Some 200), ''otp:attempts:a@b.c'' \<mapsto> (''5'', Some 200)] [] 5) =
    (\<lparr>rs_Headers = json_no_store, rs_Outcome = SendError Global_TooManyRequests ''too many OTP attempts''\<rparr>, w')"
proof -
  let ?w = "local_world [''otp:a@b.c'' \<mapsto> (''123456'', Some 200), ''otp:attempts:a@b.c'' \<mapsto> (''5'', Some 200)] [] 5"
  let ?r = "local_request (JObj [(''email'', JStr ''A@b.c''), (''code'', JStr ''123456'')])"
  have d: "and_then (Decode (in_Body ?r)) (OTPVerifyRequest_of_json (sv_sdk local_service))
      = Inr \<lparr>ov_Email = ''A@b.c'', ov_Code = ''123456''\<rparr>"
    by (simp only: local_service_fields)
      (simp add: Decode_print maxNestingDepth_def to_valid_ascii OTPVerifyRequest_of_json_def struct_value_def
        field_email_def field_string_def members_of_def local_sdk_def fold_name_lower del: print_value.simps)
  have e: "normal_email (ov_Email \<lparr>ov_Email = ''A@b.c'', ov_Code = ''123456''\<rparr>) = ''a@b.c''"
    by (simp only: OTPVerifyRequest.select_convs code_email)
  have c: "strings_TrimSpace (ov_Code \<lparr>ov_Email = ''A@b.c'', ov_Code = ''123456''\<rparr>) \<noteq> []"
    by (simp only: OTPVerifyRequest.select_convs) code_simp
  have p: "sdk_ParseAddress (sv_sdk local_service) ''a@b.c'' = Inr ()" by (simp add: local_sdk_def)
  have l: "ttl_live (w_redis ?w) (otpKeyPrefix @ ''a@b.c'') \<noteq> None"
    "ttl_live (w_redis ?w) (otpAttemptsKey @ ''a@b.c'') = Some (strconv_Itoa 5)"
    by (simp_all add: local_world_def ttl_live_def cache_keys Itoa_5)
  have b: "MaxOTPAttempts \<le> (5::int)" "(5::int) < 2 ^ 63 - 1" by (simp_all add: MaxOTPAttempts_def)
  have a: "cc_api (sv_CacheClient local_service) \<noteq> None" by simp
  from otp_exhausted_blocks [OF local_kv_reliable a local_redis_ok d e p c l b] show ?thesis by (rule ex_forward) (rule conjunct1)
qed

section \<open>How long a code lives\<close>

text \<open>A code that was sent is pending for 300 seconds and not longer, while the e-mail that carries
  it says it lives \<open>otpTokenTTL\<close>, 1800 seconds.\<close>

theorem otp_code_life:
  assumes "redis (env_cache E) live ttl elapse" and "exec (GenerateAndStoreOTP c email) E w = (Inr code, w')"
    and "0 \<le> d"
  shows "(live (elapse d (w_redis w')) (otpKeyPrefix @ email) = Some code \<longleftrightarrow> d < 300) \<and>
    se_TemplateData (otp_email email code) = Some [(''code'', JStr code), (''ttl'', JNum ''1800'')]"
proof -
  obtain s u w0 where "op_Set (env_cache E) (otpKeyPrefix @ email) code otpTTLSec s = (u, w_redis w')" "u = Inr ()"
    using assms(2)
    by (auto simp: GenerateAndStoreOTP_def exec_call exec_generateOTPCode
        split: if_splits prod.splits sum.splits bool.splits)
  then have "live (w_redis w') (otpKeyPrefix @ email) = Some code" "ttl (w_redis w') (otpKeyPrefix @ email) = Some 300"
    using redis.set_ttl [OF assms(1) otp_ttl_pos] by (fastforce simp: otpTTLSec_def)+
  moreover have "strconv_Itoa otpTokenTTL = ''1800''" by code_simp
  ultimately show ?thesis
    using redis.elapse_live [OF assms(1,3), of "w_redis w'" "otpKeyPrefix @ email"] by (auto simp: otp_email_def)
qed

theorem otp_code_life_witness:
  "\<exists>w'. exec (GenerateAndStoreOTP local_client ''a@b.c'') local_env (local_world Map.empty [] 0)
      = (Inr (sprintf_06d 123456), w') \<and>
    ttl_live (ttl_elapse 300 (w_redis w')) (otpKeyPrefix @ ''a@b.c'') \<noteq> Some (sprintf_06d 123456)"
proof -
  let ?g = "exec (GenerateAndStoreOTP local_client ''a@b.c'') local_env (local_world Map.empty [] 0)"
  have gen: "?g = (Inr (sprintf_06d 123456), snd ?g)" by (simp add: eval_otp)
  from otp_code_life [OF local_redis this, of 300] gen show ?thesis by (intro exI [of _ "snd ?g"]) simp
qed

section \<open>Pending e-mails\<close>

text \<open>The service handles a request for a code, or a pending e-mail is delivered.\<close>

inductive email_step ::
  "('r, 'h, 'c) env \<Rightarrow> Service \<Rightarrow> ('r, 'h, 'c) world \<Rightarrow> ('r, 'h, 'c) world \<Rightarrow> bool"
  for E s where
  handle: "email_step E s w (snd (exec (OTPRequestHandler s req) E w))"
| deliver: "email_step E s w (email_done E w)"

lemma OTPRequestHandler_email_inv:
  assumes "email_inv w"
  shows "email_inv (snd (exec (OTPRequestHandler s req) E w))"
proof (cases "and_then (Decode (in_Body req)) (OTPRequest_of_json (sv_sdk s))")
  case (Inl err)
  then show ?thesis using assms by (simp add: OTPRequestHandler_def Let_def)
next
  case (Inr body)
  show ?thesis
  proof (cases "sdk_ParseAddress (sv_sdk s) (normal_email body)")
    case (Inl err)
    then show ?thesis using assms Inr by (simp add: OTPRequestHandler_def Let_def)
  next
    case r: (Inr u)
    obtain b w1 where b: "exec (otp_banned s (normal_email body)) E w = (b, w1)" by fastforce
    obtain g w2 where g: "exec (GenerateAndStoreOTP (sv_CacheClient s) (normal_email body)) E w1 = (g, w2)" by fastforce
    have i1: "email_inv w1" using assms otp_banned_frame [OF b]
      by (metis (no_types, lifting) email_inv_def world.select_convs(5,6) world.surjective world.update_convs(2,3))
    then have "email_inv w2" using Generate_frame [OF g] by (simp add: email_inv_def)
    then show ?thesis
      using i1 g SendEmail_inv OTPRequestHandler_reaches [OF Inr refl _ b] r
      by (auto split: sum.split option.split)
  qed
qed

text \<open>However requests for codes and deliveries of e-mails follow one another, there is exactly one
  pending e-mail per slot taken, and never more than 20.\<close>

theorem emails_bounded:
  assumes "(email_step E s)\<^sup>*\<^sup>* w w'" and "w_sem w = 0" and "w_emails w = []"
  shows "w_sem w' = length (w_emails w') \<and> length (w_emails w') \<le> 20"
proof -
  have "email_inv w" using assms(2,3) by (simp add: email_inv_def)
  with assms(1) have "email_inv w'"
    by (induction rule: rtranclp_induct) (auto elim: email_step.cases intro: OTPRequestHandler_email_inv email_done_inv)
  then show ?thesis by (auto simp: email_inv_def maxConcurrentEmails_def)
qed

theorem emails_bounded_witness:
  "length (w_emails (snd (exec (OTPRequestHandler local_service code_request) local_env (local_world Map.empty [] 5)))) \<le> 20"
proof -
  let ?w = "local_world Map.empty [] 5"
  have "(email_step local_env local_service)\<^sup>*\<^sup>* ?w (snd (exec (OTPRequestHandler local_service code_request) local_env ?w))"
    by (intro r_into_rtranclp email_step.handle)
  from emails_bounded [OF this] show ?thesis by (simp add: local_world_def)
qed

end
