(* ===== verification/TokenEndpoints.thy ===== *)
theory TokenEndpoints
  imports Service
begin

text \<open>
  The endpoints that take a token: revocation (\<open>api/oauth_revoke.go\<close>), introspection
  (\<open>api/oauth_introspect.go\<close>) and validation (\<open>api/validate.go\<close>). Log output is not modelled.
\<close>

section \<open>Revocation\<close>

definition basic_challenge :: "(string \<times> string) list" where
  "basic_challenge = json_no_store @
     [(''WWW-Authenticate'', ''Basic realm='' @ [CHR 0x22] @ ''komodo-auth'' @ [CHR 0x22])]"

text \<open>The credentials of the request: those of the header, or those of the body.\<close>

definition revoke_credentials :: "http_in \<Rightarrow> RevokeRequest \<Rightarrow> string \<times> string" where
  "revoke_credentials req body =
     (case BasicAuth req of
        Some (i, p) \<Rightarrow> (i, p)
      | None \<Rightarrow>
          (case rv_ClientId body of None \<Rightarrow> [] | Some i \<Rightarrow> i,
           case rv_ClientSecret body of None \<Rightarrow> [] | Some p \<Rightarrow> p))"

text \<open>Whether the token belongs to another client than the one that asks.\<close>

definition cross_client :: "Registry option \<Rightarrow> string \<Rightarrow> CustomClaims \<Rightarrow> bool" where
  "cross_client reg clientID claims =
     (if snd (Registry_Get reg (cl_Subject claims)) then cl_Subject claims \<noteq> clientID
      else cl_Azp claims \<noteq> [] \<and> cl_Azp claims \<noteq> clientID)"

definition revoke_claims :: "Service \<Rightarrow> string \<Rightarrow> CustomClaims \<Rightarrow> response proc" where
  "revoke_claims s clientID claims =
     (let hs = json_no_store; jti = cl_ID claims in
      if jti = [] then respond hs (Reply 200 (RevokedBody None))
      else if cross_client (sv_ClientRegistry s) clientID claims
      then respond hs (SendError Auth_InsufficientScope ''token was not issued to this client'')
      else
        (let store = (\<lambda>ttl.
           if ttl \<le> 0 then respond hs (Reply 200 (RevokedBody None))
           else call (StoreRevoked (sv_CacheClient s) jti ttl) (\<lambda>e.
             case e of
               Some err \<Rightarrow> respond hs (SendError Global_Internal ''failed to revoke token'')
             | None \<Rightarrow> TimeNow (\<lambda>now. respond hs (Reply 200 (RevokedBody (Some (now div second_ns)))))))
         in case cl_ExpiresAt claims of
              None \<Rightarrow> store 0
            | Some e \<Rightarrow> TimeNow (\<lambda>now. store (e * second_ns - now))))"

definition OAuthRevokeHandler :: "Service \<Rightarrow> http_in \<Rightarrow> response proc" where
  "OAuthRevokeHandler s req =
     (let hs = json_no_store in
      case and_then (Decode (in_Body req)) RevokeRequest_of_json of
        Inl err \<Rightarrow> respond hs (SendError Global_BadRequest ''failed to parse request body'')
      | Inr reqBody \<Rightarrow>
          if rv_Token reqBody = [] then respond hs (SendError Global_BadRequest ''missing token parameter'')
          else case revoke_credentials req reqBody of (clientID, clientSecret) \<Rightarrow>
            if clientID = [] \<or> clientSecret = []
            then respond basic_challenge
              (SendError Auth_InvalidClientCredentials ''client authentication required'')
            else if \<not> snd (ValidateAndGet (sv_ClientRegistry s) clientID clientSecret)
            then respond basic_challenge
              (SendError Auth_InvalidClientCredentials ''invalid client credentials'')
            else call (s_ParseClaims s (rv_Token reqBody)) (\<lambda>c.
              case c of
                Inl err \<Rightarrow> respond hs (Reply 200 (RevokedBody None))
              | Inr claims \<Rightarrow> revoke_claims s clientID claims))"

section \<open>Introspection\<close>

text \<open>What is said of a token whose claims were parsed.\<close>

definition active_response :: "CustomClaims \<Rightarrow> IntrospectResponse" where
  "active_response claims =
     \<lparr>ir_Active = True,
      ir_Aud = (if 0 < length (cl_Audience claims) then Some (cl_Audience claims ! 0) else None),
      ir_ClientId = Some (cl_Subject claims), ir_Exp = cl_ExpiresAt claims, ir_Iat = cl_IssuedAt claims,
      ir_Scope = (if 0 < length (cl_Scopes claims) then Some (strings_Join (cl_Scopes claims) '' '') else None),
      ir_Sub = Some (cl_Subject claims), ir_TokenType = Some ''Bearer''\<rparr>"

definition OAuthIntrospectHandler :: "Service \<Rightarrow> http_in \<Rightarrow> response proc" where
  "OAuthIntrospectHandler s req =
     (let hs = json_no_store; inactive = respond hs (Reply 200 (IntrospectBody inactive_response)) in
      case and_then (Decode (in_Body req)) token_of_json of
        Inl err \<Rightarrow> respond hs (SendError Global_BadRequest ''missing token'')
      | Inr token \<Rightarrow>
          if token = [] then respond hs (SendError Global_BadRequest ''missing token'')
          else call (s_ParseClaims s token) (\<lambda>c.
            case c of
              Inl err \<Rightarrow> inactive
            | Inr claims \<Rightarrow>
                (let active = respond hs (Reply 200 (IntrospectBody (active_response claims))) in
                 if cl_ID claims = [] then active
                 else call (IsRevoked (sv_CacheClient s) (cl_ID claims)) (\<lambda>r.
                   case r of
                     Inl err \<Rightarrow> active
                   | Inr revoked \<Rightarrow> if revoked then inactive else active))))"

section \<open>Validation\<close>

definition validationErrorReason :: "goerror \<Rightarrow> string" where
  "validationErrorReason err =
     (if errors_Is err ''ErrTokenExpired'' then ''token has expired''
      else if errors_Is err ''ErrTokenNotValidYet'' then ''token is not yet valid''
      else if errors_Is err ''ErrTokenInvalidAudience'' \<or> errors_Is err ''ErrTokenInvalidIssuer''
      then ''token issuer or audience is invalid''
      else if errors_Is err ''ErrTokenSignatureInvalid'' \<or> errors_Is err ''ErrTokenMalformed''
      then ''token signature is invalid''
      else ''token is invalid'')"

definition invalid_response :: "string \<Rightarrow> ValidateResponse" where
  "invalid_response msg = \<lparr>vr_Error = Some msg, vr_Scopes = None, vr_Sub = None, vr_Valid = False\<rparr>"

definition ValidateTokenHandler :: "Service \<Rightarrow> http_in \<Rightarrow> response proc" where
  "ValidateTokenHandler s req =
     (let hs = json_no_store;
          invalid = (\<lambda>msg. respond hs (Reply 200 (ValidateBody (invalid_response msg)))) in
      case and_then (Decode (in_Body req)) token_of_json of
        Inl err \<Rightarrow> invalid ''missing or unparseable token''
      | Inr token \<Rightarrow>
          if token = [] then invalid ''missing or unparseable token''
          else call (s_ValidateAndParseClaims s token) (\<lambda>c.
            case c of
              Inl err \<Rightarrow> invalid (validationErrorReason err)
            | Inr claims \<Rightarrow>
                (let valid = respond hs (Reply 200 (ValidateBody
                   \<lparr>vr_Error = None, vr_Scopes = Some (cl_Scopes claims), vr_Sub = Some (cl_Subject claims),
                    vr_Valid = True\<rparr>)) in
                 if cl_ID claims = [] then valid
                 else call (IsRevoked (sv_CacheClient s) (cl_ID claims)) (\<lambda>r.
                   case r of
                     Inl err \<Rightarrow> valid
                   | Inr revoked \<Rightarrow>
                       if revoked then invalid ''token has been revoked'' else valid))))"

end
