(* ===== verification/RefreshProps.thy ===== *)
theory RefreshProps
  imports LocalOAuth
begin

text \<open>
  The refresh grant: when it issues, what it signs, how rotation revokes the token that was
  presented, and what a replay of a rotated token does to its family.
\<close>

section \<open>The steps of a refresh that issues\<close>

lemma allowed_audiences_redact [simp]: "allowed_refresh_audiences (redact rec) = allowed_refresh_audiences rec"
  by (simp add: allowed_refresh_audiences_def)

text \<open>The request up to the claims of the presented token.\<close>

lemma handleRefreshToken_issued:
  assumes "exec (handleRefreshToken s rb) E w = (r, w')" and "issued r = Some t"
  shows "\<exists>rec tok c w1. tr_RefreshToken rb = Some tok \<and>
    registered (sv_ClientRegistry s) (tr_ClientId rb) = Some rec \<and>
    cr_SecretHash rec = sha256_hex (tr_ClientSecret rb) \<and>
    exec (s_ParseClaims s tok) E w = (Inr c, w1) \<and>
    exec (refresh_with s (tr_ClientId rb) (redact rec) c) E w1 = (r, w')"
  using assms
  by (auto simp: handleRefreshToken_def Let_def ValidateAndGet_value exec_call
      split: option.splits if_splits prod.splits sum.splits)

lemma refreshRevocationDenied_refusal:
  "exec (refreshRevocationDenied s c) E w = (Some out, w') \<Longrightarrow> \<exists>e d. out = SendError e d"
  by (auto simp: refreshRevocationDenied_def Let_def exec_call
      split: option.splits if_splits prod.splits sum.splits)

text \<open>The checks on the claims.\<close>

lemma refresh_with_issued:
  assumes "exec (refresh_with s cid rec c) E w = (r, w')" and "issued r = Some t"
  shows "offline_access \<in> set (cl_Scopes c) \<and> cl_Azp c = cid \<and>
    (is_user_session c \<or> refresh_audience c \<in> set (allowed_refresh_audiences rec)) \<and>
    (\<exists>w1 w2. exec (refreshRevocationDenied s c) E w = (None, w1) \<and>
       exec (isRefreshTokenUserBanned s (cl_Scopes c) (cl_Subject c)) E w1 = (False, w2) \<and>
       exec (refresh_issue s cid c) E w2 = (r, w'))"
proof -
  obtain d w1 where d: "exec (refreshRevocationDenied s c) E w = (d, w1)" by fastforce
  obtain b w2 where b: "exec (isRefreshTokenUserBanned s (cl_Scopes c) (cl_Subject c)) E w1 = (b, w2)"
    by fastforce
  have denied: "issued r = None" if "d = Some out" "exec (respond json_no_store out) E w1 = (r, w')" for out
    using that d refreshRevocationDenied_refusal [of s c E w out w1] by auto
  show ?thesis
    using assms d b denied
    by (cases d) (auto simp: refresh_with_def Let_def exec_call split: if_splits)
qed

text \<open>The tokens that are signed, and the revocation of the old one.\<close>

lemma refresh_issue_issued:
  assumes "exec (refresh_issue s cid c) E w = (r, w')" and "issued r = Some t"
  shows "token_for s (ts_AccessToken t) (cl_Subject c) (refresh_audience c) [] [] accessTokenTTL
      (refresh_token_scopes cid c) (fst (env_now E (w_rt w))) \<and>
    (\<exists>rt fam now w1. ts_RefreshToken t = Some rt \<and>
       token_for s rt (cl_Subject c) (refresh_audience c) cid fam refreshTokenTTL (cl_Scopes c) now \<and>
       (cl_FamilyId c \<noteq> [] \<longrightarrow> fam = cl_FamilyId c) \<and> w_redis w1 = w_redis w \<and>
       exec (revoke_rotated s c) E w1 = ((), w'))"
proof -
  let ?a = "s_SignToken s this_issuer (cl_Subject c) (refresh_audience c) accessTokenTTL
      (refresh_token_scopes cid c)"
  obtain a w1 where a: "exec ?a E w = (a, w1)" by fastforce
  have a_ok: "\<exists>x. a = Inr x" using assms a by (cases a) (auto simp: refresh_issue_def Let_def exec_call)
  then obtain x where x: "a = Inr x" by blast
  have red: "w_redis w1 = w_redis w" using exec_no_redis [OF no_redis_sign(1) a] .
  define fam w2 where "fam = (if cl_FamilyId c = [] then fst (env_uuid E (w_rt w1)) else cl_FamilyId c)"
    and "w2 = (if cl_FamilyId c = [] then w1\<lparr>w_rt := snd (env_uuid E (w_rt w1))\<rparr> else w1)"
  let ?b = "s_SignRefreshToken s this_issuer (cl_Subject c) (refresh_audience c) cid fam
      refreshTokenTTL (cl_Scopes c)"
  obtain b w3 where b: "exec ?b E w2 = (b, w3)" by fastforce
  have red3: "w_redis w3 = w_redis w"
    using exec_no_redis [OF no_redis_sign(2) b] red by (simp add: w2_def)
  obtain rt where rt: "b = Inr rt"
    using assms a x b
    by (cases b; cases "cl_FamilyId c = []")
      (auto simp: refresh_issue_def Let_def exec_call fam_def w2_def split: prod.splits)
  have fin: "ts_AccessToken t = x \<and> ts_RefreshToken t = Some rt \<and> exec (revoke_rotated s c) E w3 = ((), w')"
    using assms a x b rt
    by (cases "cl_FamilyId c = []")
      (auto simp: refresh_issue_def Let_def exec_call fam_def w2_def split: prod.splits)
  have tok: "token_for s x (cl_Subject c) (refresh_audience c) [] [] accessTokenTTL
      (refresh_token_scopes cid c) (fst (env_now E (w_rt w)))"
    using exec_s_SignToken a x by blast
  have "token_for s rt (cl_Subject c) (refresh_audience c) cid fam refreshTokenTTL (cl_Scopes c)
      (fst (env_now E (w_rt w2)))"
    using exec_s_SignRefreshToken b rt by blast
  then show ?thesis using fin tok red3 fam_def by auto
qed

text \<open>The steps together.\<close>

lemma refresh_issued_steps:
  assumes "exec (handleRefreshToken s rb) E w = (r, w')" and "issued r = Some t"
  obtains rec tok c w1 w2 w3 where "tr_RefreshToken rb = Some tok"
    and "registered (sv_ClientRegistry s) (tr_ClientId rb) = Some rec"
    and "cr_SecretHash rec = sha256_hex (tr_ClientSecret rb)"
    and "exec (s_ParseClaims s tok) E w = (Inr c, w1)"
    and "offline_access \<in> set (cl_Scopes c)" and "cl_Azp c = tr_ClientId rb"
    and "is_user_session c \<or> refresh_audience c \<in> set (allowed_refresh_audiences rec)"
    and "exec (refreshRevocationDenied s c) E w1 = (None, w2)"
    and "exec (isRefreshTokenUserBanned s (cl_Scopes c) (cl_Subject c)) E w2 = (False, w3)"
    and "exec (refresh_issue s (tr_ClientId rb) c) E w3 = (r, w')"
proof -
  obtain rec tok c w1 where 1: "tr_RefreshToken rb = Some tok"
    "registered (sv_ClientRegistry s) (tr_ClientId rb) = Some rec"
    "cr_SecretHash rec = sha256_hex (tr_ClientSecret rb)"
    "exec (s_ParseClaims s tok) E w = (Inr c, w1)"
    "exec (refresh_with s (tr_ClientId rb) (redact rec) c) E w1 = (r, w')"
    using handleRefreshToken_issued [OF assms] by blast
  from refresh_with_issued [OF 1(5) assms(2)] 1(1-4) show thesis
    using that by auto
qed

section \<open>Soundness\<close>

lemma s_ParseClaims_sound:
  assumes "jwt_sound (sv_lib s)" and "exec (s_ParseClaims s tok) E w = (Inr c, w')"
  shows "\<exists>k. sv_JWT s = Some k \<and> signed_by_keys (sv_lib s) k tok c \<and>
    dates_valid (fst (env_now E (w_rt w))) c"
  using assms(2) by (auto simp: s_ParseClaims_def split: option.splits dest: ParseClaims_sound [OF assms(1)])


section \<open>A session to refresh\<close>

text \<open>A refresh token of the client \<open>orders\<close>, in the concrete service.\<close>

definition orders_claims :: CustomClaims where
  "orders_claims = refresh_claims this_issuer ''orders'' audienceService ''orders'' ''fam-1'' refreshTokenTTL
     [''offline_access'', ''orders:read''] 0 0 0 ''jti-1''"

definition orders_token :: string where
  "orders_token = local_sign ''k1'' orders_claims (ks_privateKey local_keyset)"

definition orders_refresh :: "string \<Rightarrow> TokenRequest" where
  "orders_refresh tok = empty_TokenRequest\<lparr>tr_GrantType := ''refresh_token'', tr_ClientId := ''orders'',
     tr_ClientSecret := ''s3cret'', tr_RefreshToken := Some tok\<rparr>"

lemma orders_refresh_fields [simp]:
  "tr_ClientId (orders_refresh tok) = ''orders''" "tr_ClientSecret (orders_refresh tok) = ''s3cret''"
  "tr_RefreshToken (orders_refresh tok) = Some tok"
  by (simp_all add: orders_refresh_def empty_TokenRequest_def)

lemma ascii_valid: "list_all (\<lambda>c. (of_char c :: nat) < 0x80) s \<Longrightarrow> to_valid s = s"
  by (rule to_valid_ascii)

lemma orders_claims_valid [simp]: "valid_claims orders_claims = orders_claims"
  by (simp add: valid_claims_def orders_claims_def refresh_claims_def this_issuer_def audienceService_def
      to_valid_ascii)

lemma orders_parse:
  "fst (exec (s_ParseClaims local_service orders_token) local_env w) =
     (if dates_valid (rt_now (w_rt w)) orders_claims then Inr orders_claims
      else Inl (Wrapf ''failed to parse token'' (Sentinel ''ErrTokenExpired'')))"
  "snd (exec (s_ParseClaims local_service orders_token) local_env w) = w"
  by (auto simp: s_ParseClaims_def exec_ParseClaims local_jwt_def orders_token_def local_parse_sign
      keyForToken_def rs256_header_def local_keys_def local_keyset_def check_claims_def opts_valid_def
      to_valid_ascii)

section \<open>Completeness\<close>

text \<open>
  No ban check is made: there is no ban checker, or one of the token's scopes begins with
  \<open>svc:\<close>, which is taken as the mark of a service token.
\<close>

definition ban_check_off :: "Service \<Rightarrow> CustomClaims \<Rightarrow> bool" where
  "ban_check_off s c \<longleftrightarrow> sv_BannedChecker s = None \<or> (\<exists>sc \<in> set (cl_Scopes c). strings_HasPrefix sc ''svc:'')"

lemma ban_check_off_None [simp]: "sv_BannedChecker s = None \<Longrightarrow> ban_check_off s c"
  by (simp add: ban_check_off_def)

lemma refresh_issue_succeeds:
  assumes "signs s"
  shows "\<exists>t w'. exec (refresh_issue s cid c) E w =
    (\<lparr>rs_Headers = json_no_store, rs_Outcome = Reply 200 (TokenBody t)\<rparr>, w')"
proof -
  obtain x w1 where a: "exec (s_SignToken s this_issuer (cl_Subject c) (refresh_audience c) accessTokenTTL
      (refresh_token_scopes cid c)) E w = (Inr x, w1)"
    using signs_exec(1) [OF assms] by blast
  define fam w2 where "fam = (if cl_FamilyId c = [] then fst (env_uuid E (w_rt w1)) else cl_FamilyId c)"
    and "w2 = (if cl_FamilyId c = [] then w1\<lparr>w_rt := snd (env_uuid E (w_rt w1))\<rparr> else w1)"
  obtain rt w3 where b: "exec (s_SignRefreshToken s this_issuer (cl_Subject c) (refresh_audience c) cid fam
      refreshTokenTTL (cl_Scopes c)) E w2 = (Inr rt, w3)"
    using signs_exec(2) [OF assms] by blast
  obtain w4 where "exec (revoke_rotated s c) E w3 = ((), w4)"
    by (cases "exec (revoke_rotated s c) E w3") auto
  then show ?thesis using a b
    by (cases "cl_FamilyId c = []") (auto simp: refresh_issue_def Let_def exec_call fam_def w2_def split: prod.splits)
qed

context kv_reliable
begin

lemma refresh_succeeds:
  assumes "env_cache E = api" and "cc_api (sv_CacheClient s) \<noteq> None" and "ok (w_redis w)"
    and "signs s" and "ban_check_off s c"
    and "tr_RefreshToken rb = Some tok" and "tok \<noteq> []"
    and "tr_ClientId rb \<noteq> []" and "tr_ClientSecret rb \<noteq> []"
    and "registered (sv_ClientRegistry s) (tr_ClientId rb) = Some rec"
    and "cr_SecretHash rec = sha256_hex (tr_ClientSecret rb)"
    and "fst (exec (s_ParseClaims s tok) E w) = Inr c"
    and "offline_access \<in> set (cl_Scopes c)" and "cl_Azp c = tr_ClientId rb"
    and "is_user_session c \<or> refresh_audience c \<in> set (allowed_refresh_audiences rec)"
    and "\<not> revoked_in (live (w_redis w)) (cl_ID c)"
    and "\<not> family_revoked_in (live (w_redis w)) (cl_FamilyId c)"
  shows "\<exists>t w'. exec (handleRefreshToken s rb) E w =
    (\<lparr>rs_Headers = json_no_store, rs_Outcome = Reply 200 (TokenBody t)\<rparr>, w')"
proof -
  obtain w1 where p: "exec (s_ParseClaims s tok) E w = (Inr c, w1)"
    using assms(12) by (metis prod.collapse)
  have r1: "w_redis w1 = w_redis w" using exec_no_redis [OF no_redis_sign(3) p] .
  obtain w2 where d: "exec (refreshRevocationDenied s c) E w1 = (None, w2)"
    using revocation_allowed [OF assms(1,2), of w1 c] assms(3,16,17) r1 by auto
  obtain t w' where i: "exec (refresh_issue s (tr_ClientId rb) c) E w2 =
      (\<lparr>rs_Headers = json_no_store, rs_Outcome = Reply 200 (TokenBody t)\<rparr>, w')"
    using refresh_issue_succeeds [OF assms(4)] by blast
  have "exec (isRefreshTokenUserBanned s (cl_Scopes c) (cl_Subject c)) E w2 = (False, w2)"
    using assms(5) by (auto simp: isRefreshTokenUserBanned_def Let_def ban_check_off_def list_ex_iff)
  then have "exec (refresh_with s (tr_ClientId rb) (redact rec) c) E w1 =
      (\<lparr>rs_Headers = json_no_store, rs_Outcome = Reply 200 (TokenBody t)\<rparr>, w')"
    using d i assms(13-15) by (auto simp: refresh_with_def Let_def exec_call)
  then have "exec (handleRefreshToken s rb) E w =
      (\<lparr>rs_Headers = json_no_store, rs_Outcome = Reply 200 (TokenBody t)\<rparr>, w')"
    using assms(6-11) p by (simp add: handleRefreshToken_def Let_def ValidateAndGet_value exec_call)
  then show ?thesis by blast
qed

end


lemma orders_claims_fields [simp]:
  "cl_ID orders_claims = ''jti-1''" "cl_FamilyId orders_claims = ''fam-1''" "cl_Azp orders_claims = ''orders''"
  "cl_Subject orders_claims = ''orders''" "offline_access \<in> set (cl_Scopes orders_claims)"
  "cl_ExpiresAt orders_claims = Some 2592000" "cl_Audience orders_claims = [audienceService]"
  "cl_NotBefore orders_claims = Some 0" "cl_Scopes orders_claims = [offline_access, ''orders:read'']"
  by (simp_all add: orders_claims_def refresh_claims_def offline_access_def refreshTokenTTL_def to_seconds_def)

lemma orders_dates: "dates_valid now orders_claims \<longleftrightarrow> 0 \<le> now \<and> now < 2592000 * 1000000000"
  by (auto simp: dates_valid_def)

lemma orders_audience [simp]: "refresh_audience orders_claims \<in> set (allowed_refresh_audiences local_record)"
  by (simp add: refresh_audience_def allowed_refresh_audiences_def local_record_def audienceService_def)

lemma orders_refreshed:
  assumes "ttl_ok (w_redis w)" and "0 \<le> rt_now (w_rt w)" and "rt_now (w_rt w) < 2592000 * 1000000000"
    and "\<not> revoked_in (ttl_live (w_redis w)) ''jti-1''"
    and "\<not> family_revoked_in (ttl_live (w_redis w)) ''fam-1''"
  shows "\<exists>t w'. exec (handleRefreshToken local_service (orders_refresh orders_token)) local_env w =
    (\<lparr>rs_Headers = json_no_store, rs_Outcome = Reply 200 (TokenBody t)\<rparr>, w')"
proof (rule kv_reliable.refresh_succeeds [OF local_kv_reliable refl _ assms(1) local_signs])
  show "fst (exec (s_ParseClaims local_service orders_token) local_env w) = Inr orders_claims"
    using assms by (simp add: orders_parse orders_dates)
  show "registered (sv_ClientRegistry local_service) (tr_ClientId (orders_refresh orders_token)) = Some local_record"
    by simp
  show "cr_SecretHash local_record = sha256_hex (tr_ClientSecret (orders_refresh orders_token))"
    by (simp add: local_record_def)
qed (use assms in \<open>simp_all add: orders_token_def\<close>)

lemma local_sign_inj:
  assumes "local_sign kid c sk = local_sign kid' c' sk'"
  shows "valid_claims c = valid_claims c'"
proof -
  have "token_json kid c sk = token_json kid' c' sk'" using Unmarshal_sign assms by (metis Inr_inject)
  then have "claims_json (valid_claims c) = claims_json (valid_claims c')" by (simp add: token_json_def)
  then show ?thesis using claims_round by (metis option.inject)
qed

lemma orders_signed:
  assumes "signed_by_keys local_jwt k orders_token c" shows "c = orders_claims"
proof -
  obtain kid c0 sk where "gj_SignedString local_jwt kid c0 sk = Inr orders_token" and c: "c = valid_claims c0"
    using assms unfolding signed_by_keys_def by blast
  then have "local_sign kid c0 sk = local_sign ''k1'' orders_claims (ks_privateKey local_keyset)"
    by (simp add: local_jwt_def orders_token_def)
  from local_sign_inj [OF this] c show ?thesis by simp
qed



section \<open>Rotation and reuse\<close>

text \<open>A token that parsed once parses again, to the same claims, as long as it is not expired.\<close>

lemma reparse:
  assumes "jwt_sound (sv_lib s)" and "jwt_complete (sv_lib s)"
    and "exec (s_ParseClaims s tok) E w = (Inr c, w')"
    and "dates_valid (fst (env_now E (w_rt v))) c"
  shows "fst (exec (s_ParseClaims s tok) E v) = Inr c"
proof -
  let ?opts = "\<lparr>po_Issuer = None, po_Audience = None, po_ValidMethods = [''RS256'']\<rparr>"
  obtain k where k: "sv_JWT s = Some k" "exec (ParseClaims (sv_lib s) k tok) E w = (Inr c, w')"
    using assms(3) by (auto simp: s_ParseClaims_def split: option.splits)
  then obtain t now where "gj_ParseWithClaims (sv_lib s) tok (keyForToken k) ?opts now = Inr t"
    and t: "c = tk_Claims t"
    by (auto simp: exec_ParseClaims split: prod.splits sum.splits)
  then obtain kid c0 sk where "gj_SignedString (sv_lib s) kid c0 sk = Inr tok" "c = valid_claims c0"
    "keyForToken k (rs256_header (to_valid kid)) = Inr (sk_Public sk)"
    using assms(1) unfolding jwt_sound_def by blast
  moreover from this(2) assms(4) have "dates_valid (fst (env_now E (w_rt v))) c0" by simp
  ultimately have "gj_ParseWithClaims (sv_lib s) tok (keyForToken k) ?opts (fst (env_now E (w_rt v)))
      = Inr \<lparr>tk_Claims = c, tk_Valid = True\<rparr>"
    using assms(2) unfolding jwt_complete_def by (auto simp: opts_valid_def)
  then show ?thesis using k(1) by (simp add: s_ParseClaims_def exec_ParseClaims case_prod_beta)
qed

text \<open>What a token issued for a family says about it when it is parsed.\<close>

lemma parsed_family:
  assumes "jwt_payload (sv_lib s)" and "token_for s tok sub aud azp fam ttl scopes now"
    and "exec (s_ParseClaims s tok) E w = (Inr c, w')"
  shows "cl_FamilyId c = to_valid fam"
proof -
  obtain kid t2 t3 jti sk where
    sg: "gj_SignedString (sv_lib s) kid (refresh_claims this_issuer sub aud azp fam ttl scopes now t2 t3 jti) sk
      = Inr tok"
    using assms(2) by (auto simp: token_for_def own_token_def)
  obtain k opts n t where "gj_ParseWithClaims (sv_lib s) tok (keyForToken k) opts n = Inr t" "c = tk_Claims t"
    using assms(3) by (auto simp: s_ParseClaims_def exec_ParseClaims split: option.splits prod.splits sum.splits)
  then have "c = valid_claims (refresh_claims this_issuer sub aud azp fam ttl scopes now t2 t3 jti)"
    using assms(1) sg unfolding jwt_payload_def by blast
  then show ?thesis by (simp add: valid_claims_def refresh_claims_def)
qed

context kv_store
begin

text \<open>Whatever else happens, a token that the store says is revoked is not refreshed.\<close>

lemma revoked_not_refreshed:
  assumes "env_cache E = api" and "cc_api (sv_CacheClient s) \<noteq> None"
    and "exec (handleRefreshToken s rb) E w = (r, w')"
    and "\<And>tok c w1. tr_RefreshToken rb = Some tok \<Longrightarrow> exec (s_ParseClaims s tok) E w = (Inr c, w1) \<Longrightarrow>
      revoked_in (live (w_redis w)) (cl_ID c) \<or> family_revoked_in (live (w_redis w)) (cl_FamilyId c)"
  shows "issued r = None"
proof (rule ccontr)
  assume "issued r \<noteq> None"
  then obtain t where t: "issued r = Some t" by blast
  obtain rec tok c w1 w2 w3 where st: "tr_RefreshToken rb = Some tok"
    "exec (s_ParseClaims s tok) E w = (Inr c, w1)" "exec (refreshRevocationDenied s c) E w1 = (None, w2)"
    using refresh_issued_steps [OF assms(3) t] by metis
  have "w_redis w1 = w_redis w" using exec_no_redis [OF no_redis_sign(3) st(2)] .
  then show False using revocation_passed [OF assms(1,2) st(3)] assms(4) [OF st(1,2)] by simp
qed

end

context kv_reliable
begin

lemma revoke_rotated_exec:
  assumes "env_cache E = api" and "cc_api (sv_CacheClient s) \<noteq> None" and "ok (w_redis w)"
    and "clock_ok E clock" and "exec (revoke_rotated s c) E w = ((), w')"
    and "cl_ID c \<noteq> []" and "cl_ExpiresAt c = Some e"
  shows "revoked_in (live (w_redis w')) (cl_ID c) \<or> e * second_ns \<le> clock (w_rt w')"
proof -
  obtain now rt where n: "env_now E (w_rt w) = (now, rt)" by fastforce
  have "now \<le> clock rt" using clock_now [OF assms(4) n] by blast
  moreover have "clock rt \<le> clock (w_rt w')"
    using assms(5-7) n exec_clock_mono [OF assms(4), of _ "w\<lparr>w_rt := rt\<rparr>" _ w']
    by (auto simp: revoke_rotated_def Let_def)
  ultimately have late: "\<not> now < e * second_ns \<Longrightarrow> e * second_ns \<le> clock (w_rt w')" by linarith
  show ?thesis
  proof (cases "now < e * second_ns")
    case True
    obtain s1 where "exec (StoreRevoked (sv_CacheClient s) (cl_ID c) (e * second_ns - now)) E (w\<lparr>w_rt := rt\<rparr>)
        = (None, w\<lparr>w_rt := rt, w_redis := s1\<rparr>)"
      "live s1 = (live (w_redis w))(revokedKey @ cl_ID c \<mapsto> sentinel)"
      using StoreRevoked_eq [OF assms(1,2) _ assms(6), of "w\<lparr>w_rt := rt\<rparr>" "e * second_ns - now"] assms(3) True
      by auto
    then show ?thesis using assms(5-7) n True
      by (auto simp: revoke_rotated_def Let_def exec_call)
  qed (use late in simp)
qed

text \<open>A refresh leaves the presented token revoked (or expired).\<close>

lemma refresh_revokes_presented:
  assumes "env_cache E = api" and "cc_api (sv_CacheClient s) \<noteq> None" and "ok (w_redis w)"
    and "clock_ok E clock" and "exec (handleRefreshToken s rb) E w = (r, w')" and "issued r = Some t"
    and "tr_RefreshToken rb = Some tok" and "fst (exec (s_ParseClaims s tok) E w) = Inr c"
    and "cl_ID c \<noteq> []" and "cl_ExpiresAt c = Some e"
  shows "(revoked_in (live (w_redis w')) (cl_ID c) \<or> e * second_ns \<le> clock (w_rt w')) \<and>
    (\<exists>rt fam now. ts_RefreshToken t = Some rt \<and> token_for s rt (cl_Subject c) (refresh_audience c)
       (tr_ClientId rb) fam refreshTokenTTL (cl_Scopes c) now \<and> (cl_FamilyId c \<noteq> [] \<longrightarrow> fam = cl_FamilyId c))"
proof -
  obtain w1 w2 w3 where st: "exec (s_ParseClaims s tok) E w = (Inr c, w1)"
    "exec (refreshRevocationDenied s c) E w1 = (None, w2)"
    "exec (isRefreshTokenUserBanned s (cl_Scopes c) (cl_Subject c)) E w2 = (False, w3)"
    "exec (refresh_issue s (tr_ClientId rb) c) E w3 = (r, w')"
    using refresh_issued_steps [OF assms(5,6)] assms(7,8) by (metis fst_conv option.inject sum.inject(2))
  have "ok (w_redis w1)" using exec_no_redis [OF no_redis_sign(3) st(1)] assms(3) by simp
  then have "ok (w_redis w2)"
    using revocation_passed [OF assms(1,2) st(2)] revocation_allowed [OF assms(1,2), of w1 c] st(2) by auto
  then have o: "ok (w_redis w3)" using exec_no_redis [OF no_redis_banned(1) st(3)] by simp
  obtain rt fam now w4 where i: "ts_RefreshToken t = Some rt"
    "token_for s rt (cl_Subject c) (refresh_audience c) (tr_ClientId rb) fam refreshTokenTTL (cl_Scopes c) now"
    "cl_FamilyId c \<noteq> [] \<longrightarrow> fam = cl_FamilyId c" "w_redis w4 = w_redis w3"
    "exec (revoke_rotated s c) E w4 = ((), w')"
    using refresh_issue_issued [OF st(4) assms(6)] by blast
  have "ok (w_redis w4)" using o i(4) by simp
  from revoke_rotated_exec [OF assms(1,2) this assms(4) i(5) assms(9,10)] i(1-3) show ?thesis by blast
qed

text \<open>Presenting it again revokes its family.\<close>

lemma replay_revokes_family:
  assumes "env_cache E = api" and "cc_api (sv_CacheClient s) \<noteq> None" and "ok (w_redis v)"
    and "clock_ok E clock" and "exec (s_ParseClaims s tok) E v = (Inr c, v0)"
    and "tr_RefreshToken rb = Some tok" and "tok \<noteq> []" and "tr_ClientId rb \<noteq> []" and "tr_ClientSecret rb \<noteq> []"
    and "registered (sv_ClientRegistry s) (tr_ClientId rb) = Some rec"
    and "cr_SecretHash rec = sha256_hex (tr_ClientSecret rb)"
    and "offline_access \<in> set (cl_Scopes c)" and "cl_Azp c = tr_ClientId rb"
    and "cl_FamilyId c \<noteq> []" and "cl_ExpiresAt c = Some e"
    and "revoked_in (live (w_redis v)) (cl_ID c)"
    and "exec (handleRefreshToken s rb) E v = (r, v')" and "clock (w_rt v') < e * second_ns"
  shows "rs_Outcome r = SendError Auth_InvalidToken ''refresh token has been revoked'' \<and>
    family_revoked_in (live (w_redis v')) (cl_FamilyId c)"
proof -
  have v0: "w_redis v0 = w_redis v" using exec_no_redis [OF no_redis_sign(3) assms(5)] .
  obtain v1 where d: "exec (refreshRevocationDenied s c) E v0
      = (Some (SendError Auth_InvalidToken ''refresh token has been revoked''), v1)"
    and l: "live (w_redis v1) = (if fst (env_now E (w_rt v0)) < e * second_ns
       then (live (w_redis v))(revokedFamilyKey @ cl_FamilyId c \<mapsto> sentinel) else live (w_redis v))"
    using revocation_denied [OF assms(1,2), of v0 c] assms(3,14,16) by (auto simp: v0 assms(15))
  have "exec (refresh_with s (tr_ClientId rb) (redact rec) c) E v0 = (\<lparr>rs_Headers = json_no_store,
      rs_Outcome = SendError Auth_InvalidToken ''refresh token has been revoked''\<rparr>, v1)"
    using d assms(12,13) by (simp add: refresh_with_def Let_def exec_call)
  then have r: "r = \<lparr>rs_Headers = json_no_store,
      rs_Outcome = SendError Auth_InvalidToken ''refresh token has been revoked''\<rparr>" "v' = v1"
    using assms(5-11,17) by (auto simp: handleRefreshToken_def Let_def ValidateAndGet_value exec_call)
  have id: "cl_ID c \<noteq> []" using assms(16) by (auto simp: revoked_in_def)
  obtain now rt where n: "env_now E (w_rt v0) = (now, rt)" by fastforce
  obtain b z s1 where "IsRevoked (sv_CacheClient s) (cl_ID c) = z" "exec z E v0 = (b, v0\<lparr>w_redis := s1\<rparr>)" "b = Inr True"
    using IsRevoked_eq [OF assms(1,2), of v0 "cl_ID c"] assms(3,16) v0 by auto
  then have "clock rt \<le> clock (w_rt v1)"
    using d id assms(14,15) n exec_clock_mono [OF assms(4), of _ "v0\<lparr>w_redis := s1, w_rt := rt\<rparr>" _ v1]
    by (auto simp: refreshRevocationDenied_def Let_def exec_call)
  then have "now < e * second_ns" using clock_now [OF assms(4) n] assms(18) [unfolded r(2)] by linarith
  then show ?thesis using l r n assms(14,15) by simp
qed

end

text \<open>
  Whoever answers a refresh with credentials reads the clock first: the dates of a token that
  were met once are met again while the clock has not reached the expiry.
\<close>

lemma refresh_reads_clock:
  assumes "tr_RefreshToken rb = Some tok" and "tok \<noteq> []" and "tr_ClientId rb \<noteq> []" and "tr_ClientSecret rb \<noteq> []"
    and "registered (sv_ClientRegistry s) (tr_ClientId rb) = Some rec"
    and "cr_SecretHash rec = sha256_hex (tr_ClientSecret rb)"
    and "sv_JWT s = Some k" and "clock_ok E clock" and "exec (handleRefreshToken s rb) E v = (r, v')"
  shows "clock (w_rt v) \<le> fst (env_now E (w_rt v)) \<and> fst (env_now E (w_rt v)) \<le> clock (w_rt v')"
proof -
  obtain now rt where n: "env_now E (w_rt v) = (now, rt)" by fastforce
  have "handleRefreshToken s rb = call (ParseClaims (sv_lib s) k tok) (\<lambda>c. case c of
      Inl err \<Rightarrow> respond json_no_store (SendError Auth_InvalidToken ''failed to parse refresh token'')
    | Inr claims \<Rightarrow> refresh_with s (tr_ClientId rb) (redact rec) claims)"
    using assms(1-7) by (simp add: handleRefreshToken_def Let_def ValidateAndGet_value s_ParseClaims_def)
  then have "clock rt \<le> clock (w_rt v')"
    using assms(9) n exec_clock_mono [OF assms(8), of _ "v\<lparr>w_rt := rt\<rparr>" _ v']
    by (auto simp: ParseClaims_def)
  then show ?thesis using clock_now [OF assms(8) n] n by simp
qed

lemma later_dates:
  assumes "dates_valid now c" and "now \<le> now'" and "cl_ExpiresAt c = Some e" and "now' < e * second_ns"
  shows "dates_valid now' c"
  using assms by (auto simp: dates_valid_def second_ns_def split: option.splits)



end
