(* ===== verification/TokenEndpointProps.thy ===== *)
theory TokenEndpointProps
  imports TokenEndpoints RefreshProps
begin

text \<open>
  Properties of the endpoints that take a token: what introspection and validation say about a
  token, whose tokens a client can revoke, and that a revoked token is refused everywhere.
\<close>

section \<open>What is said of a token\<close>

text \<open>The answers, as functions of the store's revoked IDs and of what parsing the token gave.\<close>

definition introspection_of :: "(string \<Rightarrow> string option) \<Rightarrow> CustomClaims res \<Rightarrow> IntrospectResponse" where
  "introspection_of L p =
     (case p of Inl e \<Rightarrow> inactive_response
      | Inr c \<Rightarrow> if revoked_in L (cl_ID c) then inactive_response else active_response c)"

definition validation_of :: "(string \<Rightarrow> string option) \<Rightarrow> CustomClaims res \<Rightarrow> ValidateResponse" where
  "validation_of L p =
     (case p of Inl e \<Rightarrow> invalid_response (validationErrorReason e)
      | Inr c \<Rightarrow> if revoked_in L (cl_ID c) then invalid_response ''token has been revoked''
          else \<lparr>vr_Error = None, vr_Scopes = Some (cl_Scopes c), vr_Sub = Some (cl_Subject c), vr_Valid = True\<rparr>)"

abbreviation json_reply :: "body \<Rightarrow> response" where
  "json_reply b \<equiv> \<lparr>rs_Headers = json_no_store, rs_Outcome = Reply 200 b\<rparr>"

context kv_reliable
begin

lemma introspect_exec:
  assumes "env_cache E = api" and "cc_api (sv_CacheClient s) \<noteq> None" and "ok (w_redis w)"
    and "and_then (Decode (in_Body req)) token_of_json = Inr tok" and "tok \<noteq> []"
  shows "\<exists>w'. exec (OAuthIntrospectHandler s req) E w =
      (json_reply (IntrospectBody (introspection_of (live (w_redis w)) (fst (exec (s_ParseClaims s tok) E w)))), w') \<and>
    ok (w_redis w') \<and> live (w_redis w') = live (w_redis w)"
proof -
  obtain p w1 where p: "exec (s_ParseClaims s tok) E w = (p, w1)" by fastforce
  have r: "w_redis w1 = w_redis w" using exec_no_redis [OF no_redis_sign(3) p] .
  show ?thesis
  proof (cases p)
    case (Inr c)
    show ?thesis
    proof (cases "cl_ID c = []")
      case False
      then show ?thesis using IsRevoked_eq [OF assms(1,2), of w1 "cl_ID c"] assms p r Inr
        by (auto simp: OAuthIntrospectHandler_def Let_def exec_call introspection_of_def)
    qed (use assms p r Inr in \<open>simp add: OAuthIntrospectHandler_def Let_def exec_call introspection_of_def\<close>)
  qed (use assms p r in \<open>simp add: OAuthIntrospectHandler_def Let_def exec_call introspection_of_def\<close>)
qed

lemma validate_exec:
  assumes "env_cache E = api" and "cc_api (sv_CacheClient s) \<noteq> None" and "ok (w_redis w)"
    and "and_then (Decode (in_Body req)) token_of_json = Inr tok" and "tok \<noteq> []"
  shows "\<exists>w'. exec (ValidateTokenHandler s req) E w =
      (json_reply (ValidateBody (validation_of (live (w_redis w)) (fst (exec (s_ValidateAndParseClaims s tok) E w)))), w') \<and>
    ok (w_redis w') \<and> live (w_redis w') = live (w_redis w)"
proof -
  obtain p w1 where p: "exec (s_ValidateAndParseClaims s tok) E w = (p, w1)" by fastforce
  have r: "w_redis w1 = w_redis w" using exec_no_redis [OF no_redis_sign(4) p] .
  show ?thesis
  proof (cases p)
    case (Inr c)
    show ?thesis
    proof (cases "cl_ID c = []")
      case False
      then show ?thesis using IsRevoked_eq [OF assms(1,2), of w1 "cl_ID c"] assms p r Inr
        by (auto simp: ValidateTokenHandler_def Let_def exec_call validation_of_def)
    qed (use assms p r Inr in \<open>simp add: ValidateTokenHandler_def Let_def exec_call validation_of_def\<close>)
  qed (use assms p r in \<open>simp add: ValidateTokenHandler_def Let_def exec_call validation_of_def\<close>)
qed

end

text \<open>C18: On a store that answers, introspection and validation of a token are functions of the set of
  revoked IDs and of what parsing the token gives, and they leave the store as it was: a token
  is active exactly when it parses and its ID is not revoked, and is valid exactly when it also
  meets the issuer and the audience of the active key and its ID is not revoked.\<close>

theorem token_endpoints_refine_revoked_set:
  assumes "kv_reliable (env_cache E) live ok" and "cc_api (sv_CacheClient s) \<noteq> None" and "ok (w_redis w)"
    and "and_then (Decode (in_Body req)) token_of_json = Inr tok" and "tok \<noteq> []"
  shows "(\<exists>w'. exec (OAuthIntrospectHandler s req) E w =
      (json_reply (IntrospectBody (introspection_of (live (w_redis w)) (fst (exec (s_ParseClaims s tok) E w)))), w') \<and>
      live (w_redis w') = live (w_redis w)) \<and>
    (\<exists>w'. exec (ValidateTokenHandler s req) E w =
      (json_reply (ValidateBody (validation_of (live (w_redis w)) (fst (exec (s_ValidateAndParseClaims s tok) E w)))), w') \<and>
      live (w_redis w') = live (w_redis w))"
  using kv_reliable.introspect_exec [OF assms(1) refl assms(2-)] kv_reliable.validate_exec [OF assms(1) refl assms(2-)]
  by blast

text \<open>A request about the refresh token of \<open>orders\<close>.\<close>

definition orders_query :: http_in where
  "orders_query = local_request (JObj [(''token'', JStr orders_token)])"

lemma orders_token_ascii: "to_valid orders_token = orders_token"
proof -
  have "json_ascii (claims_json orders_claims)"
    by (simp add: claims_json_def orders_claims_def refresh_claims_def opt_json_def this_issuer_def audienceService_def)
  then have "json_ascii (token_json ''k1'' orders_claims (ks_privateKey local_keyset))"
    by (simp add: token_json_def key_json_def to_valid_ascii)
  then show ?thesis by (simp add: orders_token_def local_sign_def print_ascii is_ascii_valid del: print_value.simps)
qed

lemma orders_query_decoded:
  "and_then (Decode (in_Body orders_query)) token_of_json = Inr orders_token"
  by (simp add: orders_query_def Decode_print maxNestingDepth_def to_valid_ascii token_of_json_def struct_value_def
      field_string_def members_of_def fold_name_lower orders_token_ascii del: print_value.simps)

theorem token_endpoints_refine_revoked_set_witness:
  "\<exists>w'. exec (OAuthIntrospectHandler local_service orders_query) local_env (local_world Map.empty [] 5) =
     (json_reply (IntrospectBody (active_response orders_claims)), w')"
proof -
  have "fst (exec (s_ParseClaims local_service orders_token) local_env (local_world Map.empty [] 5)) = Inr orders_claims"
    by (simp add: orders_parse orders_dates) (simp add: local_world_def)
  then show ?thesis
    using conjunct1 [OF token_endpoints_refine_revoked_set [OF local_kv_reliable, of local_service
        "local_world Map.empty [] 5" orders_query orders_token]] orders_query_decoded
    by (auto simp: introspection_of_def orders_token_def local_world_def ttl_live_def revoked_in_def ttl_ok_def)
qed

section \<open>A revoked token is refused\<close>

text \<open>A token has one set of claims, whenever and by whichever check it is parsed.\<close>

lemma parse_unique:
  assumes "jwt_sound lib" and "jwt_payload lib"
    and "gj_ParseWithClaims lib tok kf opts now = Inr t" and "gj_ParseWithClaims lib tok kf' opts' now' = Inr t'"
  shows "tk_Claims t = tk_Claims t'"
proof -
  obtain kid c sk where c: "gj_SignedString lib kid c sk = Inr tok"
    using assms(1,3) unfolding jwt_sound_def by blast
  have "tk_Claims t = valid_claims c" "tk_Claims t' = valid_claims c"
    using assms(2-4) c unfolding jwt_payload_def by blast+
  then show ?thesis by simp
qed

lemma s_ParseClaims_parsed:
  "exec (s_ParseClaims s tok) E w = (Inr c, w') \<Longrightarrow>
     \<exists>kf opts now t. gj_ParseWithClaims (sv_lib s) tok kf opts now = Inr t \<and> c = tk_Claims t"
  by (force simp: s_ParseClaims_def ParseClaims_def split: option.splits prod.splits sum.splits)

lemma s_Validate_parsed:
  "exec (s_ValidateAndParseClaims s tok) E w = (Inr c, w') \<Longrightarrow>
     \<exists>kf opts now t. gj_ParseWithClaims (sv_lib s) tok kf opts now = Inr t \<and> c = tk_Claims t"
  by (force simp: s_ValidateAndParseClaims_def ValidateAndParseClaims_def parseValidated_def
      split: option.splits prod.splits sum.splits if_splits)

lemma same_claims:
  assumes "jwt_sound (sv_lib s)" and "jwt_payload (sv_lib s)"
    and "exec (s_ParseClaims s tok) E w = (Inr c, w')"
  shows "exec (s_ParseClaims s tok) E v = (Inr c', v') \<Longrightarrow> c' = c"
    and "exec (s_ValidateAndParseClaims s tok) E v = (Inr c', v') \<Longrightarrow> c' = c"
  using s_ParseClaims_parsed [OF assms(3)] s_ParseClaims_parsed [of s tok E v c' v'] s_Validate_parsed [of s tok E v c' v']
    parse_unique [OF assms(1,2)] by metis+

context kv_reliable
begin

lemma revoked_refused:
  assumes "env_cache E = api" and "cc_api (sv_CacheClient s) \<noteq> None" and "ok (w_redis v)"
    and "jwt_sound (sv_lib s)" and "jwt_payload (sv_lib s)"
    and "exec (s_ParseClaims s tok) E w = (Inr c, w')" and "revoked_in (live (w_redis v)) (cl_ID c)" and "tok \<noteq> []"
  shows "and_then (Decode (in_Body req)) token_of_json = Inr tok \<Longrightarrow>
      fst (exec (OAuthIntrospectHandler s req) E v) = json_reply (IntrospectBody inactive_response)"
    and "and_then (Decode (in_Body req)) token_of_json = Inr tok \<Longrightarrow>
      \<exists>msg. fst (exec (ValidateTokenHandler s req) E v) = json_reply (ValidateBody (invalid_response msg))"
    and "tr_RefreshToken rb = Some tok \<Longrightarrow> issued (fst (exec (handleRefreshToken s rb) E v)) = None"
proof -
  assume d: "and_then (Decode (in_Body req)) token_of_json = Inr tok"
  have "introspection_of (live (w_redis v)) (fst (exec (s_ParseClaims s tok) E v)) = inactive_response"
    using same_claims(1) [OF assms(4-6)] assms(7)
    by (cases "exec (s_ParseClaims s tok) E v") (auto simp: introspection_of_def split: sum.splits)
  then show "fst (exec (OAuthIntrospectHandler s req) E v) = json_reply (IntrospectBody inactive_response)"
    using introspect_exec [OF assms(1-3) d assms(8)] by auto
  have "\<exists>msg. validation_of (live (w_redis v)) (fst (exec (s_ValidateAndParseClaims s tok) E v)) = invalid_response msg"
    using same_claims(2) [OF assms(4-6)] assms(7)
    by (cases "exec (s_ValidateAndParseClaims s tok) E v") (auto simp: validation_of_def split: sum.splits)
  then show "\<exists>msg. fst (exec (ValidateTokenHandler s req) E v) = json_reply (ValidateBody (invalid_response msg))"
    using validate_exec [OF assms(1-3) d assms(8)] by auto
next
  assume rt: "tr_RefreshToken rb = Some tok"
  obtain r v' where e: "exec (handleRefreshToken s rb) E v = (r, v')" by fastforce
  have "issued r = None"
    using same_claims(1) [OF assms(4-6)] assms(7) rt
    by (intro revoked_not_refreshed [OF assms(1,2) e]) auto
  then show "issued (fst (exec (handleRefreshToken s rb) E v)) = None" using e by simp
qed

end

text \<open>C15: While the store says that the ID of a token is revoked, the token is refused everywhere:
  introspection answers that it is inactive, validation that it is invalid, and a refresh with
  it issues nothing.\<close>

theorem revoked_token_refused:
  assumes "kv_reliable (env_cache E) live ok" and "cc_api (sv_CacheClient s) \<noteq> None" and "ok (w_redis v)"
    and "jwt_sound (sv_lib s)" and "jwt_payload (sv_lib s)"
    and "exec (s_ParseClaims s tok) E w = (Inr c, w')" and "revoked_in (live (w_redis v)) (cl_ID c)" and "tok \<noteq> []"
    and "and_then (Decode (in_Body req)) token_of_json = Inr tok" and "tr_RefreshToken rb = Some tok"
  shows "fst (exec (OAuthIntrospectHandler s req) E v) = json_reply (IntrospectBody inactive_response) \<and>
    (\<exists>msg. fst (exec (ValidateTokenHandler s req) E v) = json_reply (ValidateBody (invalid_response msg))) \<and>
    issued (fst (exec (handleRefreshToken s rb) E v)) = None"
  using kv_reliable.revoked_refused [OF assms(1) refl assms(2-8)] assms(9,10) by blast

definition revoked_world :: "(ttl_store, peers, runtime) world" where
  "revoked_world = local_world [revokedKey @ ''jti-1'' \<mapsto> (sentinel, Some 9)] [] 5"

theorem revoked_token_refused_witness:
  "fst (exec (OAuthIntrospectHandler local_service orders_query) local_env revoked_world)
     = json_reply (IntrospectBody inactive_response) \<and>
   issued (fst (exec (handleRefreshToken local_service (orders_refresh orders_token)) local_env revoked_world)) = None"
proof -
  have p: "exec (s_ParseClaims local_service orders_token) local_env revoked_world
      = (Inr orders_claims, snd (exec (s_ParseClaims local_service orders_token) local_env revoked_world))"
    by (rule prod_eqI) (simp_all add: orders_parse orders_dates revoked_world_def local_world_def)
  have "revoked_in (ttl_live (w_redis revoked_world)) (cl_ID orders_claims)"
    by (simp add: revoked_world_def local_world_def ttl_live_def revoked_in_def)
  from revoked_token_refused [OF local_kv_reliable _ _ _ _ p this _ orders_query_decoded orders_refresh_fields(3)]
  show ?thesis
    by (simp add: local_jwt_sound local_jwt_payload orders_token_def revoked_world_def local_world_def ttl_ok_def)
qed

section \<open>Revoking a token\<close>

text \<open>What a request that revokes a token has to bring.\<close>

definition may_revoke :: "Service \<Rightarrow> http_in \<Rightarrow> RevokeRequest \<Rightarrow> CustomClaims \<Rightarrow> bool" where
  "may_revoke s req body c \<longleftrightarrow>
     (case revoke_credentials req body of (cid, secret) \<Rightarrow>
        cid \<noteq> [] \<and> secret \<noteq> [] \<and>
        (\<exists>rec. registered (sv_ClientRegistry s) cid = Some rec \<and> cr_SecretHash rec = sha256_hex secret) \<and>
        (if registered (sv_ClientRegistry s) (cl_Subject c) = None then cl_Azp c \<in> {[], cid}
         else cl_Subject c = cid))"

lemma cross_client_iff:
  "cross_client reg cid c \<longleftrightarrow>
     (if registered reg (cl_Subject c) = None then cl_Azp c \<notin> {[], cid} else cl_Subject c \<noteq> cid)"
  by (auto simp: cross_client_def Registry_Get_value split: option.splits)

lemma OAuthRevokeHandler_reaches:
  assumes "and_then (Decode (in_Body req)) RevokeRequest_of_json = Inr body" and "rv_Token body \<noteq> []"
    and "exec (s_ParseClaims s (rv_Token body)) E w = (Inr c, w1)" and "may_revoke s req body c"
  shows "exec (OAuthRevokeHandler s req) E w = exec (revoke_claims s (fst (revoke_credentials req body)) c) E w1"
  using assms
  by (cases "revoke_credentials req body")
    (auto simp: OAuthRevokeHandler_def Let_def exec_call may_revoke_def ValidateAndGet_iff split: if_splits)

context kv_reliable
begin

lemma revoke_claims_exec:
  assumes "env_cache E = api" and "cc_api (sv_CacheClient s) \<noteq> None" and "ok (w_redis w)"
    and "cl_ID c \<noteq> []" and "\<not> cross_client (sv_ClientRegistry s) cid c"
    and "cl_ExpiresAt c = Some e" and "fst (env_now E (w_rt w)) < e * second_ns"
  shows "\<exists>n w'. exec (revoke_claims s cid c) E w = (json_reply (RevokedBody (Some n)), w') \<and> ok (w_redis w') \<and>
    live (w_redis w') = (live (w_redis w))(revokedKey @ cl_ID c \<mapsto> sentinel)"
proof -
  obtain now t where n: "env_now E (w_rt w) = (now, t)" by fastforce
  show ?thesis
    using StoreRevoked_eq [OF assms(1,2), of "w\<lparr>w_rt := t\<rparr>" "cl_ID c" "e * second_ns - now"] assms n
    by (auto simp: revoke_claims_def Let_def exec_call split: prod.split)
qed

lemma revoke_exec:
  assumes "env_cache E = api" and "cc_api (sv_CacheClient s) \<noteq> None" and "ok (w_redis w)"
    and "and_then (Decode (in_Body req)) RevokeRequest_of_json = Inr body" and "rv_Token body \<noteq> []"
    and "exec (s_ParseClaims s (rv_Token body)) E w = (Inr c, w1)" and "may_revoke s req body c"
    and "cl_ID c \<noteq> []" and "cl_ExpiresAt c = Some e" and "fst (env_now E (w_rt w1)) < e * second_ns"
  shows "\<exists>n w'. exec (OAuthRevokeHandler s req) E w = (json_reply (RevokedBody (Some n)), w') \<and>
    revoked_in (live (w_redis w')) (cl_ID c) \<and>
    live (w_redis w') = (live (w_redis w))(revokedKey @ cl_ID c \<mapsto> sentinel)"
proof -
  have r: "w_redis w1 = w_redis w" using exec_no_redis [OF no_redis_sign(3) assms(6)] .
  have "\<not> cross_client (sv_ClientRegistry s) (fst (revoke_credentials req body)) c"
    using assms(7) by (auto simp: may_revoke_def cross_client_iff split: prod.splits if_splits)
  from revoke_claims_exec [OF assms(1,2) _ assms(8) this assms(9,10)] r assms(3,8)
  show ?thesis unfolding OAuthRevokeHandler_reaches [OF assms(4-7)] by auto
qed

end

text \<open>C16: A client that authenticates (by header or body) and presents an unexpired token of its own, or
  a user's token that names it or no client as the authorized party, revokes it: on a store that
  answers, the response says when, and from then on the store says that the token's ID is
  revoked, and nothing else changes in it.\<close>

theorem revoke_endpoint_revokes:
  assumes "kv_reliable (env_cache E) live ok" and "cc_api (sv_CacheClient s) \<noteq> None" and "ok (w_redis w)"
    and "and_then (Decode (in_Body req)) RevokeRequest_of_json = Inr body" and "rv_Token body \<noteq> []"
    and "exec (s_ParseClaims s (rv_Token body)) E w = (Inr c, w1)" and "may_revoke s req body c"
    and "cl_ID c \<noteq> []" and "cl_ExpiresAt c = Some e" and "fst (env_now E (w_rt w1)) < e * second_ns"
  shows "\<exists>n w'. exec (OAuthRevokeHandler s req) E w = (json_reply (RevokedBody (Some n)), w') \<and>
    revoked_in (live (w_redis w')) (cl_ID c) \<and>
    live (w_redis w') = (live (w_redis w))(revokedKey @ cl_ID c \<mapsto> sentinel)"
  by (rule kv_reliable.revoke_exec [OF assms(1) refl assms(2-)])

text \<open>The client \<open>orders\<close> revokes its refresh token.\<close>

definition orders_revoke :: http_in where
  "orders_revoke = local_request (JObj [(''client_id'', JStr ''orders''), (''client_secret'', JStr ''s3cret''),
     (''token'', JStr orders_token)])"

definition orders_body :: RevokeRequest where
  "orders_body = \<lparr>rv_ClientId = Some ''orders'', rv_ClientSecret = Some ''s3cret'', rv_Token = orders_token,
     rv_TokenTypeHint = None\<rparr>"

lemma orders_revoke_decoded:
  "and_then (Decode (in_Body orders_revoke)) RevokeRequest_of_json = Inr orders_body"
  by (simp add: orders_body_def orders_revoke_def Decode_print maxNestingDepth_def to_valid_ascii RevokeRequest_of_json_def
      struct_value_def field_string_def field_string_ptr_def members_of_def fold_name_lower orders_token_ascii
      del: print_value.simps)

lemma orders_may_revoke: "may_revoke local_service orders_revoke orders_body orders_claims"
  by (simp add: may_revoke_def revoke_credentials_def orders_revoke_def orders_body_def local_record_def)

lemma orders_token_nonempty [simp]: "rv_Token orders_body \<noteq> []"
  by (simp add: orders_token_def orders_body_def)

lemma orders_body_parsed:
  "exec (s_ParseClaims local_service (rv_Token orders_body)) local_env (local_world Map.empty [] 5)
     = (Inr orders_claims, local_world Map.empty [] 5)"
  by (rule prod_eqI)
    (simp_all add: orders_parse orders_dates orders_body_def, simp_all add: local_world_def)

lemma orders_in_time:
  "fst (env_now local_env (w_rt (local_world Map.empty [] 5))) < 2592000 * second_ns"
  by (simp add: local_world_def second_ns_def)

theorem revoke_endpoint_revokes_witness:
  "\<exists>n w'. exec (OAuthRevokeHandler local_service orders_revoke) local_env (local_world Map.empty [] 5) =
     (json_reply (RevokedBody (Some n)), w') \<and> revoked_in (ttl_live (w_redis w')) ''jti-1''"
  using revoke_endpoint_revokes [OF local_kv_reliable _ local_redis_ok orders_revoke_decoded _ orders_body_parsed
      orders_may_revoke _ _ orders_in_time]
  by simp blast



section \<open>When the store does not answer\<close>

text \<open>When the revocation entry of a token cannot be read, introspection and validation let the
  token through (they fail open), while a refresh with it is refused (it fails closed).\<close>

theorem revocation_check_failure:
  assumes "cc_api (sv_CacheClient s) \<noteq> None" and "tok \<noteq> []" and "cl_ID c \<noteq> []"
    and "op_Get (env_cache E) (revokedKey @ cl_ID c) (w_redis w) = (Inl err, r1)"
    and "and_then (Decode (in_Body req)) token_of_json = Inr tok" and "tr_RefreshToken rb = Some tok"
    and "exec (s_ParseClaims s tok) E w = (Inr c, w1)"
  shows "fst (exec (OAuthIntrospectHandler s req) E w) = json_reply (IntrospectBody (active_response c)) \<and>
    (\<forall>w2. exec (s_ValidateAndParseClaims s tok) E w = (Inr c, w2) \<longrightarrow>
      fst (exec (ValidateTokenHandler s req) E w) = json_reply (ValidateBody (validation_of Map.empty (Inr c)))) \<and>
    issued (fst (exec (handleRefreshToken s rb) E w)) = None"
proof -
  have check: "\<exists>e v'. exec (IsRevoked (sv_CacheClient s) (cl_ID c)) E v = (Inl e, v')"
    if "w_redis v = w_redis w" for v
    using assms(1,3,4) that by (simp add: IsRevoked_def)
  have red: "w_redis w1 = w_redis w" using exec_no_redis [OF no_redis_sign(3) assms(7)] .
  have "fst (exec (OAuthIntrospectHandler s req) E w) = json_reply (IntrospectBody (active_response c))"
    using assms(2,3,5,7) check [OF red] by (auto simp: OAuthIntrospectHandler_def Let_def exec_call)
  moreover have "fst (exec (ValidateTokenHandler s req) E w) = json_reply (ValidateBody (validation_of Map.empty (Inr c)))"
    if v: "exec (s_ValidateAndParseClaims s tok) E w = (Inr c, w2)" for w2
    using assms(2,3,5) v check [OF exec_no_redis [OF no_redis_sign(4) v]]
    by (auto simp: ValidateTokenHandler_def Let_def exec_call validation_of_def revoked_in_def)
  moreover have "issued (fst (exec (handleRefreshToken s rb) E w)) = None"
  proof (rule ccontr)
    assume "issued (fst (exec (handleRefreshToken s rb) E w)) \<noteq> None"
    then obtain t where t: "issued (fst (exec (handleRefreshToken s rb) E w)) = Some t" by blast
    obtain c' w1' w2 where "exec (s_ParseClaims s tok) E w = (Inr c', w1')"
      "exec (refreshRevocationDenied s c') E w1' = (None, w2)"
      using refresh_issued_steps [OF prod.collapse [symmetric] t] assms(6) by (metis option.inject)
    then show False
      using assms(3,7) check [OF red] by (auto simp: refreshRevocationDenied_def Let_def exec_call)
  qed
  ultimately show ?thesis by blast
qed

definition faulty_world :: "(ttl_store, peers, runtime) world" where
  "faulty_world = (local_world Map.empty [] 5)\<lparr>w_redis := \<lparr>ts_entries = Map.empty, ts_faults = [LostBefore]\<rparr>\<rparr>"

theorem revocation_check_failure_witness:
  "fst (exec (OAuthIntrospectHandler local_service orders_query) local_env faulty_world)
     = json_reply (IntrospectBody (active_response orders_claims)) \<and>
   issued (fst (exec (handleRefreshToken local_service (orders_refresh orders_token)) local_env faulty_world)) = None"
proof -
  have p: "exec (s_ParseClaims local_service orders_token) local_env faulty_world = (Inr orders_claims, faulty_world)"
    by (rule prod_eqI) (simp_all add: orders_parse orders_dates, simp_all add: faulty_world_def local_world_def)
  have g: "op_Get (env_cache local_env) (revokedKey @ cl_ID orders_claims) (w_redis faulty_world)
      = (Inl (Errorf ''connection lost''), \<lparr>ts_entries = Map.empty, ts_faults = []\<rparr>)"
    by (simp add: faulty_world_def ttl_defs)
  show ?thesis
    using revocation_check_failure [OF _ _ _ g orders_query_decoded orders_refresh_fields(3) p]
    by (simp add: orders_token_def)
qed

section \<open>How long a revocation lasts\<close>

text \<open>A revocation that was stored with the token's remaining life lasts that life in whole seconds
  (at least one): a revoked ID and a revoked family are revoked until then and not after. It
  ends less than a second before the token expires, and outlives it only if less than a second
  was left.\<close>

theorem revocation_lifetime:
  assumes "redis (env_cache E) live ttl elapse" and "cc_api c \<noteq> None" and "0 < remaining" and "0 \<le> d"
  shows "(\<forall>w w'. exec (StoreRevoked c jti remaining) E w = (None, w') \<longrightarrow>
      (revoked_in (live (elapse d (w_redis w'))) jti \<longleftrightarrow> d < ttl_seconds remaining)) \<and>
    (\<forall>w w'. exec (StoreRevokedFamily c fam remaining) E w = (None, w') \<longrightarrow>
      (family_revoked_in (live (elapse d (w_redis w'))) fam \<longleftrightarrow> d < ttl_seconds remaining)) \<and>
    ttl_seconds remaining * second_ns \<le> max remaining second_ns \<and>
    remaining - second_ns < ttl_seconds remaining * second_ns"
  using redis.StoreRevoked_lasts [OF assms(1) refl assms(2-4)] redis.StoreRevokedFamily_lasts [OF assms(1) refl assms(2-4)]
    ttl_seconds_bounds [OF assms(3)]
  by blast

text \<open>A token with almost two seconds left: one second later it is no longer revoked.\<close>

theorem revocation_lifetime_witness:
  "\<exists>w'. exec (StoreRevoked local_client ''j'' 1999999999) local_env (local_world Map.empty [] 0) = (None, w') \<and>
     revoked_in (ttl_live (ttl_elapse 0 (w_redis w'))) ''j'' \<and> \<not> revoked_in (ttl_live (ttl_elapse 1 (w_redis w'))) ''j''"
proof -
  obtain w' where e: "exec (StoreRevoked local_client ''j'' 1999999999) local_env (local_world Map.empty [] 0) = (None, w')"
    using kv_reliable.StoreRevoked_eq [OF local_kv_reliable refl local_client_api local_redis_ok] by blast
  have t: "ttl_seconds 1999999999 = 1" by (simp add: ttl_seconds_def second_ns_def)
  show ?thesis
    using revocation_lifetime [OF local_redis local_client_api, of 1999999999 0 "''j''"]
      revocation_lifetime [OF local_redis local_client_api, of 1999999999 1 "''j''"] e t
    by auto
qed

end
