(* ===== verification/GoUri.thy ===== *)
theory GoUri
  imports GoUrl
begin

text \<open>
  \<open>url.Parse\<close> and \<open>url.ParseRequestURI\<close>, as far as the program looks at the result: whether
  the text parses, its scheme, its host and its raw query. A host in brackets is taken to be a
  well-formed IP literal.
\<close>

record uri =
  uri_Scheme :: string
  uri_Host :: string
  uri_RawQuery :: string

definition is_letter :: "char \<Rightarrow> bool" where
  "is_letter c \<longleftrightarrow> (let n = of_char c :: nat in 65 \<le> n \<and> n \<le> 90 \<or> 97 \<le> n \<and> n \<le> 122)"

definition is_digit_char :: "char \<Rightarrow> bool" where
  "is_digit_char c \<longleftrightarrow> (let n = of_char c :: nat in 48 \<le> n \<and> n \<le> 57)"

definition scheme_char :: "char \<Rightarrow> bool" where
  "scheme_char c \<longleftrightarrow> is_letter c \<or> is_digit_char c \<or> c \<in> {CHR ''+'', CHR ''-'', CHR ''.''}"

text \<open>\<open>getScheme\<close>: the scheme and the rest; \<open>None\<close> for a text that starts with a colon.\<close>

definition getScheme :: "string \<Rightarrow> (string \<times> string) option" where
  "getScheme s =
     (case s of
        [] \<Rightarrow> Some ([], s)
      | c # cs \<Rightarrow>
          if c = CHR '':'' then None
          else if \<not> is_letter c then Some ([], s)
          else (case dropWhile scheme_char s of
                  d # rest \<Rightarrow> if d = CHR '':'' then Some (takeWhile scheme_char s, rest) else Some ([], s)
                | [] \<Rightarrow> Some ([], s)))"

definition validOptionalPort :: "string \<Rightarrow> bool" where
  "validOptionalPort p = (case p of [] \<Rightarrow> True | c # cs \<Rightarrow> c = CHR '':'' \<and> list_all is_digit_char cs)"

text \<open>What may stand in a host: escapes of non-ASCII bytes (and \<open>%25\<close>), and the host characters.\<close>

definition host_char :: "char \<Rightarrow> bool" where
  "host_char c \<longleftrightarrow> unreserved c \<or> 0x80 \<le> (of_char c :: nat) \<or>
     c \<in> set (CHR 0x27 # CHR 0x22 # ''!$&()*+,;=:[]<>'')"

fun host_ok :: "string \<Rightarrow> bool" where
  "host_ok [] = True"
| "host_ok (c # cs) =
     (if c = CHR ''%'' then
        (case cs of
           a # b # rest \<Rightarrow>
             (case (hex_val a, hex_val b) of
                (Some x, Some y) \<Rightarrow> (8 \<le> x \<or> a = CHR ''2'' \<and> b = CHR ''5'') \<and> host_ok rest
              | _ \<Rightarrow> False)
         | _ \<Rightarrow> False)
      else host_char c \<and> host_ok cs)"

definition userinfo_char :: "char \<Rightarrow> bool" where
  "userinfo_char c \<longleftrightarrow> is_letter c \<or> is_digit_char c \<or> c \<in> set (CHR 0x27 # ''-._:~!$&()*+,;=%@'')"

text \<open>\<open>strings.LastIndex\<close> at one byte: what follows its last occurrence.\<close>

definition after_last :: "char \<Rightarrow> string \<Rightarrow> string" where
  "after_last c s = rev (takeWhile (\<lambda>x. x \<noteq> c) (rev s))"

definition parseHost :: "string \<Rightarrow> string option" where
  "parseHost host =
     (if host \<noteq> [] \<and> hd host = CHR ''['' then
        (if CHR '']'' \<in> set host \<and> validOptionalPort (after_last (CHR '']'') host) \<and> host_ok host
         then Some host else None)
      else if validOptionalPort (dropWhile (\<lambda>c. c \<noteq> CHR '':'') host) \<and> host_ok host then Some host
      else None)"

definition parseAuthority :: "string \<Rightarrow> string option" where
  "parseAuthority a =
     (if CHR ''@'' \<notin> set a then parseHost a
      else
        (let host = after_last (CHR ''@'') a; userinfo = take (length a - length host - 1) a
         in if list_all userinfo_char userinfo \<and> QueryUnescape userinfo \<noteq> None then parseHost host else None))"

definition plain_byte :: "char \<Rightarrow> bool" where
  "plain_byte c \<longleftrightarrow> 32 \<le> (of_char c :: nat) \<and> c \<noteq> CHR 0x7F"

text \<open>\<open>parse(rawURL, viaRequest)\<close>; escapes in the path are checked, the raw query is not.\<close>

definition parse_uri :: "bool \<Rightarrow> string \<Rightarrow> uri option" where
  "parse_uri viaRequest raw =
     (if \<not> list_all plain_byte raw \<or> viaRequest \<and> raw = [] then None
      else if raw = ''*'' then Some \<lparr>uri_Scheme = [], uri_Host = [], uri_RawQuery = []\<rparr>
      else case getScheme raw of None \<Rightarrow> None | Some (scheme, rest0) \<Rightarrow>
        (case Cut (CHR ''?'') rest0 of (rest, query) \<Rightarrow>
           (let u = \<lparr>uri_Scheme = strings_ToLower scheme, uri_Host = [], uri_RawQuery = query\<rparr>;
                path_ok = (\<lambda>p. QueryUnescape p \<noteq> None) in
            if \<not> strings_HasPrefix rest ''/'' \<and> scheme \<noteq> [] then Some u
            else if \<not> strings_HasPrefix rest ''/'' \<and> viaRequest then None
            else if \<not> strings_HasPrefix rest ''/'' \<and> CHR '':'' \<in> set (fst (Cut (CHR ''/'') rest)) then None
            else if (scheme \<noteq> [] \<or> \<not> viaRequest \<and> \<not> strings_HasPrefix rest ''///'') \<and>
              strings_HasPrefix rest ''//'' then
              (let authority = takeWhile (\<lambda>c. c \<noteq> CHR ''/'') (drop 2 rest);
                   path = dropWhile (\<lambda>c. c \<noteq> CHR ''/'') (drop 2 rest)
               in case parseAuthority authority of None \<Rightarrow> None
                  | Some host \<Rightarrow> if path_ok path then Some (u\<lparr>uri_Host := host\<rparr>) else None)
            else if path_ok rest then Some u else None)))"

definition url_ParseRequestURI :: "string \<Rightarrow> uri option" where
  "url_ParseRequestURI raw = parse_uri True raw"

definition url_Parse :: "string \<Rightarrow> uri option" where
  "url_Parse raw =
     (case Cut (CHR ''#'') raw of (u, frag) \<Rightarrow>
        if QueryUnescape frag = None then None else parse_uri False u)"

end
