(* ===== verification/AuthorizeEndpoint.thy ===== *)
theory AuthorizeEndpoint
  imports Service GoUri
begin

text \<open>
  \<open>api/oauth_authorize.go\<close>: the authorization endpoint. A redirect is kept as the redirect URI
  and the query values that replace its query. Log output is not modelled.
\<close>

definition authCodeBytes :: nat where "authCodeBytes = 32"

definition html_headers :: "(string \<times> string) list" where
  "html_headers = [(''Content-Type'', ''text/html; charset=utf-8'')]"

text \<open>The page shows the status, its text and the escaped message.\<close>

definition sendAuthorizeDirectError :: "nat \<Rightarrow> string \<Rightarrow> response proc" where
  "sendAuthorizeDirectError status msg = respond html_headers (HtmlError status msg)"

text \<open>
  A redirect with further query values, those with an empty value left out when optional. The
  error of \<open>url.Parse\<close> is ignored in the code: a URI it rejects (one whose fragment is not
  escaped properly) is a nil dereference, for which the 500 answer stands.
\<close>

definition redirect_with :: "string \<Rightarrow> (url_values \<Rightarrow> url_values) \<Rightarrow> response proc" where
  "redirect_with redirectURI f =
     (case url_Parse redirectURI of
        None \<Rightarrow> respond [] (SendError Global_Internal ''panic: nil pointer dereference'')
      | Some u \<Rightarrow> respond [] (Redirect redirectURI (f (URL_Query (uri_RawQuery u)))))"

definition set_state :: "string \<Rightarrow> url_values \<Rightarrow> url_values" where
  "set_state state q = (if state \<noteq> [] then Values_Set q ''state'' state else q)"

definition redirectAuthorizeError :: "string \<Rightarrow> string \<Rightarrow> string \<Rightarrow> string \<Rightarrow> response proc" where
  "redirectAuthorizeError redirectURI errCode errDesc state =
     redirect_with redirectURI (\<lambda>q.
       let q1 = Values_Set q ''error'' errCode;
           q2 = (if errDesc \<noteq> [] then Values_Set q1 ''error_description'' errDesc else q1)
       in set_state state q2)"

definition generateAuthCode :: "string res proc" where
  "generateAuthCode =
     RandRead authCodeBytes (\<lambda>r.
       case r of
         Inl err \<Rightarrow> Ret (Inl (Wrapf ''failed to generate authorization code'' err))
       | Inr b \<Rightarrow> Ret (Inr (base64_RawURL_EncodeToString b)))"

text \<open>The second half of the handler: the request is in order, a code is made and stored.\<close>

definition issue_code :: "Service \<Rightarrow> AuthCodeEntry \<Rightarrow> string \<Rightarrow> response proc" where
  "issue_code s entry state =
     (let redirectURI = ac_RedirectURI entry in
      call generateAuthCode (\<lambda>g.
        case g of
          Inl err \<Rightarrow> redirectAuthorizeError redirectURI ''server_error'' ''failed to generate authorization code'' state
        | Inr code \<Rightarrow>
            call (StoreAuthCode (sv_CacheClient s) code entry) (\<lambda>c.
              case c of
                Inl err \<Rightarrow> redirectAuthorizeError redirectURI ''server_error'' ''failed to store authorization code'' state
              | Inr claimed \<Rightarrow>
                  if \<not> claimed
                  then redirectAuthorizeError redirectURI ''server_error'' ''failed to generate authorization code'' state
                  else redirect_with redirectURI (\<lambda>q. set_state state (Values_Set q ''code'' code)))))"

definition OAuthAuthorizeHandler :: "Service \<Rightarrow> http_in \<Rightarrow> response proc" where
  "OAuthAuthorizeHandler s req =
     (if \<not> sv_authCodeGrantEnabled s
      then sendAuthorizeDirectError 501 ''authorization_code grant is not enabled''
      else
        (let query = URL_Query (in_RawQuery req);
             clientID = Values_Get query ''client_id'';
             redirectURI = Values_Get query ''redirect_uri'';
             responseType = Values_Get query ''response_type'';
             scope = Values_Get query ''scope'';
             state = Values_Get query ''state'';
             codeChallenge = Values_Get query ''code_challenge'';
             codeChallengeMethod = Values_Get query ''code_challenge_method'';
             userID = Values_Get query ''user_id''
         in if clientID = [] then sendAuthorizeDirectError 400 ''missing required parameter: client_id''
            else case Registry_Get (sv_ClientRegistry s) clientID of (rec, ok) \<Rightarrow>
              if \<not> ok then sendAuthorizeDirectError 400 ''unknown client_id''
              else if redirectURI = []
              then sendAuthorizeDirectError 400 ''missing required parameter: redirect_uri''
              else if (case url_ParseRequestURI redirectURI of
                         None \<Rightarrow> True | Some u \<Rightarrow> uri_Scheme u = [] \<or> uri_Host u = [])
              then sendAuthorizeDirectError 400 ''invalid redirect_uri: must be an absolute URI''
              else if redirectURI \<notin> set (cr_AllowedRedirectURIs rec)
              then sendAuthorizeDirectError 400 ''redirect_uri not registered for this client''
              else if responseType = []
              then redirectAuthorizeError redirectURI ''invalid_request''
                ''missing required parameter: response_type'' state
              else if responseType \<noteq> ''code''
              then redirectAuthorizeError redirectURI ''unsupported_response_type''
                ''only response_type=code is supported'' state
              else if codeChallenge = []
              then redirectAuthorizeError redirectURI ''invalid_request'' ''code_challenge is required'' state
              else if codeChallengeMethod \<noteq> ''S256''
              then redirectAuthorizeError redirectURI ''invalid_request'' ''code_challenge_method must be S256'' state
              else if userID = []
              then redirectAuthorizeError redirectURI ''invalid_request'' ''user_id is required'' state
              else issue_code s
                \<lparr>ac_ClientID = clientID, ac_RedirectURI = redirectURI, ac_Scope = scope,
                 ac_UserID = userID, ac_CodeChallenge = codeChallenge\<rparr> state))"

end
