(* ===== verification/AuthCodeProps.thy ===== *)
theory AuthCodeProps
  imports LocalOAuth
begin

text \<open>
  The authorization-code grant: what an exchange requires, that a code is spent by it, and how
  far the single use goes when two exchanges overlap. The authorization codes as a store of
  entries.
\<close>

section \<open>The store of codes\<close>

text \<open>An authorization code that is stored reads back as the same entry (for UTF-8 text) until
  it is deleted, after which it is unknown; a code that is already taken is not overwritten.\<close>

theorem auth_code_roundtrip:
  assumes "kv_reliable (env_cache E) live ok" and "cc_api c \<noteq> None" and "ok (w_redis w)" and "utf8_entry e"
    and "exec (StoreAuthCode c code e) E w = (r, w1)" and "exec (GetAuthCode c code) E w1 = (g, w2)"
    and "exec (DeleteAuthCode c code) E w2 = (d, w3)"
  shows "(live (w_redis w) (authCodeKeyPrefix @ code) = None \<longrightarrow> r = Inr True \<and> g = Inr e) \<and>
    (live (w_redis w) (authCodeKeyPrefix @ code) \<noteq> None \<longrightarrow> r = Inr False \<and>
       live (w_redis w1) = live (w_redis w)) \<and>
    d = None \<and> fst (exec (GetAuthCode c code) E w3) = Inl ErrAuthCodeNotFound"
proof -
  note st = assms(1)
  have 1: "r = Inr (live (w_redis w) (authCodeKeyPrefix @ code) = None)" "ok (w_redis w1)"
    "live (w_redis w1) = (if live (w_redis w) (authCodeKeyPrefix @ code) = None
      then (live (w_redis w))(authCodeKeyPrefix @ code \<mapsto> print_value (AuthCodeEntry_to_json e))
      else live (w_redis w))"
    using kv_reliable.StoreAuthCode_exec [OF st refl assms(2,3), of code e] assms(5) by auto
  have 2: "ok (w_redis w2)" "live (w_redis w2) = live (w_redis w1)"
    "live (w_redis w1) (authCodeKeyPrefix @ code) = Some (print_value (AuthCodeEntry_to_json e)) \<longrightarrow> g = Inr e"
    using kv_reliable.GetAuthCode_exec [OF st refl assms(2) 1(2), of code] assms(4,6) by auto
  have 3: "d = None" "ok (w_redis w3)" "live (w_redis w3) (authCodeKeyPrefix @ code) = None"
    using kv_reliable.DeleteAuthCode_exec [OF st refl assms(2) 2(1), of code] assms(7) by auto
  have "fst (exec (GetAuthCode c code) E w3) = Inl ErrAuthCodeNotFound"
    using kv_reliable.GetAuthCode_exec [OF st refl assms(2) 3(2), of code] 3(3) by auto
  then show ?thesis using 1 2 3 by auto
qed

definition app_entry :: "string \<Rightarrow> AuthCodeEntry" where
  "app_entry challenge = \<lparr>ac_ClientID = ''orders'', ac_RedirectURI = ''https://app.example/cb'',
     ac_Scope = ''orders:read'', ac_UserID = ''user-1'', ac_CodeChallenge = challenge\<rparr>"

lemma app_entry_utf8: "to_valid ch = ch \<Longrightarrow> utf8_entry (app_entry ch)"
  by (simp add: utf8_entry_def app_entry_def to_valid_ascii)

theorem auth_code_roundtrip_witness:
  "\<exists>w1. exec (StoreAuthCode local_client ''c0de'' (app_entry ''ch'')) local_env (local_world Map.empty [] 0)
      = (Inr True, w1) \<and>
    fst (exec (GetAuthCode local_client ''c0de'') local_env w1) = Inr (app_entry ''ch'')"
proof -
  let ?w = "local_world Map.empty [] 0"
  obtain r w1 g w2 d w3 where s: "exec (StoreAuthCode local_client ''c0de'' (app_entry ''ch'')) local_env ?w = (r, w1)"
    and g: "exec (GetAuthCode local_client ''c0de'') local_env w1 = (g, w2)"
    and d: "exec (DeleteAuthCode local_client ''c0de'') local_env w2 = (d, w3)"
    by (metis prod.exhaust)
  have "utf8_entry (app_entry ''ch'')" by (simp add: app_entry_utf8 to_valid_ascii)
  from auth_code_roundtrip [OF local_kv_reliable local_client_api local_redis_ok this s g d] s g show ?thesis
    by (simp add: local_world_def ttl_live_def)
qed

section \<open>A code to exchange\<close>

lemma b64_char_ascii: "i < 64 \<Longrightarrow> (of_char (b64_char u i) :: nat) < 0x80"
  by (auto simp: b64_char_def of_char_of)

lemma RawURL_valid: "to_valid (base64_RawURL_EncodeToString s) = base64_RawURL_EncodeToString s"
proof (rule to_valid_ascii)
  have "list_all (\<lambda>i. i < 64) (b64_sextets (map of_char s))"
    using b64_sextets_bound [OF of_char_bytes] .
  then show "list_all (\<lambda>c. (of_char c :: nat) < 0x80) (base64_RawURL_EncodeToString s)"
    by (auto simp: base64_RawURL_EncodeToString_def encode_raw_eq_map list_all_iff b64_char_ascii)
qed

definition app_challenge :: string where
  "app_challenge = base64_RawURL_EncodeToString (sha256_Sum256 ''verifier'')"

definition app_exchange :: TokenRequest where
  "app_exchange = empty_TokenRequest\<lparr>tr_GrantType := ''authorization_code'', tr_ClientId := ''orders'',
     tr_Code := Some ''c0de'', tr_RedirectUri := Some ''https://app.example/cb'',
     tr_CodeVerifier := Some ''verifier''\<rparr>"

definition app_world :: "(ttl_store, peers, runtime) world" where
  "app_world = local_world [''authcode:c0de'' \<mapsto>
     (print_value (AuthCodeEntry_to_json (app_entry app_challenge)), Some 600)] [] 5"

lemma app_code: "tr_Code app_exchange = Some ''c0de''"
  by (simp add: app_exchange_def)

lemma app_utf8: "utf8_entry (app_entry app_challenge)"
  by (simp add: app_entry_utf8 app_challenge_def RawURL_valid)

lemma app_stored: "ttl_live (w_redis app_world) (authCodeKeyPrefix @ ''c0de'')
    = Some (print_value (AuthCodeEntry_to_json (app_entry app_challenge)))"
  by (simp add: app_world_def local_world_def ttl_live_def authCodeKeyPrefix_def)

lemma app_ok: "ttl_ok (w_redis app_world)"
  by (simp add: app_world_def)

section \<open>The exchange\<close>

lemma exchange_issue_succeeds:
  assumes "signs s"
  shows "\<exists>t w'. exec (exchange_issue s cid e) E w =
    (\<lparr>rs_Headers = json_no_store, rs_Outcome = Reply 200 (TokenBody t)\<rparr>, w')"
proof -
  define scopes where "scopes = (if ac_Scope e \<noteq> [] then strings_Fields (ac_Scope e) else [])"
  obtain x w1 where a: "exec (s_SignToken s this_issuer (ac_UserID e) audienceUser accessTokenTTL scopes) E w
      = (Inr x, w1)"
    using signs_exec(1) [OF assms] by blast
  obtain fam rt' where u: "env_uuid E (w_rt w1) = (fam, rt')" by fastforce
  obtain rt w3 where b: "exec (s_SignRefreshToken s this_issuer (ac_UserID e) audienceUser cid fam
      refreshTokenTTL (offline_access # scopes)) E (w1\<lparr>w_rt := rt'\<rparr>) = (Inr rt, w3)"
    using signs_exec(2) [OF assms] by blast
  show ?thesis
    using a b u by (auto simp: exchange_issue_def Let_def exec_call scopes_def [symmetric])
qed

lemma handleAuthorizationCode_issued:
  assumes "exec (handleAuthorizationCode s rb) E w = (r, w')" and "issued r = Some t"
  obtains code verifier e w1 d w2 w3 where "sv_authCodeGrantEnabled s" and "tr_Code rb = Some code"
    and "tr_CodeVerifier rb = Some verifier" and "tr_RedirectUri rb = Some (ac_RedirectURI e)"
    and "registered (sv_ClientRegistry s) (tr_ClientId rb) \<noteq> None"
    and "exec (GetAuthCode (sv_CacheClient s) code) E w = (Inr e, w1)"
    and "ac_ClientID e = tr_ClientId rb"
    and "ac_CodeChallenge e = base64_RawURL_EncodeToString (sha256_Sum256 verifier)"
    and "exec (DeleteAuthCode (sv_CacheClient s) code) E w1 = (d, w2)"
    and "exec (exchange_banned s (ac_UserID e)) E w2 = (False, w3)"
    and "exec (exchange_issue s (tr_ClientId rb) e) E w3 = (r, w')"
proof -
  let ?get = "\<lambda>x. case x of None \<Rightarrow> [] | Some v \<Rightarrow> v"
  obtain g w1 where g: "exec (GetAuthCode (sv_CacheClient s) (?get (tr_Code rb))) E w = (g, w1)" by fastforce
  have pre: "sv_authCodeGrantEnabled s \<and> ?get (tr_Code rb) \<noteq> [] \<and> ?get (tr_CodeVerifier rb) \<noteq> [] \<and>
    ?get (tr_RedirectUri rb) \<noteq> [] \<and> registered (sv_ClientRegistry s) (tr_ClientId rb) \<noteq> None \<and> (\<exists>e. g = Inr e)"
    using assms g
    by (cases g) (auto simp: handleAuthorizationCode_def Let_def Registry_Get_value exec_call
        split: if_splits option.splits)
  then obtain e where e: "g = Inr e" by blast
  obtain d w2 where d: "exec (DeleteAuthCode (sv_CacheClient s) (?get (tr_Code rb))) E w1 = (d, w2)" by fastforce
  obtain b w3 where b: "exec (exchange_banned s (ac_UserID e)) E w2 = (b, w3)" by fastforce
  have "ac_ClientID e = tr_ClientId rb \<and> ac_RedirectURI e = ?get (tr_RedirectUri rb) \<and>
    verifyCodeChallenge (ac_CodeChallenge e) (?get (tr_CodeVerifier rb)) \<and> \<not> b \<and>
    exec (exchange_issue s (tr_ClientId rb) e) E w3 = (r, w')"
    using assms pre g e d b
    by (auto simp: handleAuthorizationCode_def Let_def Registry_Get_value exec_call split: if_splits)
  then show thesis
    using that [of "?get (tr_Code rb)" "?get (tr_CodeVerifier rb)" e w1 d w2 w3] pre g e d b
    by (auto simp: verifyCodeChallenge_def split: option.splits)
qed

lemma exchange_issue_issued:
  assumes "exec (exchange_issue s cid e) E w = (r, w')" and "issued r = Some t"
  shows "token_for s (ts_AccessToken t) (ac_UserID e) audienceUser [] [] accessTokenTTL
      (strings_Fields (ac_Scope e)) (fst (env_now E (w_rt w))) \<and>
    (\<exists>rt fam now. ts_RefreshToken t = Some rt \<and> token_for s rt (ac_UserID e) audienceUser cid fam
       refreshTokenTTL (offline_access # strings_Fields (ac_Scope e)) now)"
proof -
  have f: "(if ac_Scope e \<noteq> [] then strings_Fields (ac_Scope e) else []) = strings_Fields (ac_Scope e)"
    by (simp add: strings_Fields_def)
  show ?thesis using assms
    by (auto simp: exchange_issue_def f exec_call Let_def
        split: prod.splits sum.splits dest!: exec_s_SignToken exec_s_SignRefreshToken; blast)
qed

lemma no_redis_exchange: "no_redis (exchange_issue s cid e)"
  by (auto simp: exchange_issue_def Let_def respond_def intro!: no_redis_call no_redis_sign split: sum.split)

text \<open>C5: An exchange issues tokens only while the grant is enabled, for a code that the store
  holds, to the registered client the code was issued to, for the redirect URI it was issued
  with, and against the PKCE verifier whose SHA-256 is the stored challenge. The tokens are for
  the stored user, the user audience and the stored scopes; the refresh token is bound to the
  client. No client secret takes part.\<close>

theorem auth_code_exchange_sound:
  assumes "kv_store (env_cache E) live"
    and "exec (handleAuthorizationCode s rb) E w = (r, w')" and "issued r = Some t"
  shows "\<exists>code verifier raw e rt fam now1 now2. sv_authCodeGrantEnabled s \<and> tr_Code rb = Some code \<and>
    live (w_redis w) (authCodeKeyPrefix @ code) = Some raw \<and>
    and_then (Unmarshal raw) AuthCodeEntry_of_json = Inr e \<and>
    registered (sv_ClientRegistry s) (tr_ClientId rb) \<noteq> None \<and> ac_ClientID e = tr_ClientId rb \<and>
    tr_RedirectUri rb = Some (ac_RedirectURI e) \<and> tr_CodeVerifier rb = Some verifier \<and>
    ac_CodeChallenge e = base64_RawURL_EncodeToString (sha256_Sum256 verifier) \<and>
    token_for s (ts_AccessToken t) (ac_UserID e) audienceUser [] [] accessTokenTTL
      (strings_Fields (ac_Scope e)) now1 \<and>
    ts_RefreshToken t = Some rt \<and> token_for s rt (ac_UserID e) audienceUser (tr_ClientId rb) fam
      refreshTokenTTL (offline_access # strings_Fields (ac_Scope e)) now2"
proof -
  obtain code verifier e w1 d w2 w3 where st: "sv_authCodeGrantEnabled s" "tr_Code rb = Some code"
    "tr_CodeVerifier rb = Some verifier" "tr_RedirectUri rb = Some (ac_RedirectURI e)"
    "registered (sv_ClientRegistry s) (tr_ClientId rb) \<noteq> None"
    "exec (GetAuthCode (sv_CacheClient s) code) E w = (Inr e, w1)" "ac_ClientID e = tr_ClientId rb"
    "ac_CodeChallenge e = base64_RawURL_EncodeToString (sha256_Sum256 verifier)"
    "exec (exchange_issue s (tr_ClientId rb) e) E w3 = (r, w')"
    using handleAuthorizationCode_issued [OF assms(2,3)] by metis
  from kv_store.GetAuthCode_value [OF assms(1) refl st(6)]
  obtain raw where raw: "live (w_redis w) (authCodeKeyPrefix @ code) = Some raw"
    "and_then (Unmarshal raw) AuthCodeEntry_of_json = Inr e" by blast
  obtain rt fam now where rt: "ts_RefreshToken t = Some rt" "token_for s rt (ac_UserID e) audienceUser
      (tr_ClientId rb) fam refreshTokenTTL (offline_access # strings_Fields (ac_Scope e)) now"
    and at: "token_for s (ts_AccessToken t) (ac_UserID e) audienceUser [] [] accessTokenTTL
      (strings_Fields (ac_Scope e)) (fst (env_now E (w_rt w3)))"
    using exchange_issue_issued [OF st(9) assms(3)] by blast
  show ?thesis
    by (intro exI conjI) (rule st(1,2,5,7,4,3,8) raw at rt)+
qed

text \<open>The tokens that an exchange issues for an entry: the stored user, the stored scopes.\<close>

definition exchanged :: "Service \<Rightarrow> string \<Rightarrow> AuthCodeEntry \<Rightarrow> TokenResponse \<Rightarrow> bool" where
  "exchanged s cid e t \<longleftrightarrow>
     (\<exists>now. token_for s (ts_AccessToken t) (ac_UserID e) audienceUser [] [] accessTokenTTL (strings_Fields (ac_Scope e)) now) \<and>
     (\<exists>rt fam now. ts_RefreshToken t = Some rt \<and> token_for s rt (ac_UserID e) audienceUser cid fam
        refreshTokenTTL (offline_access # strings_Fields (ac_Scope e)) now)"

text \<open>The part of the exchange after the code was read.\<close>

definition spend_code :: "Service \<Rightarrow> string \<Rightarrow> string \<Rightarrow> AuthCodeEntry \<Rightarrow> response proc" where
  "spend_code s cid code e =
     call (DeleteAuthCode (sv_CacheClient s) code) (\<lambda>_.
       call (exchange_banned s (ac_UserID e)) (\<lambda>banned.
         if banned
         then respond json_no_store (SendError Global_Forbidden ''account is not eligible for token issuance'')
         else exchange_issue s cid e))"

text \<open>A request that presents everything the entry asks for.\<close>

definition presents :: "Service \<Rightarrow> TokenRequest \<Rightarrow> string \<Rightarrow> AuthCodeEntry \<Rightarrow> bool" where
  "presents s rb code e \<longleftrightarrow> sv_authCodeGrantEnabled s \<and> tr_Code rb = Some code \<and> code \<noteq> [] \<and>
     tr_RedirectUri rb = Some (ac_RedirectURI e) \<and> ac_RedirectURI e \<noteq> [] \<and>
     ac_ClientID e = tr_ClientId rb \<and> tr_ClientId rb \<noteq> [] \<and>
     registered (sv_ClientRegistry s) (tr_ClientId rb) \<noteq> None \<and>
     (\<exists>verifier. tr_CodeVerifier rb = Some verifier \<and> verifier \<noteq> [] \<and>
        ac_CodeChallenge e = base64_RawURL_EncodeToString (sha256_Sum256 verifier))"

context kv_reliable
begin

lemma exchange_reads:
  assumes "env_cache E = api" and "cc_api (sv_CacheClient s) \<noteq> None" and "ok (w_redis w)"
    and "presents s rb code e" and "utf8_entry e"
    and "live (w_redis w) (authCodeKeyPrefix @ code) = Some (print_value (AuthCodeEntry_to_json e))"
  shows "\<exists>v. step_proc E (handleAuthorizationCode s rb) w = (spend_code s (tr_ClientId rb) code e, v) \<and>
    ok (w_redis v) \<and> live (w_redis v) = live (w_redis w)"
proof -
  obtain r where r: "op_Get api (authCodeKeyPrefix @ code) (w_redis w)
      = (Inr (print_value (AuthCodeEntry_to_json e)), r)" "ok r" "live r = live (w_redis w)"
    using get_eq [OF assms(3), of "authCodeKeyPrefix @ code"] assms(6) by auto
  have "step_proc E (handleAuthorizationCode s rb) w
      = (spend_code s (tr_ClientId rb) code e, w\<lparr>w_redis := r\<rparr>)"
    using r(1) assms(1,2,4,5)
    by (auto simp: handleAuthorizationCode_def Let_def presents_def Registry_Get_value GetAuthCode_def
        entry_text entry_text_nonempty verifyCodeChallenge_def spend_code_def)
  then show ?thesis using r by auto
qed

lemma spend_issues:
  assumes "env_cache E = api" and "cc_api (sv_CacheClient s) \<noteq> None" and "ok (w_redis v)"
    and "signs s" and "sv_BannedChecker s = None"
  shows "\<exists>t v'. exec (spend_code s cid code e) E v =
      (\<lparr>rs_Headers = json_no_store, rs_Outcome = Reply 200 (TokenBody t)\<rparr>, v') \<and> ok (w_redis v') \<and>
    live (w_redis v') = (live (w_redis v))(authCodeKeyPrefix @ code := None) \<and> exchanged s cid e t"
proof -
  obtain r where d: "exec (DeleteAuthCode (sv_CacheClient s) code) E v = (None, v\<lparr>w_redis := r\<rparr>)" "ok r"
    "live r = (live (w_redis v))(authCodeKeyPrefix @ code := None)"
    using DeleteAuthCode_exec [OF assms(1-3), of code] by blast
  obtain t v' where i: "exec (exchange_issue s cid e) E (v\<lparr>w_redis := r\<rparr>) =
      (\<lparr>rs_Headers = json_no_store, rs_Outcome = Reply 200 (TokenBody t)\<rparr>, v')"
    using exchange_issue_succeeds [OF assms(4)] by blast
  have "exec (spend_code s cid code e) E v =
      (\<lparr>rs_Headers = json_no_store, rs_Outcome = Reply 200 (TokenBody t)\<rparr>, v')"
    using d i assms(5) by (simp add: spend_code_def exec_call exchange_banned_def)
  moreover have "w_redis v' = r" using exec_no_redis [OF no_redis_exchange i] by simp
  moreover have "exchanged s cid e t"
    using exchange_issue_issued [OF i issued_simps(2)] by (auto simp: exchanged_def)
  ultimately show ?thesis using d by auto
qed

lemma exchange_completes:
  assumes "env_cache E = api" and "cc_api (sv_CacheClient s) \<noteq> None" and "ok (w_redis w)"
    and "signs s" and "sv_BannedChecker s = None" and "presents s rb code e" and "utf8_entry e"
    and "live (w_redis w) (authCodeKeyPrefix @ code) = Some (print_value (AuthCodeEntry_to_json e))"
  shows "\<exists>t w'. exec (handleAuthorizationCode s rb) E w =
      (\<lparr>rs_Headers = json_no_store, rs_Outcome = Reply 200 (TokenBody t)\<rparr>, w') \<and>
    live (w_redis w') = (live (w_redis w))(authCodeKeyPrefix @ code := None) \<and> exchanged s (tr_ClientId rb) e t"
proof -
  obtain v where v: "step_proc E (handleAuthorizationCode s rb) w = (spend_code s (tr_ClientId rb) code e, v)"
    "ok (w_redis v)" "live (w_redis v) = live (w_redis w)"
    using exchange_reads [OF assms(1-3,6-8)] by blast
  from spend_issues [OF assms(1,2) v(2) assms(4,5), of "tr_ClientId rb" code e]
  show ?thesis using v exec_step [of "handleAuthorizationCode s rb" E w] by auto
qed

end

lemma app_presents: "presents local_service app_exchange ''c0de'' (app_entry app_challenge)"
  by (simp add: presents_def app_exchange_def app_entry_def empty_TokenRequest_def app_challenge_def)

text \<open>The exchange of the code in the concrete service, to its end.\<close>

lemma app_issued:
  "\<exists>t w'. exec (handleAuthorizationCode local_service app_exchange) local_env app_world =
      (\<lparr>rs_Headers = json_no_store, rs_Outcome = Reply 200 (TokenBody t)\<rparr>, w')"
proof -
  have c: "cc_api (sv_CacheClient local_service) \<noteq> None" by simp
  obtain v where v: "step_proc local_env (handleAuthorizationCode local_service app_exchange) app_world
      = (spend_code local_service (tr_ClientId app_exchange) ''c0de'' (app_entry app_challenge), v)"
    "ttl_ok (w_redis v)"
    using kv_reliable.exchange_reads [OF local_kv_reliable refl c app_ok app_presents app_utf8 app_stored] by blast
  from kv_reliable.spend_issues [OF local_kv_reliable refl c v(2) local_signs]
  show ?thesis using exec_step [of "handleAuthorizationCode local_service app_exchange" local_env app_world] v(1)
    by fastforce
qed

text \<open>A registered client that presents a stored code with its redirect URI and the verifier of
  its challenge is issued tokens (no ban checker being configured), and the code is gone.\<close>

theorem auth_code_exchange_complete:
  assumes "kv_reliable (env_cache E) live ok" and "cc_api (sv_CacheClient s) \<noteq> None" and "ok (w_redis w)"
    and "signs s" and "sv_BannedChecker s = None" and "presents s rb code e" and "utf8_entry e"
    and "live (w_redis w) (authCodeKeyPrefix @ code) = Some (print_value (AuthCodeEntry_to_json e))"
  shows "\<exists>t w'. exec (handleAuthorizationCode s rb) E w =
      (\<lparr>rs_Headers = json_no_store, rs_Outcome = Reply 200 (TokenBody t)\<rparr>, w') \<and>
    live (w_redis w') = (live (w_redis w))(authCodeKeyPrefix @ code := None)"
  using kv_reliable.exchange_completes [OF assms(1) refl assms(2-)] by blast

theorem auth_code_exchange_complete_witness:
  "\<exists>t w'. exec (handleAuthorizationCode local_service app_exchange) local_env app_world =
      (\<lparr>rs_Headers = json_no_store, rs_Outcome = Reply 200 (TokenBody t)\<rparr>, w') \<and>
    ttl_live (w_redis w') (authCodeKeyPrefix @ ''c0de'') = None"
  using auth_code_exchange_complete [OF local_kv_reliable _ app_ok local_signs _ app_presents app_utf8 app_stored]
  by auto

text \<open>C6: On a store that answers, an exchange that issues tokens spends the code: in any later
  state in which the code was not stored again, another exchange of it is refused.\<close>

theorem auth_code_single_use:
  assumes "kv_reliable (env_cache E) live ok" and "ok (w_redis w)"
    and "exec (handleAuthorizationCode s rb) E w = (r, w')" and "issued r = Some t"
    and "tr_Code rb = Some code" and "tr_Code rb' = Some code"
    and "ok (w_redis v)"
    and "live (w_redis v) (authCodeKeyPrefix @ code) = live (w_redis w') (authCodeKeyPrefix @ code)"
  shows "issued (fst (exec (handleAuthorizationCode s rb') E v)) = None"
proof (rule ccontr)
  note store = kv_reliable.axioms(1) [OF assms(1)]
  obtain code' e w1 d w2 w3 where c': "tr_Code rb = Some code'"
    and st: "exec (GetAuthCode (sv_CacheClient s) code') E w = (Inr e, w1)"
    "exec (DeleteAuthCode (sv_CacheClient s) code') E w1 = (d, w2)"
    "exec (exchange_banned s (ac_UserID e)) E w2 = (False, w3)"
    "exec (exchange_issue s (tr_ClientId rb) e) E w3 = (r, w')"
    by (rule handleAuthorizationCode_issued [OF assms(3,4)])
  have "code' = code" using c' assms(5) by simp
  note st = st [unfolded this]
  have c: "cc_api (sv_CacheClient s) \<noteq> None" using kv_store.GetAuthCode_value [OF store refl st(1)] by blast
  have "ok (w_redis w1)" using kv_reliable.GetAuthCode_exec [OF assms(1) refl c assms(2), of code] st(1) by auto
  then have "live (w_redis w2) (authCodeKeyPrefix @ code) = None"
    using kv_reliable.DeleteAuthCode_exec [OF assms(1) refl c, of w1 code] st(2) by auto
  moreover have "w_redis w' = w_redis w2"
    using exec_no_redis [OF no_redis_banned(2) st(3)] exec_no_redis [OF no_redis_exchange st(4)] by simp
  ultimately have gone: "live (w_redis v) (authCodeKeyPrefix @ code) = None" using assms(8) by simp
  assume "issued (fst (exec (handleAuthorizationCode s rb') E v)) \<noteq> None"
  then obtain t2 where "issued (fst (exec (handleAuthorizationCode s rb') E v)) = Some t2" by blast
  from handleAuthorizationCode_issued [OF prod.collapse [symmetric] this]
  obtain code2 e2 v1 where "tr_Code rb' = Some code2"
    and g: "exec (GetAuthCode (sv_CacheClient s) code2) E v = (Inr e2, v1)" by metis
  then have "code2 = code" using assms(6) by simp
  with kv_store.GetAuthCode_value [OF store refl g] gone show False by simp
qed

theorem auth_code_single_use_witness:
  "issued (fst (exec (handleAuthorizationCode local_service app_exchange) local_env
    (snd (exec (handleAuthorizationCode local_service app_exchange) local_env app_world)))) = None"
proof -
  obtain t w' where e: "exec (handleAuthorizationCode local_service app_exchange) local_env app_world
      = (\<lparr>rs_Headers = json_no_store, rs_Outcome = Reply 200 (TokenBody t)\<rparr>, w')"
    using app_issued by blast
  have "ttl_ok (w_redis w')" using local_exec [OF e] app_ok by blast
  from auth_code_single_use [OF local_kv_reliable app_ok e _ app_code app_code this refl] show ?thesis
    by (simp add: e)
qed

theorem auth_code_exchange_sound_witness:
  "\<exists>t rt fam now. issued (fst (exec (handleAuthorizationCode local_service app_exchange) local_env app_world)) = Some t \<and>
    ts_RefreshToken t = Some rt \<and> token_for local_service rt ''user-1'' audienceUser ''orders'' fam
      refreshTokenTTL [''offline_access'', ''orders:read''] now"
proof -
  obtain t w' where e: "exec (handleAuthorizationCode local_service app_exchange) local_env app_world
      = (\<lparr>rs_Headers = json_no_store, rs_Outcome = Reply 200 (TokenBody t)\<rparr>, w')"
    using app_issued by blast
  have "\<exists>code raw e rt fam now. tr_Code app_exchange = Some code \<and>
    ttl_live (w_redis app_world) (authCodeKeyPrefix @ code) = Some raw \<and>
    and_then (Unmarshal raw) AuthCodeEntry_of_json = Inr e \<and> ts_RefreshToken t = Some rt \<and>
    token_for local_service rt (ac_UserID e) audienceUser (tr_ClientId app_exchange) fam
      refreshTokenTTL (offline_access # strings_Fields (ac_Scope e)) now"
    using auth_code_exchange_sound [OF local_kv_store e issued_simps(2)] by blast
  moreover have "strings_Fields ''orders:read'' = [''orders:read'']" by code_simp
  ultimately show ?thesis
    using e by (auto simp: app_code app_stored entry_text app_utf8)
      (auto simp: app_entry_def app_exchange_def offline_access_def)
qed

section \<open>Overlapping exchanges\<close>

text \<open>C12: The single use does not hold for overlapping requests: reading and deleting the code are
  two commands. When two exchanges of one code both read it before either deletes it, both are
  issued tokens.\<close>

theorem auth_code_double_exchange:
  assumes "kv_reliable (env_cache E) live ok" and "cc_api (sv_CacheClient s) \<noteq> None" and "ok (w_redis w)"
    and "signs s" and "sv_BannedChecker s = None" and "presents s rb code e" and "utf8_entry e"
    and "live (w_redis w) (authCodeKeyPrefix @ code) = Some (print_value (AuthCodeEntry_to_json e))"
    and "step_proc E (handleAuthorizationCode s rb) w = (p1, w1)"
    and "step_proc E (handleAuthorizationCode s rb) w1 = (p2, w2)"
    and "exec p1 E w2 = (r1, w3)" and "exec p2 E w3 = (r2, w4)"
  shows "\<exists>t1 t2. issued r1 = Some t1 \<and> issued r2 = Some t2"
proof -
  have 1: "p1 = spend_code s (tr_ClientId rb) code e" "ok (w_redis w1)" "live (w_redis w1) = live (w_redis w)"
    using kv_reliable.exchange_reads [OF assms(1) refl assms(2,3,6,7,8)] assms(9) by auto
  have 2: "p2 = spend_code s (tr_ClientId rb) code e" "ok (w_redis w2)"
    using kv_reliable.exchange_reads [OF assms(1) refl assms(2) 1(2) assms(6,7)] assms(8,10) 1(3) by auto
  obtain t1 where 3: "issued r1 = Some t1" "ok (w_redis w3)"
    using kv_reliable.spend_issues [OF assms(1) refl assms(2) 2(2) assms(4,5), of "tr_ClientId rb" code e]
      assms(11) 1(1) by auto
  obtain t2 where "issued r2 = Some t2"
    using kv_reliable.spend_issues [OF assms(1) refl assms(2) 3(2) assms(4,5), of "tr_ClientId rb" code e]
      assms(12) 2(1) by auto
  then show ?thesis using 3 by blast
qed

theorem auth_code_double_exchange_witness:
  "\<exists>p1 w1 p2 w2 t1 t2. step_proc local_env (handleAuthorizationCode local_service app_exchange) app_world = (p1, w1) \<and>
    step_proc local_env (handleAuthorizationCode local_service app_exchange) w1 = (p2, w2) \<and>
    issued (fst (exec p1 local_env w2)) = Some t1 \<and>
    issued (fst (exec p2 local_env (snd (exec p1 local_env w2)))) = Some t2"
proof -
  let ?h = "handleAuthorizationCode local_service app_exchange"
  obtain p1 w1 where 1: "step_proc local_env ?h app_world = (p1, w1)" by fastforce
  obtain p2 w2 where 2: "step_proc local_env ?h w1 = (p2, w2)" by fastforce
  from auth_code_double_exchange [OF local_kv_reliable _ app_ok local_signs _ app_presents app_utf8 app_stored
      1 2 prod.collapse [symmetric] prod.collapse [symmetric]]
  show ?thesis using 1 2 by auto
qed

end
