(* ===== verification/AuthorizeProps.thy ===== *)
theory AuthorizeProps
  imports AuthorizeEndpoint AuthCodeProps
begin

text \<open>
  Properties of the authorization endpoint: where it redirects to, when it stores a code, and
  that the code it hands out is exchanged for tokens at the token endpoint.
\<close>

section \<open>What a request asks for\<close>

definition asked :: "http_in \<Rightarrow> string \<Rightarrow> string" where
  "asked req k = Values_Get (URL_Query (in_RawQuery req)) k"

definition asked_entry :: "http_in \<Rightarrow> AuthCodeEntry" where
  "asked_entry req =
     \<lparr>ac_ClientID = asked req ''client_id'', ac_RedirectURI = asked req ''redirect_uri'',
      ac_Scope = asked req ''scope'', ac_UserID = asked req ''user_id'',
      ac_CodeChallenge = asked req ''code_challenge''\<rparr>"

definition absolute_uri :: "string \<Rightarrow> bool" where
  "absolute_uri x \<longleftrightarrow> (\<exists>u. url_ParseRequestURI x = Some u \<and> uri_Scheme u \<noteq> [] \<and> uri_Host u \<noteq> [])"

text \<open>The redirect URI is one the client registered.\<close>

definition redirect_registered :: "Service \<Rightarrow> http_in \<Rightarrow> bool" where
  "redirect_registered s req \<longleftrightarrow>
     (\<exists>rec. registered (sv_ClientRegistry s) (asked req ''client_id'') = Some rec \<and>
        asked req ''redirect_uri'' \<in> set (cr_AllowedRedirectURIs rec))"

definition well_asked :: "Service \<Rightarrow> http_in \<Rightarrow> bool" where
  "well_asked s req \<longleftrightarrow> sv_authCodeGrantEnabled s \<and> asked req ''client_id'' \<noteq> [] \<and>
     redirect_registered s req \<and> absolute_uri (asked req ''redirect_uri'') \<and>
     asked req ''response_type'' = ''code'' \<and> asked req ''code_challenge'' \<noteq> [] \<and>
     asked req ''code_challenge_method'' = ''S256'' \<and> asked req ''user_id'' \<noteq> []"

lemma not_absolute:
  "(case url_ParseRequestURI x of None \<Rightarrow> True | Some u \<Rightarrow> uri_Scheme u = [] \<or> uri_Host u = []) \<longleftrightarrow>
     \<not> absolute_uri x"
  by (auto simp: absolute_uri_def split: option.split)

lemma absolute_nonempty: "absolute_uri x \<Longrightarrow> x \<noteq> []"
  by (auto simp: absolute_uri_def url_ParseRequestURI_def parse_uri_def)

lemma exec_redirect_with:
  "exec (redirect_with uri f) E w = (r, w') \<Longrightarrow> w' = w \<and> (\<forall>u q. rs_Outcome r = Redirect u q \<longrightarrow> u = uri)"
  by (auto simp: redirect_with_def split: option.splits)

lemma authorize_refuses:
  assumes "\<not> well_asked s req" and "exec (OAuthAuthorizeHandler s req) E w = (r, w')"
  shows "w' = w \<and> (\<forall>u q. rs_Outcome r = Redirect u q \<longrightarrow> u = asked req ''redirect_uri'' \<and> redirect_registered s req)"
  using assms
  by (auto simp: OAuthAuthorizeHandler_def Let_def asked_def [symmetric] well_asked_def redirect_registered_def
      sendAuthorizeDirectError_def redirectAuthorizeError_def Registry_Get_value not_absolute
      split: if_splits option.splits dest: exec_redirect_with)

lemma authorize_issues:
  assumes "well_asked s req"
  shows "OAuthAuthorizeHandler s req = issue_code s (asked_entry req) (asked req ''state'')"
  using assms absolute_nonempty
  by (auto simp: OAuthAuthorizeHandler_def Let_def asked_def [symmetric] well_asked_def redirect_registered_def
      asked_entry_def Registry_Get_value not_absolute)

lemma issue_code_exec:
  assumes "exec (issue_code s e state) E w = (r, w')"
  shows "(\<forall>u q. rs_Outcome r = Redirect u q \<longrightarrow> u = ac_RedirectURI e) \<and>
    (w_redis w' = w_redis w \<or> (\<exists>code x v. exec (StoreAuthCode (sv_CacheClient s) code e) E v = (x, w') \<and>
      w_redis v = w_redis w))"
proof -
  obtain g v where g: "exec generateAuthCode E w = (g, v)" by fastforce
  have red: "w_redis v = w_redis w" using g by (auto simp: generateAuthCode_def split: prod.splits sum.splits)
  show ?thesis
  proof (cases g)
    case (Inl err)
    then show ?thesis using assms g red
      by (auto simp: issue_code_def Let_def exec_call redirectAuthorizeError_def dest: exec_redirect_with)
  next
    case (Inr code)
    obtain c v2 where c: "exec (StoreAuthCode (sv_CacheClient s) code e) E v = (c, v2)" by fastforce
    have "w' = v2 \<and> (\<forall>u q. rs_Outcome r = Redirect u q \<longrightarrow> u = ac_RedirectURI e)"
      using assms g Inr c
      by (cases c) (auto simp: issue_code_def Let_def exec_call redirectAuthorizeError_def dest: exec_redirect_with
          split: if_splits)
    then show ?thesis using c red by blast
  qed
qed

section \<open>Soundness\<close>

text \<open>C22: The endpoint redirects only to a redirect URI that the named client registered (errors
  included: anything else gets an error page). It changes the store only for a request in order
  (grant enabled, registered client and absolute redirect URI, \<open>response_type=code\<close>, an S256
  challenge, a user), and then by one new entry, which records just what was asked.\<close>

theorem authorize_sound:
  assumes "kv_store (env_cache E) live" and "exec (OAuthAuthorizeHandler s req) E w = (r, w')"
  shows "(\<forall>u q. rs_Outcome r = Redirect u q \<longrightarrow> u = asked req ''redirect_uri'' \<and> redirect_registered s req) \<and>
    (live (w_redis w') \<noteq> live (w_redis w) \<longrightarrow> well_asked s req \<and>
      (\<exists>code. live (w_redis w) (authCodeKeyPrefix @ code) = None \<and> live (w_redis w') =
        (live (w_redis w))(authCodeKeyPrefix @ code \<mapsto> print_value (AuthCodeEntry_to_json (asked_entry req)))))"
proof (cases "well_asked s req")
  case True
  then have i: "exec (issue_code s (asked_entry req) (asked req ''state'')) E w = (r, w')"
    using assms(2) by (simp add: authorize_issues)
  have "redirect_registered s req" using True by (simp add: well_asked_def)
  moreover have "live (w_redis w') = live (w_redis w) \<or> (\<exists>code. live (w_redis w) (authCodeKeyPrefix @ code) = None \<and>
      live (w_redis w') = (live (w_redis w))(authCodeKeyPrefix @ code \<mapsto> print_value (AuthCodeEntry_to_json (asked_entry req))))"
  proof (cases "w_redis w' = w_redis w")
    case False
    then obtain code x v where "exec (StoreAuthCode (sv_CacheClient s) code (asked_entry req)) E v = (x, w')"
      and "w_redis v = w_redis w" using issue_code_exec [OF i] by blast
    with kv_store.StoreAuthCode_cases [OF assms(1) refl this(1)] show ?thesis by auto
  qed simp
  ultimately show ?thesis using issue_code_exec [OF i] True by (auto simp: asked_entry_def)
next
  case False
  then show ?thesis using authorize_refuses [OF False assms(2)] by auto
qed

section \<open>From the request to the tokens\<close>

context kv_reliable
begin

lemma authorize_hands_out:
  assumes "env_cache E = api" and "cc_api (sv_CacheClient s) \<noteq> None" and "ok (w_redis w)"
    and "well_asked s req" and "url_Parse (asked req ''redirect_uri'') = Some u"
    and "env_rand_read E authCodeBytes (w_rt w) = (Inr b, rt)" and "code = base64_RawURL_EncodeToString b"
    and "live (w_redis w) (authCodeKeyPrefix @ code) = None"
  shows "\<exists>w1. exec (OAuthAuthorizeHandler s req) E w = (\<lparr>rs_Headers = [], rs_Outcome =
      Redirect (asked req ''redirect_uri'')
        (set_state (asked req ''state'') (Values_Set (URL_Query (uri_RawQuery u)) ''code'' code))\<rparr>, w1) \<and> ok (w_redis w1) \<and>
    live (w_redis w1) = (live (w_redis w))(authCodeKeyPrefix @ code \<mapsto> print_value (AuthCodeEntry_to_json (asked_entry req)))"
proof -
  let ?w = "w\<lparr>w_rt := rt\<rparr>"
  obtain st where st: "exec (StoreAuthCode (sv_CacheClient s) code (asked_entry req)) E ?w = (Inr True, ?w\<lparr>w_redis := st\<rparr>)"
    "ok st" "live st = (live (w_redis w))(authCodeKeyPrefix @ code \<mapsto> print_value (AuthCodeEntry_to_json (asked_entry req)))"
    using StoreAuthCode_exec [OF assms(1,2), of ?w code "asked_entry req"] assms(3,8) by auto
  moreover have "ac_RedirectURI (asked_entry req) = asked req ''redirect_uri''" by (simp add: asked_entry_def)
  ultimately show ?thesis
    unfolding authorize_issues [OF assms(4)] using assms(5-7)
    by (simp add: issue_code_def Let_def exec_call generateAuthCode_def redirect_with_def)
qed

end


definition app_query :: url_values where
  "app_query = [(''client_id'', ''orders''), (''redirect_uri'', ''https://app.example/cb''),
     (''response_type'', ''code''), (''scope'', ''orders:read''), (''state'', ''xyz''),
     (''code_challenge'', app_challenge), (''code_challenge_method'', ''S256''), (''user_id'', ''user-1'')]"

definition app_request :: http_in where
  "app_request = (local_request JNull)\<lparr>in_RawQuery := Values_Encode app_query\<rparr>"

lemma app_asked: "asked app_request k = Values_Get app_query k"
  by (simp add: asked_def app_request_def URL_Query_def Parse_Encode Get_sort_pairs app_query_def max_params_def)

lemma RawURL_empty: "base64_RawURL_EncodeToString bs = [] \<longleftrightarrow> bs = []"
  using RawURL_inj [of bs "[]"] by (simp add: base64_RawURL_EncodeToString_def)

lemma app_challenge_nonempty: "app_challenge \<noteq> []"
  using length_sha256_Sum256 [of "''verifier''"] by (auto simp: app_challenge_def RawURL_empty)

lemma app_asked_entry: "asked_entry app_request = app_entry app_challenge"
  by (simp add: asked_entry_def app_asked app_query_def Values_Get_def app_entry_def)

lemma app_uri:
  "absolute_uri ''https://app.example/cb''" "\<exists>u. url_Parse ''https://app.example/cb'' = Some u"
proof -
  have "\<not> (case url_ParseRequestURI ''https://app.example/cb'' of None \<Rightarrow> True
     | Some u \<Rightarrow> uri_Scheme u = [] \<or> uri_Host u = [])" by code_simp
  then show "absolute_uri ''https://app.example/cb''" by (simp only: not_absolute not_not)
  have "url_Parse ''https://app.example/cb'' \<noteq> None" by code_simp
  then show "\<exists>u. url_Parse ''https://app.example/cb'' = Some u" by simp
qed

lemma app_well_asked: "well_asked local_service app_request"
  using app_uri(1)
  by (simp add: well_asked_def app_asked app_query_def Values_Get_def app_challenge_nonempty redirect_registered_def
      local_record_def)

definition app_authcode :: string where
  "app_authcode = base64_RawURL_EncodeToString (replicate authCodeBytes (CHR ''A''))"

lemma app_authcode_nonempty [simp]: "app_authcode \<noteq> []"
  by (simp add: app_authcode_def RawURL_empty authCodeBytes_def)

lemma app_presented:
  "presents local_service (app_exchange\<lparr>tr_Code := Some app_authcode\<rparr>) app_authcode (asked_entry app_request)"
  by (simp add: presents_def app_asked_entry app_exchange_def app_entry_def empty_TokenRequest_def app_challenge_def)

lemma app_random:
  "\<exists>rt. env_rand_read local_env authCodeBytes (w_rt (local_world Map.empty [] 5))
      = (Inr (replicate authCodeBytes (CHR ''A'')), rt)"
proof -
  have "char_of (65::nat) = CHR ''A''" by code_simp
  then show ?thesis by (simp add: local_env_def local_rand_read_def local_world_def)
qed

lemma app_fresh: "ttl_live (w_redis (local_world Map.empty [] 5)) (authCodeKeyPrefix @ app_authcode) = None"
  by (simp add: local_world_def ttl_live_def)

lemma app_parsed: "\<exists>u. url_Parse (asked app_request ''redirect_uri'') = Some u"
  using app_uri(2) by (auto simp: app_asked app_query_def Values_Get_def)


theorem authorize_sound_witness:
  "\<exists>q w'. exec (OAuthAuthorizeHandler local_service app_request) local_env (local_world Map.empty [] 5) =
      (\<lparr>rs_Headers = [], rs_Outcome = Redirect ''https://app.example/cb'' q\<rparr>, w') \<and>
    redirect_registered local_service app_request"
proof -
  obtain u where u: "url_Parse (asked app_request ''redirect_uri'') = Some u" using app_parsed by blast
  obtain rt where r: "env_rand_read local_env authCodeBytes (w_rt (local_world Map.empty [] 5))
      = (Inr (replicate authCodeBytes (CHR ''A'')), rt)" using app_random by blast
  have c: "cc_api (sv_CacheClient local_service) \<noteq> None" by simp
  obtain q w' where e: "exec (OAuthAuthorizeHandler local_service app_request) local_env (local_world Map.empty [] 5) =
      (\<lparr>rs_Headers = [], rs_Outcome = Redirect (asked app_request ''redirect_uri'') q\<rparr>, w')"
    using kv_reliable.authorize_hands_out [OF local_kv_reliable refl c local_redis_ok app_well_asked u r app_authcode_def
        app_fresh] by blast
  from authorize_sound [OF local_kv_store e] e show ?thesis
    by (simp add: app_asked app_query_def Values_Get_def)
qed

end
