(* ===== verification/InfoEndpoints.thy ===== *)
theory InfoEndpoints
  imports Service GoUri
begin

text \<open>
  The endpoints that publish what the service knows: the JWKS document with its cache
  (\<open>api/jwks.go\<close>), the registered clients (\<open>api/oauth_clients.go\<close>) and health
  (\<open>api/health.go\<close>). Log output is not modelled.
\<close>

section \<open>The JWKS document\<close>

record JWK =
  jk_Alg :: string
  jk_E :: string
  jk_Kid :: string
  jk_Kty :: string
  jk_N :: string
  jk_Use :: string

definition JWK_to_json :: "JWK \<Rightarrow> json" where
  "JWK_to_json k = JObj [(''alg'', JStr (jk_Alg k)), (''e'', JStr (jk_E k)), (''kid'', JStr (jk_Kid k)),
     (''kty'', JStr (jk_Kty k)), (''n'', JStr (jk_N k)), (''use'', JStr (jk_Use k))]"

definition JWKS_to_json :: "JWK list \<Rightarrow> json" where
  "JWKS_to_json ks = JObj [(''keys'', JArr (map JWK_to_json ks))]"

text \<open>\<open>big.Int.Bytes\<close>: the big-endian bytes without leading zeros.\<close>

fun big_Bytes :: "nat \<Rightarrow> string" where
  "big_Bytes n = (if n = 0 then [] else big_Bytes (n div 256) @ [char_of (n mod 256)])"

declare big_Bytes.simps [simp del]

definition jwk_of :: "VerificationKey \<Rightarrow> JWK" where
  "jwk_of vk =
     \<lparr>jk_Alg = ''RS256'', jk_E = base64_RawURL_EncodeToString (big_Bytes (pk_E (vk_Key vk))),
      jk_Kid = vk_Kid vk, jk_Kty = ''RSA'',
      jk_N = base64_RawURL_EncodeToString (big_Bytes (pk_N (vk_Key vk))), jk_Use = ''sig''\<rparr>"

definition buildJWKS :: "Keys \<Rightarrow> JWK list" where
  "buildJWKS auth = map jwk_of (VerificationKeys auth)"

definition kidsOf :: "VerificationKey list \<Rightarrow> string list" where
  "kidsOf vks = map vk_Kid vks"

fun kidsEqual :: "string list \<Rightarrow> string list \<Rightarrow> bool" where
  "kidsEqual [] [] = True"
| "kidsEqual (a # as) (b # bs) = (a = b \<and> kidsEqual as bs)"
| "kidsEqual _ _ = False"

text \<open>The document has only strings, which always encode: the error branch does not occur.\<close>

definition cachedJWKSBody :: "Keys \<Rightarrow> string res proc" where
  "cachedJWKSBody auth =
     (let kids = kidsOf (VerificationKeys auth);
          build =
            (let body = print_value (JWKS_to_json (buildJWKS auth))
             in JwksStore (kids, body) (\<lambda>_. Ret (Inr body)))
      in JwksLoad (\<lambda>cached.
           case cached of
             Some (ckids, cbody) \<Rightarrow> if kidsEqual ckids kids then Ret (Inr cbody) else build
           | None \<Rightarrow> build))"

definition jwks_headers :: "(string \<times> string) list" where
  "jwks_headers = [(''Content-Type'', ''application/json''), (''Cache-Control'', ''public, max-age=300'')]"

definition JWKSHandler :: "Service \<Rightarrow> http_in \<Rightarrow> response proc" where
  "JWKSHandler s req =
     (let hs = jwks_headers in
      case sv_JWT s of
        None \<Rightarrow> respond hs (SendError Auth_InvalidKey ''public key not configured'')
      | Some auth \<Rightarrow>
          call (cachedJWKSBody auth) (\<lambda>r.
            case r of
              Inl err \<Rightarrow> respond hs (SendError Global_Internal ''failed to build JWKS'')
            | Inr body \<Rightarrow> respond hs (Reply 200 (RawBody body))))"

section \<open>Registered clients\<close>

definition json_headers :: "(string \<times> string) list" where
  "json_headers = [(''Content-Type'', ''application/json'')]"

definition public_view :: "string \<Rightarrow> ClientRecord \<Rightarrow> RegisteredClient" where
  "public_view cid rec =
     \<lparr>rc_ClientId = cid, rc_Name = cr_Name rec, rc_AllowedScopes = cr_AllowedScopes rec\<rparr>"

definition GetClientHandler :: "Service \<Rightarrow> http_in \<Rightarrow> response proc" where
  "GetClientHandler s req =
     (let cid = in_PathID req in
      case Registry_Get (sv_ClientRegistry s) cid of (rec, ok) \<Rightarrow>
        if \<not> ok
        then respond json_headers (SendError Auth_InvalidClientCredentials (''client not found: '' @ cid))
        else respond json_headers (Reply 200 (ClientBody (public_view cid rec))))"

text \<open>
  The list is built by ranging over a map, in no particular order: it is given as what it says
  of each client ID.
\<close>

definition ListClientsHandler :: "Service \<Rightarrow> http_in \<Rightarrow> response proc" where
  "ListClientsHandler s req =
     (let allc = Registry_List (sv_ClientRegistry s)
      in respond json_headers (Reply 200 (ClientsBody (\<lambda>cid. map_option (public_view cid) (allc cid)))))"

section \<open>Health\<close>

primrec HealthReadyHandler :: "goerror option proc list \<Rightarrow> http_in \<Rightarrow> response proc" where
  "HealthReadyHandler [] req = respond [] (Reply 200 NoBody)"
| "HealthReadyHandler (check # checks) req =
     call check (\<lambda>r.
       case r of
         Some err \<Rightarrow> respond json_headers (Reply 503 (StatusBody ''unavailable''))
       | None \<Rightarrow> HealthReadyHandler checks req)"

text \<open>The exit code of the probe.\<close>

definition HealthProbe :: "string \<Rightarrow> int proc" where
  "HealthProbe addr =
     (let port = strings_TrimPrefix (strings_TrimSpace addr) '':'' in
      if port = [] then Ret 1
      else
        (let url = ''http://localhost:'' @ port @ ''/health'' in
         if url_Parse url = None then Ret 1
         else HttpDo \<lparr>rq_method = ''GET'', rq_url = url, rq_headers = [], rq_body = []\<rparr> (\<lambda>r.
           case r of
             Inl err \<Rightarrow> Ret 1
           | Inr resp \<Rightarrow> if \<not> success_status (rp_status resp) then Ret 1 else Ret 0)))"

end
