(* ===== verification/KeyProps.thy ===== *)
theory KeyProps
  imports InfoEndpoints LocalOAuth
begin

text \<open>
  Properties of the signing keys and of the published key set: rotation, which keys are accepted
  and published, and that the served document describes the keys.
\<close>

section \<open>Rotation\<close>

text \<open>C26: After any sequence of reloads of a key set that was loaded once, there is an active key, at
  most one older key is kept, with another ID, and the published keys are exactly those that a
  token naming a key ID is checked with; a token without an ID is checked with the active key.\<close>

theorem published_keys_are_accepted:
  assumes "NewKeys lib cfg = Inr k0"
  shows "\<exists>k act. k = reloads lib k0 cfgs \<and> k_active k = Some act \<and>
    VerificationKeys k \<noteq> [] \<and> length (VerificationKeys k) \<le> 2 \<and> distinct (kidsOf (VerificationKeys k)) \<and>
    keyForToken k (rs256_header []) = Inr (ks_publicKey act) \<and>
    (\<forall>kid p. kid \<noteq> [] \<longrightarrow>
      (keyForToken k (rs256_header kid) = Inr p \<longleftrightarrow> \<lparr>vk_Kid = kid, vk_Key = p\<rparr> \<in> set (VerificationKeys k)))"
proof -
  define k where "k = reloads lib k0 cfgs"
  have r: "keys_ready k" unfolding k_def by (rule reloads_ready [OF NewKeys_ready [OF assms]])
  then obtain act where act: "k_active k = Some act" by (auto simp: keys_ready_def)
  have "VerificationKeys k \<noteq> [] \<and> length (VerificationKeys k) \<le> 2 \<and> distinct (kidsOf (VerificationKeys k))"
    using r act by (auto simp: VerificationKeys_def kidsOf_def keys_ready_def split: option.split)
  moreover have "keyForToken k (rs256_header []) = Inr (ks_publicKey act)"
    using r act by (simp add: keyForToken_rs256)
  moreover have "keyForToken k (rs256_header kid) = Inr p \<longleftrightarrow> \<lparr>vk_Kid = kid, vk_Key = p\<rparr> \<in> set (VerificationKeys k)"
    if "kid \<noteq> []" for kid p
    using r act that by (cases "k_previous k") (auto simp: keyForToken_rs256 VerificationKeys_def)
  ultimately show ?thesis using k_def act by blast
qed

definition rotation :: "string \<Rightarrow> JwtConfig" where
  "rotation kid = \<lparr>PrivateKeyPEM = kid, PublicKeyPEM = kid, KID = kid, cfg_Issuer = this_issuer,
     cfg_Audience = audienceUser\<rparr>"

theorem published_keys_are_accepted_witness:
  "\<exists>k0 k act. NewKeys local_jwt (rotation ''k1'') = Inr k0 \<and>
     k = reloads local_jwt k0 [rotation ''k2'', rotation ''k3''] \<and> k_active k = Some act \<and>
     keyForToken k (rs256_header []) = Inr (ks_publicKey act)"
proof -
  obtain k0 where n: "NewKeys local_jwt (rotation ''k1'') = Inr k0"
    by (simp add: NewKeys_def parse_keys_def local_jwt_def rotation_def)
  show ?thesis using published_keys_are_accepted [OF n, of "[rotation ''k2'', rotation ''k3'']"] n by blast
qed

text \<open>C24: A token signed with the active key is accepted, with the claims that were signed, until it
  expires: before a rotation, after the rotation to another key ID, and after any number of
  reloads that fail in between.\<close>

theorem token_survives_rotation:
  assumes "jwt_complete lib" and "keys_ready k" and "k_active k = Some ks" and "ks_kid ks \<noteq> []"
    and "ks_publicKey ks = sk_Public (ks_privateKey ks)" and "to_valid (ks_kid ks) = ks_kid ks"
    and "gj_SignedString lib (ks_kid ks) c (ks_privateKey ks) = Inr tok"
    and "dates_valid (fst (env_now E (w_rt w))) c"
    and "\<forall>bad \<in> set bads. \<exists>e. parse_keys lib bad = Inl e"
    and "Keys_Reload lib k cfg = (None, k')" and "KID cfg \<noteq> ks_kid ks"
  shows "fst (exec (ParseClaims lib (reloads lib k bads) tok) E w) = Inr (valid_claims c) \<and>
    fst (exec (ParseClaims lib (reloads lib k' bads) tok) E w) = Inr (valid_claims c)"
proof -
  have bad: "reloads lib x bads = x" for x
    using assms(9) by (induction bads) (auto simp: Keys_Reload_def)
  have "usable_key k ks" "usable_key k' ks"
    using assms(3-6) Reload_keeps_key [OF assms(3,10,11)] by (auto simp: usable_key_def)
  moreover have "keys_ready k'" using Reload_ready [OF assms(2), of lib cfg] assms(10) by simp
  ultimately show ?thesis
    using ParseClaims_complete [OF assms(1) assms(2) _ assms(7,8)] ParseClaims_complete [OF assms(1) _ _ assms(7,8)]
    unfolding bad by blast
qed

theorem token_survives_rotation_witness:
  "fst (exec (ParseClaims local_jwt (snd (Keys_Reload local_jwt local_keys (rotation ''k2'')))
      (local_sign ''k1'' (refresh_claims this_issuer ''u'' audienceUser [] [] 60 [] 0 0 0 ''j'') (ks_privateKey local_keyset)))
     local_env (local_world Map.empty [] 5))
     = Inr (valid_claims (refresh_claims this_issuer ''u'' audienceUser [] [] 60 [] 0 0 0 ''j''))"
proof -
  let ?c = "refresh_claims this_issuer ''u'' audienceUser [] [] 60 [] 0 0 0 ''j''"
  have s: "gj_SignedString local_jwt (ks_kid local_keyset) ?c (ks_privateKey local_keyset)
      = Inr (local_sign ''k1'' ?c (ks_privateKey local_keyset))"
    by (simp add: local_jwt_def local_keyset_def)
  have d: "dates_valid (fst (env_now local_env (w_rt (local_world Map.empty [] 5)))) ?c"
    by (simp add: dates_valid_def refresh_claims_def to_seconds_def) (simp add: local_world_def)
  have r: "Keys_Reload local_jwt local_keys (rotation ''k2'')
      = (None, snd (Keys_Reload local_jwt local_keys (rotation ''k2'')))"
    by (rule prod_eqI) (simp_all add: Keys_Reload_def parse_keys_def rotation_def local_jwt_def)
  show ?thesis
    using token_survives_rotation [OF local_jwt_complete local_keys_ready _ _ _ _ s d _ r, of "[]"]
    by (simp add: local_keys_def local_keyset_def rotation_def to_valid_ascii)
qed

section \<open>Issuer and audience\<close>

text \<open>The check of issuer and audience on a token of one's own.\<close>

lemma own_token_validation:
  assumes "jwt_complete lib" and "jwt_sound lib" and "jwt_payload lib" and "keys_ready k" and "usable_key k ks"
    and "k_active k = Some act"
    and "gj_SignedString lib (ks_kid ks) (refresh_claims this_issuer sub aud azp fam ttl scopes t1 t2 t3 jti) (ks_privateKey ks)
      = Inr tok"
    and "dates_valid (fst (env_now E (w_rt w))) (refresh_claims this_issuer sub aud azp fam ttl scopes t1 t2 t3 jti)"
  shows "if ks_iss act = ''komodo-auth-api'' \<and> ks_aud act = to_valid aud \<and> ks_aud act \<noteq> []
    then fst (exec (ValidateAndParseClaims lib k tok) E w)
      = Inr (valid_claims (refresh_claims this_issuer sub aud azp fam ttl scopes t1 t2 t3 jti))
    else \<exists>e. fst (exec (ValidateAndParseClaims lib k tok) E w) = Inl e"
proof -
  let ?c = "refresh_claims this_issuer sub aud azp fam ttl scopes t1 t2 t3 jti"
  let ?o = "\<lparr>po_Issuer = Some (ks_iss act), po_Audience = Some (ks_aud act), po_ValidMethods = [''RS256'']\<rparr>"
  obtain now rt where n: "env_now E (w_rt w) = (now, rt)" by fastforce
  have c: "cl_Issuer (valid_claims ?c) = ''komodo-auth-api''" "cl_Audience (valid_claims ?c) = [to_valid aud]"
    by (simp_all add: valid_claims_def refresh_claims_def this_issuer_def to_valid_ascii)
  have ok: "gj_ParseWithClaims lib tok (keyForToken k) ?o now = Inr \<lparr>tk_Claims = valid_claims ?c, tk_Valid = True\<rparr>"
    if "ks_iss act = ''komodo-auth-api''" "ks_aud act = to_valid aud"
    using assms(1,7,8) keyForToken_usable [OF assms(4,5)] c n that unfolding jwt_complete_def by (auto simp: opts_valid_def)
  have bad: "\<exists>e. gj_ParseWithClaims lib tok (keyForToken k) ?o now = Inl e"
    if "ks_iss act \<noteq> ''komodo-auth-api'' \<or> ks_aud act \<noteq> to_valid aud"
  proof (cases "gj_ParseWithClaims lib tok (keyForToken k) ?o now")
    case (Inr t)
    then have "tk_Claims t = valid_claims ?c" using assms(3,7) unfolding jwt_payload_def by blast
    moreover have "opts_valid ?o (tk_Claims t)" using Inr assms(2) unfolding jwt_sound_def by blast
    ultimately show ?thesis using c that by (auto simp: opts_valid_def)
  qed simp
  show ?thesis
    using ok bad assms(6) n by (auto simp: ValidateAndParseClaims_def parseValidated_def)
qed

text \<open>C25: Which of its own tokens the service validates. Every token is issued under the name
  \<open>komodo-auth-api\<close>, whatever \<open>JWT_ISSUER\<close> says; one that is signed with a key in force and in date
  is accepted exactly when the configured issuer is that name and the one configured audience is
  the token's, and otherwise refused, by validation and by the authentication of routes alike.\<close>

theorem own_token_validates_iff:
  assumes "jwt_complete lib" and "jwt_sound lib" and "jwt_payload lib" and "keys_ready k" and "usable_key k ks"
    and "k_active k = Some act"
    and "gj_SignedString lib (ks_kid ks) (refresh_claims this_issuer sub aud azp fam ttl scopes t1 t2 t3 jti) (ks_privateKey ks)
      = Inr tok"
    and "dates_valid (fst (env_now E (w_rt w))) (refresh_claims this_issuer sub aud azp fam ttl scopes t1 t2 t3 jti)"
  shows "if ks_iss act = ''komodo-auth-api'' \<and> ks_aud act = to_valid aud \<and> ks_aud act \<noteq> []
    then fst (exec (ValidateAndParseClaims lib k tok) E w)
      = Inr (valid_claims (refresh_claims this_issuer sub aud azp fam ttl scopes t1 t2 t3 jti))
    else \<exists>e. fst (exec (ValidateAndParseClaims lib k tok) E w) = Inl e"
  using assms by (rule own_token_validation)

text \<open>A service token where the user audience is configured.\<close>

theorem own_token_validates_iff_witness:
  "\<exists>e. fst (exec (ValidateAndParseClaims local_jwt local_keys (local_sign ''k1''
      (refresh_claims this_issuer ''orders'' audienceService [] [] 60 [] 0 0 0 ''j'') (ks_privateKey local_keyset)))
     local_env (local_world Map.empty [] 5)) = Inl e"
proof -
  let ?c = "refresh_claims this_issuer ''orders'' audienceService [] [] 60 [] 0 0 0 ''j''"
  have s: "gj_SignedString local_jwt (ks_kid local_keyset) ?c (ks_privateKey local_keyset)
      = Inr (local_sign ''k1'' ?c (ks_privateKey local_keyset))"
    by (simp add: local_jwt_def local_keyset_def)
  have d: "dates_valid (fst (env_now local_env (w_rt (local_world Map.empty [] 5)))) ?c"
    by (simp add: dates_valid_def refresh_claims_def to_seconds_def) (simp add: local_world_def)
  have a: "k_active local_keys = Some local_keyset" "ks_aud local_keyset \<noteq> to_valid audienceService"
    by (simp_all add: local_keys_def local_keyset_def audienceService_def to_valid_ascii)
  show ?thesis
    using own_token_validates_iff [OF local_jwt_complete local_jwt_sound local_jwt_payload local_keys_ready local_keyset_usable
        a(1) s d] a(2) by simp
qed

section \<open>The published document\<close>

text \<open>\<open>big.Int.Bytes\<close> is read back by \<open>SetBytes\<close>.\<close>

definition big_SetBytes :: "string \<Rightarrow> nat" where
  "big_SetBytes bs = fold (\<lambda>c n. n * 256 + of_char c) bs 0"

lemma big_roundtrip [simp]: "big_SetBytes (big_Bytes n) = n"
proof (induction n rule: big_Bytes.induct)
  case (1 n)
  show ?case
  proof (cases "n = 0")
    case False
    have "big_SetBytes (xs @ [c]) = big_SetBytes xs * 256 + of_char c" for xs c
      by (simp add: big_SetBytes_def)
    then show ?thesis using 1 [OF False] False
      by (subst big_Bytes.simps) (simp add: of_char_of mult.commute)
  qed (simp add: big_SetBytes_def big_Bytes.simps)
qed

text \<open>What a client of the document reads: the numbers of a key.\<close>

definition read_jwk :: "JWK \<Rightarrow> VerificationKey res" where
  "read_jwk j =
     and_then (base64_RawURL_DecodeString (jk_N j)) (\<lambda>n.
     and_then (base64_RawURL_DecodeString (jk_E j)) (\<lambda>e.
       Inr \<lparr>vk_Kid = jk_Kid j, vk_Key = \<lparr>pk_N = big_SetBytes n, pk_E = big_SetBytes e\<rparr>\<rparr>))"

lemma read_jwk_of [simp]: "read_jwk (jwk_of vk) = Inr vk"
  by (cases vk, cases "vk_Key vk") (simp add: read_jwk_def jwk_of_def RawURL_roundtrip)

text \<open>The cache holds a document that some key set with the recorded key IDs was published with.\<close>

definition jwks_text :: "Keys \<Rightarrow> string" where
  "jwks_text k = print_value (JWKS_to_json (buildJWKS k))"

definition jwks_inv :: "jwksCache option \<Rightarrow> bool" where
  "jwks_inv c \<longleftrightarrow> (case c of None \<Rightarrow> True
     | Some (kids, body) \<Rightarrow> \<exists>k. kids = kidsOf (VerificationKeys k) \<and> body = jwks_text k)"

lemma kidsEqual_iff [simp]: "kidsEqual as bs \<longleftrightarrow> as = bs"
  by (induction as bs rule: kidsEqual.induct) auto

lemma JWKSHandler_exec:
  assumes "sv_JWT s = Some k"
  shows "exec (JWKSHandler s req) E w =
    (case w_jwks w of
       Some (kids, body) \<Rightarrow>
         if kids = kidsOf (VerificationKeys k)
         then (\<lparr>rs_Headers = jwks_headers, rs_Outcome = Reply 200 (RawBody body)\<rparr>, w)
         else (\<lparr>rs_Headers = jwks_headers, rs_Outcome = Reply 200 (RawBody (jwks_text k))\<rparr>,
               w\<lparr>w_jwks := Some (kidsOf (VerificationKeys k), jwks_text k)\<rparr>)
     | None \<Rightarrow> (\<lparr>rs_Headers = jwks_headers, rs_Outcome = Reply 200 (RawBody (jwks_text k))\<rparr>,
               w\<lparr>w_jwks := Some (kidsOf (VerificationKeys k), jwks_text k)\<rparr>))"
  using assms by (auto simp: JWKSHandler_def cachedJWKSBody_def Let_def exec_call jwks_text_def split: option.split prod.split)

text \<open>The JWKS endpoint serves the document of a key set with the key IDs that are current, and
  keeps the cache so; whenever the current IDs are not the cached ones (at the start, and after
  a rotation), the document is the one of the current keys. Reading the document's entries
  gives back the keys, modulus and exponent included.\<close>

theorem jwks_document_current:
  assumes "sv_JWT s = Some k" and "jwks_inv (w_jwks w)"
  shows "\<exists>k' w'. exec (JWKSHandler s req) E w =
      (\<lparr>rs_Headers = jwks_headers, rs_Outcome = Reply 200 (RawBody (jwks_text k'))\<rparr>, w') \<and>
    kidsOf (VerificationKeys k') = kidsOf (VerificationKeys k) \<and> jwks_inv (w_jwks w') \<and>
    ((\<forall>body. w_jwks w \<noteq> Some (kidsOf (VerificationKeys k), body)) \<longrightarrow> k' = k) \<and>
    map read_jwk (buildJWKS k') = map Inr (VerificationKeys k')"
proof -
  have m: "map read_jwk (buildJWKS x) = map Inr (VerificationKeys x)" for x
    by (simp add: buildJWKS_def)
  show ?thesis
  proof (cases "\<exists>body. w_jwks w = Some (kidsOf (VerificationKeys k), body)")
    case True
    then obtain body k' where "w_jwks w = Some (kidsOf (VerificationKeys k), body)"
      "kidsOf (VerificationKeys k) = kidsOf (VerificationKeys k')" "body = jwks_text k'"
      using assms(2) by (auto simp: jwks_inv_def)
    then show ?thesis using assms m by (auto simp: JWKSHandler_exec intro!: exI [of _ k'])
  next
    case False
    have inv: "jwks_inv (Some (kidsOf (VerificationKeys k), jwks_text k))" by (auto simp: jwks_inv_def)
    show ?thesis
      using False assms m inv by (cases "w_jwks w") (auto simp: JWKSHandler_exec intro!: exI [of _ k])
  qed
qed

theorem jwks_document_current_witness:
  "\<exists>w'. exec (JWKSHandler local_service (local_request JNull)) local_env (local_world Map.empty [] 5) =
     (\<lparr>rs_Headers = jwks_headers, rs_Outcome = Reply 200 (RawBody (jwks_text local_keys))\<rparr>, w')"
  using jwks_document_current [of local_service local_keys "local_world Map.empty [] 5"]
  by (auto simp: jwks_inv_def local_world_def)

text \<open>The cache is keyed by the key IDs alone: once a document is cached, a reload that replaces the
  key but keeps its ID changes what tokens are checked with, not what is served.\<close>

theorem jwks_stale_for_same_kid:
  assumes "sv_JWT s = Some k" and "w_jwks w = Some (kidsOf (VerificationKeys k), jwks_text k)"
    and "k_active k = Some act" and "Keys_Reload lib k cfg = (None, k')" and "KID cfg = ks_kid act"
  shows "\<exists>w'. exec (JWKSHandler (s\<lparr>sv_JWT := Some k'\<rparr>) req) E w =
      (\<lparr>rs_Headers = jwks_headers, rs_Outcome = Reply 200 (RawBody (jwks_text k))\<rparr>, w') \<and>
    (\<exists>new. parse_keys lib cfg = Inr new \<and> keyForToken k' (rs256_header (KID cfg)) = Inr (ks_publicKey new))"
proof -
  obtain new where new: "parse_keys lib cfg = Inr new" "k' = k\<lparr>k_active := Some new\<rparr>" "ks_kid new = KID cfg"
    using assms(3-5) by (auto simp: Keys_Reload_def Let_def parse_keys_def split: sum.splits if_splits)
  then have "kidsOf (VerificationKeys k') = kidsOf (VerificationKeys k)"
    using assms(3,5) by (simp add: kidsOf_def VerificationKeys_def)
  then have "exec (JWKSHandler (s\<lparr>sv_JWT := Some k'\<rparr>) req) E w =
      (\<lparr>rs_Headers = jwks_headers, rs_Outcome = Reply 200 (RawBody (jwks_text k))\<rparr>, w)"
    using assms(2) by (subst JWKSHandler_exec [where k = k']) simp_all
  moreover have "keyForToken k' (rs256_header (KID cfg)) = Inr (ks_publicKey new)"
    using new by (simp add: keyForToken_def rs256_header_def)
  ultimately show ?thesis using new(1) by blast
qed

theorem jwks_stale_for_same_kid_witness:
  "\<exists>w'. exec (JWKSHandler (local_service\<lparr>sv_JWT := Some (snd (Keys_Reload local_jwt local_keys (rotation ''k1'')))\<rparr>)
      (local_request JNull)) local_env
      ((local_world Map.empty [] 5)\<lparr>w_jwks := Some (kidsOf (VerificationKeys local_keys), jwks_text local_keys)\<rparr>) =
     (\<lparr>rs_Headers = jwks_headers, rs_Outcome = Reply 200 (RawBody (jwks_text local_keys))\<rparr>, w') \<and>
   local_pem ''k1'' \<noteq> ks_publicKey local_keyset"
proof -
  have r: "Keys_Reload local_jwt local_keys (rotation ''k1'')
      = (None, snd (Keys_Reload local_jwt local_keys (rotation ''k1'')))"
    by (rule prod_eqI) (simp_all add: Keys_Reload_def parse_keys_def rotation_def local_jwt_def)
  have k: "k_active local_keys = Some local_keyset" "KID (rotation ''k1'') = ks_kid local_keyset"
    by (simp_all add: local_keys_def local_keyset_def rotation_def)
  show ?thesis
    using jwks_stale_for_same_kid [OF _ _ k(1) r k(2), of local_service
        "(local_world Map.empty [] 5)\<lparr>w_jwks := Some (kidsOf (VerificationKeys local_keys), jwks_text local_keys)\<rparr>"]
    by (auto simp: local_keyset_def local_pem_def)
qed

end
