(* ===== verification/ClientProps.thy ===== *)
theory ClientProps
  imports InfoEndpoints LocalOAuth
begin

text \<open>
  Properties of the client registry and of the endpoints that show it: who authenticates, which
  document is in force after reloads, that a document is read as it was written, and that
  secrets stay inside.
\<close>

section \<open>Authentication\<close>

text \<open>C27: A client authenticates exactly when it is registered and the SHA-256 of the presented secret is
  the stored digest. What is handed out, on success, by a plain lookup or by a listing, is the
  record without the digest; a registry that is missing or not loaded has no clients.\<close>

theorem registry_authentication:
  "ValidateAndGet r cid secret =
     (case registered r cid of
        Some rec \<Rightarrow> if cr_SecretHash rec = hex_EncodeToString (sha256_Sum256 secret)
                   then (rec\<lparr>cr_SecretHash := []\<rparr>, True) else (empty_record, False)
      | None \<Rightarrow> (empty_record, False)) \<and>
   Registry_Get r cid =
     (case registered r cid of Some rec \<Rightarrow> (rec\<lparr>cr_SecretHash := []\<rparr>, True) | None \<Rightarrow> (empty_record, False)) \<and>
   Registry_List r cid = map_option (\<lambda>rec. rec\<lparr>cr_SecretHash := []\<rparr>) (registered r cid) \<and>
   registered None cid = None \<and> registered (Some \<lparr>reg_ptr = None\<rparr>) cid = None"
  by (auto simp: ValidateAndGet_value Registry_Get_value Registry_List_value sha256_hex_def redact_def
      registered_def split: option.split)

section \<open>Reloads\<close>

text \<open>A document as it is written: the clients in order.\<close>

definition record_json :: "ClientRecord \<Rightarrow> json" where
  "record_json r = JObj [(''name'', JStr (cr_Name r)), (''secret_hash'', JStr (cr_SecretHash r)),
     (''allowed_scopes'', JArr (map JStr (cr_AllowedScopes r))),
     (''allowed_audiences'', JArr (map JStr (cr_AllowedAudiences r))),
     (''allowed_redirect_uris'', JArr (map JStr (cr_AllowedRedirectURIs r)))]"

definition document :: "(string \<times> ClientRecord) list \<Rightarrow> string" where
  "document cs = print_value (JObj (map (\<lambda>(cid, r). (cid, record_json r)) cs))"

definition utf8_record :: "ClientRecord \<Rightarrow> bool" where
  "utf8_record r \<longleftrightarrow> (\<forall>t \<in> set (cr_Name r # cr_SecretHash r # cr_AllowedScopes r @ cr_AllowedAudiences r @
     cr_AllowedRedirectURIs r). to_valid t = t)"

lemma record_read: "ClientRecord_of_json (record_json r) = Inr r"
  by (simp add: ClientRecord_of_json_def record_json_def struct_value_def field_string_def field_strings_def
      members_of_def fold_name_lower)

lemma record_ok: "utf8_record r \<Longrightarrow> json_ok 9 (record_json r)"
  by (simp add: record_json_def utf8_record_def list_all_iff to_valid_ascii)

lemma json_ok_mono: "json_ok d v \<Longrightarrow> d \<le> d' \<Longrightarrow> json_ok d' v"
  by (induction d v arbitrary: d' rule: json_ok.induct) (auto simp: list_all_iff)

lemma clients_read:
  "clients_of_members m (map (\<lambda>(cid, r). (cid, record_json r)) cs) = Inr (m ++ map_of (rev cs))"
proof (induction cs arbitrary: m)
  case (Cons x cs)
  then show ?case by (cases x) (simp add: record_read map_add_upd_left [symmetric] map_add_def fun_eq_iff split: option.split)
qed simp

lemma document_parses:
  assumes "\<forall>(cid, r) \<in> set cs. to_valid cid = cid \<and> utf8_record r"
  shows "document cs \<noteq> [] \<and> and_then (Unmarshal (document cs)) clients_of_json = Inr (map_of (rev cs))"
proof -
  have "json_ok maxNestingDepth (record_json r)" if "utf8_record r" for r
    using json_ok_mono [OF record_ok [OF that]] by (simp add: maxNestingDepth_def)
  then have "json_ok maxNestingDepth (JObj (map (\<lambda>(cid, r). (cid, record_json r)) cs))"
    using assms record_ok json_ok_mono [of 9 _ "maxNestingDepth - 1"]
    by (fastforce simp: list_all_iff maxNestingDepth_def)
  then show ?thesis by (simp add: document_def Unmarshal_print clients_of_json_def clients_read del: print_value.simps)
      (simp add: document_def)
qed

text \<open>The documents handed to a registry one after the other.\<close>

definition reload_all :: "Registry \<Rightarrow> string list \<Rightarrow> Registry" where
  "reload_all r raws = fold (\<lambda>raw r. snd (Registry_Reload r raw)) raws r"

definition parses :: "string \<Rightarrow> clients_map option" where
  "parses raw = (if raw = [] then None
     else case and_then (Unmarshal raw) clients_of_json of Inl e \<Rightarrow> None | Inr m \<Rightarrow> Some m)"

lemma Reload_parses:
  "registered (Some (snd (Registry_Reload r raw))) =
     (case parses raw of None \<Rightarrow> registered (Some r) | Some m \<Rightarrow> m)"
  "fst (Registry_Reload r raw) = None \<longleftrightarrow> parses raw \<noteq> None"
  by (auto simp: Registry_Reload_def parses_def registered_def split: sum.split)

lemma reload_all_last_good:
  "registered (Some (reload_all r raws)) =
     (case filter (\<lambda>raw. parses raw \<noteq> None) (rev raws) of
        [] \<Rightarrow> registered (Some r) | raw # _ \<Rightarrow> the (parses raw))"
proof (induction raws rule: rev_induct)
  case (snoc raw raws)
  then show ?case
    by (auto simp: reload_all_def Reload_parses(1) split: option.split)
qed (simp add: reload_all_def)

text \<open>A document that lists clients (in UTF-8, each ID once) is read as it was written: the registry
  then has exactly these clients, with all their fields.\<close>

theorem registry_roundtrip:
  assumes "distinct (map fst cs)" and "\<forall>(cid, r) \<in> set cs. to_valid cid = cid \<and> utf8_record r"
  shows "\<exists>reg. NewRegistry (document cs) = Inr reg \<and> registered (Some reg) = map_of cs"
proof -
  have "map_of (rev cs) = map_of cs"
    using assms(1) by (intro map_of_inject_set [THEN iffD2]) (simp_all add: rev_map [symmetric])
  then show ?thesis
    using document_parses [OF assms(2)] by (simp add: NewRegistry_def Registry_Reload_def registered_def)
qed

theorem registry_roundtrip_witness:
  "\<exists>reg. NewRegistry (document [(''orders'', local_record\<lparr>cr_SecretHash := ''abc''\<rparr>)]) = Inr reg \<and>
     registered (Some reg) ''orders'' = Some (local_record\<lparr>cr_SecretHash := ''abc''\<rparr>)"
  using registry_roundtrip [of "[(''orders'', local_record\<lparr>cr_SecretHash := ''abc''\<rparr>)]"]
  by (auto simp: utf8_record_def local_record_def to_valid_ascii)

section \<open>Secrets stay inside\<close>

text \<open>What the client endpoints answer does not depend on the digests: two registries that differ
  only in the digests of their clients get the same answers from both endpoints, and neither
  endpoint touches any state.\<close>

theorem client_endpoints_hide_secrets:
  assumes "\<And>cid. map_option redact (registered (sv_ClientRegistry s) cid)
      = map_option redact (registered (sv_ClientRegistry s') cid)"
  shows "fst (exec (GetClientHandler s req) E w) = fst (exec (GetClientHandler s' req) E w) \<and>
    fst (exec (ListClientsHandler s req) E w) = fst (exec (ListClientsHandler s' req) E w) \<and>
    snd (exec (GetClientHandler s req) E w) = w \<and> snd (exec (ListClientsHandler s req) E w) = w"
proof -
  have "Registry_Get (sv_ClientRegistry s) cid = Registry_Get (sv_ClientRegistry s') cid" for cid
    using assms [of cid]
    by (cases "registered (sv_ClientRegistry s) cid"; cases "registered (sv_ClientRegistry s') cid")
      (auto simp: Registry_Get_value)
  moreover have "Registry_List (sv_ClientRegistry s) = Registry_List (sv_ClientRegistry s')"
    using assms by (auto simp: Registry_List_value)
  ultimately show ?thesis
    by (auto simp: GetClientHandler_def ListClientsHandler_def Let_def split: prod.split)
qed

definition other_secret :: Service where
  "other_secret = local_service\<lparr>sv_ClientRegistry :=
     Some \<lparr>reg_ptr = Some [''orders'' \<mapsto> local_record\<lparr>cr_SecretHash := ''other''\<rparr>]\<rparr>\<rparr>"

theorem client_endpoints_hide_secrets_witness:
  "fst (exec (GetClientHandler local_service ((local_request JNull)\<lparr>in_PathID := ''orders''\<rparr>))
      local_env (local_world Map.empty [] 5)) =
   fst (exec (GetClientHandler other_secret ((local_request JNull)\<lparr>in_PathID := ''orders''\<rparr>))
      local_env (local_world Map.empty [] 5))"
proof -
  have "map_option redact (registered (sv_ClientRegistry local_service) cid)
      = map_option redact (registered (sv_ClientRegistry other_secret) cid)" for cid
    by (simp add: other_secret_def) (simp add: registered_def redact_def)
  from client_endpoints_hide_secrets [OF this] show ?thesis by blast
qed

end
