(* ===== verification/PasskeyClient.thy ===== *)
theory PasskeyClient
  imports Clients
begin

text \<open>
  The passkey credentials that the customer API keeps (\<open>internal/clients/user.go\<close>): the
  descriptor as it travels in JSON, and the calls that list, create and update it. A
  \<open>time.Time\<close> is kept as its RFC 3339 text, in the form in which it is written.
\<close>

section \<open>Times\<close>

text \<open>The civil date of a day counted from 1970-01-01, in UTC.\<close>

definition civil_date :: "int \<Rightarrow> int \<times> int \<times> int" where
  "civil_date days =
     (let z = days + 719468; era = z div 146097; doe = z - era * 146097;
          yoe = (doe - doe div 1460 + doe div 36524 - doe div 146096) div 365;
          doy = doe - (365 * yoe + yoe div 4 - yoe div 100);
          mp = (5 * doy + 2) div 153;
          d = doy - (153 * mp + 2) div 5 + 1;
          m = (if mp < 10 then mp + 3 else mp - 9);
          y = yoe + era * 400
      in (if m \<le> 2 then y + 1 else y, m, d))"

definition padded :: "nat \<Rightarrow> int \<Rightarrow> string" where
  "padded k n = (let s = format_nat (nat n) in replicate (k - length s) (CHR ''0'') @ s)"

text \<open>A fraction without its trailing zeros, with the dot unless nothing is left.\<close>

definition frac_text :: "string \<Rightarrow> string" where
  "frac_text ds =
     (let s = rev (dropWhile (\<lambda>c. c = CHR ''0'') (rev ds)) in if s = [] then [] else CHR ''.'' # s)"

text \<open>\<open>Time.MarshalJSON\<close> of a UTC time (nanoseconds since 1970); it fails outside years 0 to 9999.\<close>

definition time_text :: "int \<Rightarrow> string res" where
  "time_text ns =
     (let secs = ns div 1000000000; frac = ns mod 1000000000; sod = secs mod 86400 in
      case civil_date (secs div 86400) of (y, m, d) \<Rightarrow>
        if y < 0 \<or> 9999 < y then Inl (Errorf ''Time.MarshalJSON: year outside of range [0,9999]'')
        else Inr (padded 4 y @ ''-'' @ padded 2 m @ ''-'' @ padded 2 d @ ''T'' @
          padded 2 (sod div 3600) @ '':'' @ padded 2 (sod mod 3600 div 60) @ '':'' @ padded 2 (sod mod 60) @
          frac_text (padded 9 frac) @ ''Z''))"

text \<open>A text that was read, as it is written again: nanoseconds, no trailing zeros, \<open>Z\<close> for a zero offset.\<close>

definition rewritten_time :: "string \<Rightarrow> string" where
  "rewritten_time s =
     (let rest = drop 19 s;
          (frac, zone) = (if rest \<noteq> [] \<and> hd rest = CHR ''.''
            then (takeWhile (\<lambda>c. char_digit c \<noteq> None) (tl rest), dropWhile (\<lambda>c. char_digit c \<noteq> None) (tl rest))
            else ([], rest))
      in take 19 s @ frac_text (take 9 frac) @
         (if zone = ''+00:00'' \<or> zone = ''-00:00'' then ''Z'' else zone))"

section \<open>The descriptor\<close>

record PasskeyCredentialDescriptor =
  pc_CredentialId :: string
  pc_PublicKey :: string
  pc_SignCount :: nat
  pc_Transports :: "string list"
  pc_Aaguid :: string
  pc_BackupEligible :: bool
  pc_BackupState :: bool
  pc_CreatedAt :: "string option"
  pc_LastUsedAt :: "string option"

definition time_member :: "string \<Rightarrow> string option \<Rightarrow> (string \<times> json) list" where
  "time_member f t = (case t of None \<Rightarrow> [] | Some s \<Rightarrow> [(f, JStr s)])"

definition Descriptor_to_json :: "PasskeyCredentialDescriptor \<Rightarrow> json" where
  "Descriptor_to_json d = JObj (
     [(''credential_id'', JStr (pc_CredentialId d)), (''public_key'', JStr (pc_PublicKey d)),
      (''sign_count'', JNum (strconv_Itoa (int (pc_SignCount d))))]
     @ (if pc_Transports d = [] then [] else [(''transports'', JArr (map JStr (pc_Transports d)))])
     @ omit_empty ''aaguid'' (pc_Aaguid d)
     @ [(''backup_eligible'', JBool (pc_BackupEligible d)), (''backup_state'', JBool (pc_BackupState d))]
     @ time_member ''created_at'' (pc_CreatedAt d) @ time_member ''last_used_at'' (pc_LastUsedAt d))"

text \<open>A field of type \<open>uint32\<close>: decimal digits below \<open>2 ^ 32\<close>.\<close>

fun into_uint32 :: "nat \<Rightarrow> json list \<Rightarrow> nat res" where
  "into_uint32 acc [] = Inr acc"
| "into_uint32 acc (JNum n # vs) =
     (case parse_digits 0 n of
        None \<Rightarrow> Inl type_error
      | Some i \<Rightarrow> if i < 2 ^ 32 then into_uint32 i vs else Inl type_error)"
| "into_uint32 acc (JNull # vs) = into_uint32 acc vs"
| "into_uint32 acc (v # vs) = Inl type_error"

definition field_uint32 :: "string \<Rightarrow> json \<Rightarrow> nat res" where
  "field_uint32 f v = into_uint32 0 (members_of f v)"

definition Descriptor_of_json :: "json \<Rightarrow> PasskeyCredentialDescriptor res" where
  "Descriptor_of_json v0 =
     and_then (struct_value v0) (\<lambda>v.
     and_then (field_string ''credential_id'' v) (\<lambda>i.
     and_then (field_string ''public_key'' v) (\<lambda>p.
     and_then (field_uint32 ''sign_count'' v) (\<lambda>n.
     and_then (field_strings ''transports'' v) (\<lambda>t.
     and_then (field_string ''aaguid'' v) (\<lambda>a.
     and_then (field_bool ''backup_eligible'' v) (\<lambda>e.
     and_then (field_bool ''backup_state'' v) (\<lambda>b.
     and_then (field_time_ptr ''created_at'' v) (\<lambda>c.
     and_then (field_time_ptr ''last_used_at'' v) (\<lambda>l.
       Inr \<lparr>pc_CredentialId = i, pc_PublicKey = p, pc_SignCount = n, pc_Transports = t, pc_Aaguid = a,
            pc_BackupEligible = e, pc_BackupState = b, pc_CreatedAt = map_option rewritten_time c,
            pc_LastUsedAt = map_option rewritten_time l\<rparr>))))))))))"

text \<open>
  The list in the answer: \<open>credentials\<close>, an array of descriptors (the last member of the name
  counts; in Go a repeated one is decoded over the elements of the one before).
\<close>

fun descriptors :: "json list \<Rightarrow> PasskeyCredentialDescriptor list res" where
  "descriptors [] = Inr []"
| "descriptors (v # vs) = and_then (Descriptor_of_json v) (\<lambda>d. map_sum id ((#) d) (descriptors vs))"

fun into_descriptors ::
  "PasskeyCredentialDescriptor list \<Rightarrow> json list \<Rightarrow> PasskeyCredentialDescriptor list res" where
  "into_descriptors acc [] = Inr acc"
| "into_descriptors acc (JArr es # vs) =
     (case descriptors es of Inl e \<Rightarrow> Inl e | Inr ds \<Rightarrow> into_descriptors ds vs)"
| "into_descriptors acc (JNull # vs) = into_descriptors [] vs"
| "into_descriptors acc (v # vs) = Inl type_error"

definition credential_list_of_json :: "json \<Rightarrow> PasskeyCredentialDescriptor list res" where
  "credential_list_of_json v0 =
     and_then (struct_value v0) (\<lambda>v. into_descriptors [] (members_of ''credentials'' v))"

section \<open>The calls\<close>

definition pathUserPasskeys :: "string \<Rightarrow> string" where
  "pathUserPasskeys userID = ''/v1/users/'' @ userID @ ''/passkeys''"

definition pathUserPasskey :: "string \<Rightarrow> string \<Rightarrow> string" where
  "pathUserPasskey userID cid = ''/v1/users/'' @ userID @ ''/passkeys/'' @ cid"

definition ListPasskeyCredentials ::
  "HttpClient \<Rightarrow> string \<Rightarrow> string \<Rightarrow> PasskeyCredentialDescriptor list res proc" where
  "ListPasskeyCredentials c userID bearerToken =
     call (authorized_get ''list passkey credentials'' (hc_CustomerBaseURL c @ pathUserPasskeys userID) bearerToken)
       (\<lambda>r. case r of
          Inl err \<Rightarrow> Ret (Inl err)
        | Inr raw \<Rightarrow>
            (case and_then (Unmarshal raw) credential_list_of_json of
               Inl err \<Rightarrow> Ret (Inl (Wrapf ''failed to unmarshal list passkeys response'' err))
             | Inr result \<Rightarrow> Ret (Inr result)))"

text \<open>A POST or PATCH of a descriptor; any 2xx answer that can be read is a success.\<close>

definition send_descriptor ::
  "string \<Rightarrow> string \<Rightarrow> string \<Rightarrow> string \<Rightarrow> PasskeyCredentialDescriptor \<Rightarrow> goerror option proc" where
  "send_descriptor what meth url bearerToken cred =
     (if \<not> url_parses url then Ret (Some (Wrapf (''failed to build '' @ what) (Errorf ''parse error'')))
      else HttpDo \<lparr>rq_method = meth, rq_url = url,
          rq_headers = [(''Authorization'', ''Bearer '' @ bearerToken), (''Content-Type'', ''application/json''),
            (''Accept'', ''application/json'')],
          rq_body = print_value (Descriptor_to_json cred)\<rparr> (\<lambda>r.
        case r of
          Inl err \<Rightarrow> Ret (Some (Wrapf (''failed to '' @ what) err))
        | Inr resp \<Rightarrow>
            (case rp_body resp of
               Inl err \<Rightarrow> Ret (Some (Wrapf (''failed to read '' @ what @ '' response'') err))
             | Inr raw \<Rightarrow>
                 if \<not> success_status (rp_status resp) then Ret (Some (HTTPError (rp_status resp)))
                 else Ret None)))"

definition CreatePasskeyCredential ::
  "HttpClient \<Rightarrow> string \<Rightarrow> string \<Rightarrow> PasskeyCredentialDescriptor \<Rightarrow> goerror option proc" where
  "CreatePasskeyCredential c userID bearerToken cred =
     send_descriptor ''create passkey credential'' ''POST'' (hc_CustomerBaseURL c @ pathUserPasskeys userID) bearerToken
       (cred\<lparr>pc_CreatedAt := None, pc_LastUsedAt := None\<rparr>)"

definition UpdatePasskeyCredential ::
  "HttpClient \<Rightarrow> string \<Rightarrow> string \<Rightarrow> PasskeyCredentialDescriptor \<Rightarrow> goerror option proc" where
  "UpdatePasskeyCredential c userID bearerToken cred =
     send_descriptor ''update passkey credential'' ''PATCH''
       (hc_CustomerBaseURL c @ pathUserPasskey userID (pc_CredentialId cred)) bearerToken cred"

section \<open>A descriptor comes back\<close>

text \<open>Descriptors as the service makes them: ASCII fields, a 32-bit counter, times as they are written.\<close>

definition descriptor_ok :: "PasskeyCredentialDescriptor \<Rightarrow> bool" where
  "descriptor_ok d \<longleftrightarrow> to_valid (pc_CredentialId d) = pc_CredentialId d \<and> to_valid (pc_PublicKey d) = pc_PublicKey d \<and>
     to_valid (pc_Aaguid d) = pc_Aaguid d \<and> list_all (\<lambda>t. to_valid t = t) (pc_Transports d) \<and> pc_SignCount d < 2 ^ 32 \<and>
     (\<forall>t. pc_CreatedAt d = Some t \<or> pc_LastUsedAt d = Some t \<longrightarrow> to_valid t = t \<and> rfc3339 t \<and> rewritten_time t = t)"

lemma Itoa_digits: "parse_digits 0 (strconv_Itoa (int n)) = Some n"
  by (simp add: strconv_Itoa_def parse_format_nat)

lemma Descriptor_read:
  assumes "descriptor_ok d"
  shows "Descriptor_of_json (Descriptor_to_json d) = Inr d"
proof -
  have n: "pc_SignCount d < 4294967296" using assms by (simp add: descriptor_ok_def)
  show ?thesis using assms
    by (cases "pc_CreatedAt d"; cases "pc_LastUsedAt d"; cases "pc_Transports d = []"; cases "pc_Aaguid d = []")
      (auto simp: Descriptor_of_json_def Descriptor_to_json_def struct_value_def field_string_def field_strings_def
        field_bool_def field_uint32_def field_time_ptr_def members_of_def omit_empty_def time_member_def fold_name_lower n
        Itoa_digits descriptor_ok_def)
qed

end
