(* ===== verification/WebAuthnStore.thy ===== *)
theory WebAuthnStore
  imports CacheClient GoJson
begin

text \<open>
  The WebAuthn ceremonies' state: the relying party (\<open>internal/webauthn/webauthn.go\<close>) and the
  session store (\<open>internal/db/webauthn.go\<close>). The WebAuthn library is not in the repository: its
  functions are the fields of \<open>webauthn_lib\<close>, over its type \<open>'s\<close> of session data. What it draws
  from the random source and reads from the clock is passed to it.
\<close>

section \<open>The library's data\<close>

text \<open>\<open>webauthn.Credential\<close>, as far as the program sets or reads it.\<close>

record Credential =
  wc_ID :: string
  wc_PublicKey :: string
  wc_Transport :: "string list"
  wc_BackupEligible :: bool
  wc_BackupState :: bool
  wc_AAGUID :: string
  wc_SignCount :: nat
  wc_CloneWarning :: bool

record CredentialDescriptor =
  wd_Type :: string
  wd_CredentialID :: string
  wd_Transport :: "string list"

text \<open>\<open>RegistrationUser\<close>, the user of both ceremonies; its methods are the fields.\<close>

record RegistrationUser =
  ru_ID :: string
  ru_Name :: string
  ru_DisplayName :: string
  ru_Credentials :: "Credential list"

text \<open>The options of a ceremony; the library's constants are given by their names.\<close>

record registration_options =
  ro_Exclusions :: "CredentialDescriptor list"
  ro_ResidentKey :: string
  ro_UserVerification :: string
  ro_Conveyance :: string
  ro_Parameters :: "(string \<times> string) list"

record 's webauthn_lib =
  wl_entropy :: nat
  wl_Challenge :: "'s \<Rightarrow> string"
  wl_session_to_json :: "'s \<Rightarrow> json res"
  wl_session_of_json :: "json \<Rightarrow> 's res"
  wl_BeginRegistration :: "RegistrationUser \<Rightarrow> registration_options \<Rightarrow> int \<Rightarrow> string \<Rightarrow> (json \<times> 's) res"
  wl_FinishRegistration :: "RegistrationUser \<Rightarrow> 's \<Rightarrow> string \<Rightarrow> int \<Rightarrow> Credential res"
  wl_BeginLogin :: "RegistrationUser \<Rightarrow> string \<Rightarrow> int \<Rightarrow> string \<Rightarrow> (json \<times> 's) res"
  wl_FinishLogin :: "RegistrationUser \<Rightarrow> 's \<Rightarrow> string \<Rightarrow> int \<Rightarrow> Credential res"
  wl_ParseAssertion :: "string \<Rightarrow> (string \<times> nat) res"

section \<open>The relying party\<close>

definition RPDisplayName :: string where
  "RPDisplayName = ''Komodo''"

record rp_config =
  rp_RPID :: string
  rp_RPDisplayName :: string
  rp_RPOrigins :: "string list"
  rp_AttestationPreference :: string
  rp_ResidentKey :: string
  rp_UserVerification :: string

text \<open>The configured origins: the comma-separated pieces, trimmed, without the empty ones.\<close>

definition rp_origins :: "string \<Rightarrow> string list" where
  "rp_origins origins = filter (\<lambda>x. x \<noteq> []) (map strings_TrimSpace (strings_Split origins (CHR '','')))"

definition WebAuthn_New :: "(rp_config \<Rightarrow> 'w res) \<Rightarrow> string \<Rightarrow> string \<Rightarrow> 'w res" where
  "WebAuthn_New lib_New rpid origins =
     (if rpid = [] then Inl (Errorf ''failed to configure webauthn relying party: missing RPID'')
      else if rp_origins origins = []
      then Inl (Errorf ''failed to configure webauthn relying party: missing origins'')
      else case lib_New \<lparr>rp_RPID = rpid, rp_RPDisplayName = RPDisplayName, rp_RPOrigins = rp_origins origins,
          rp_AttestationPreference = ''PreferNoAttestation'', rp_ResidentKey = ''ResidentKeyRequirementPreferred'',
          rp_UserVerification = ''VerificationRequired''\<rparr> of
        Inl err \<Rightarrow> Inl (Wrapf ''failed to configure webauthn relying party'' err)
      | Inr wa \<Rightarrow> Inr wa)"

section \<open>The session store\<close>

definition ErrWebAuthnSessionNotFound :: goerror where
  "ErrWebAuthnSessionNotFound = Sentinel ''ErrWebAuthnSessionNotFound''"

definition webauthnRegSessionKeyPrefix :: string where "webauthnRegSessionKeyPrefix = ''webauthn:reg:''"
definition webauthnRegSessionTTLSec :: int where "webauthnRegSessionTTLSec = 300"
definition webauthnLoginSessionKeyPrefix :: string where "webauthnLoginSessionKeyPrefix = ''webauthn:login:''"
definition webauthnLoginSessionTTLSec :: int where "webauthnLoginSessionTTLSec = 300"

record 's WebAuthnLoginSession =
  wls_SessionData :: "'s option"
  wls_UserID :: string
  wls_Email :: string
  wls_ClientID :: string

definition LoginSession_to_json :: "'s webauthn_lib \<Rightarrow> 's WebAuthnLoginSession \<Rightarrow> json res" where
  "LoginSession_to_json lib s =
     map_sum id (\<lambda>sd. JObj [(''session_data'', sd), (''user_id'', JStr (wls_UserID s)),
       (''email'', JStr (wls_Email s)), (''client_id'', JStr (wls_ClientID s))])
     (case wls_SessionData s of None \<Rightarrow> Inr JNull | Some sd \<Rightarrow> wl_session_to_json lib sd)"

text \<open>The field of pointer type: \<open>null\<close> makes it nil.\<close>

fun into_session :: "'s webauthn_lib \<Rightarrow> 's option \<Rightarrow> json list \<Rightarrow> 's option res" where
  "into_session lib acc [] = Inr acc"
| "into_session lib acc (v # vs) =
     (if v = JNull then into_session lib None vs
      else case wl_session_of_json lib v of Inl e \<Rightarrow> Inl e | Inr sd \<Rightarrow> into_session lib (Some sd) vs)"

definition LoginSession_of_json :: "'s webauthn_lib \<Rightarrow> json \<Rightarrow> 's WebAuthnLoginSession res" where
  "LoginSession_of_json lib v0 =
     and_then (struct_value v0) (\<lambda>v.
     and_then (into_session lib None (members_of ''session_data'' v)) (\<lambda>sd.
     and_then (field_string ''user_id'' v) (\<lambda>u.
     and_then (field_string ''email'' v) (\<lambda>e.
     and_then (field_string ''client_id'' v) (\<lambda>c.
       Inr \<lparr>wls_SessionData = sd, wls_UserID = u, wls_Email = e, wls_ClientID = c\<rparr>)))))"

definition StoreWebAuthnRegistrationSession ::
  "'s webauthn_lib \<Rightarrow> CacheClient \<Rightarrow> string \<Rightarrow> 's \<Rightarrow> goerror option proc" where
  "StoreWebAuthnRegistrationSession lib c userID session =
     (if cc_api c = None then Ret (Some not_initialized)
      else case wl_session_to_json lib session of
        Inl err \<Rightarrow> Ret (Some (Wrapf ''failed to marshal webauthn registration session'' err))
      | Inr raw \<Rightarrow>
          RSet (webauthnRegSessionKeyPrefix @ userID) (print_value raw) webauthnRegSessionTTLSec (\<lambda>r.
            case r of
              Inl err \<Rightarrow> Ret (Some (Wrapf ''failed to store webauthn registration session'' err))
            | Inr _ \<Rightarrow> Ret None))"

definition GetWebAuthnRegistrationSession :: "'s webauthn_lib \<Rightarrow> CacheClient \<Rightarrow> string \<Rightarrow> 's res proc" where
  "GetWebAuthnRegistrationSession lib c userID =
     (if cc_api c = None then Ret (Inl not_initialized)
      else RGet (webauthnRegSessionKeyPrefix @ userID) (\<lambda>r.
        case r of
          Inl err \<Rightarrow> Ret (Inl (Wrapf ''failed to look up webauthn registration session'' err))
        | Inr raw \<Rightarrow>
            if raw = [] then Ret (Inl ErrWebAuthnSessionNotFound)
            else (case and_then (Unmarshal raw) (wl_session_of_json lib) of
                    Inl err \<Rightarrow> Ret (Inl (Wrapf ''failed to unmarshal webauthn registration session'' err))
                  | Inr session \<Rightarrow> Ret (Inr session))))"

definition DeleteWebAuthnRegistrationSession :: "CacheClient \<Rightarrow> string \<Rightarrow> goerror option proc" where
  "DeleteWebAuthnRegistrationSession c userID =
     (if cc_api c = None then Ret (Some not_initialized)
      else RDelete (webauthnRegSessionKeyPrefix @ userID) (\<lambda>r.
        case r of
          Inl err \<Rightarrow> Ret (Some (Wrapf ''failed to delete webauthn registration session'' err))
        | Inr _ \<Rightarrow> Ret None))"

definition StoreWebAuthnLoginSession ::
  "'s webauthn_lib \<Rightarrow> CacheClient \<Rightarrow> string \<Rightarrow> 's WebAuthnLoginSession \<Rightarrow> goerror option proc" where
  "StoreWebAuthnLoginSession lib c challenge session =
     (if cc_api c = None then Ret (Some not_initialized)
      else case LoginSession_to_json lib session of
        Inl err \<Rightarrow> Ret (Some (Wrapf ''failed to marshal webauthn login session'' err))
      | Inr raw \<Rightarrow>
          RSet (webauthnLoginSessionKeyPrefix @ challenge) (print_value raw) webauthnLoginSessionTTLSec (\<lambda>r.
            case r of
              Inl err \<Rightarrow> Ret (Some (Wrapf ''failed to store webauthn login session'' err))
            | Inr _ \<Rightarrow> Ret None))"

definition GetWebAuthnLoginSession ::
  "'s webauthn_lib \<Rightarrow> CacheClient \<Rightarrow> string \<Rightarrow> 's WebAuthnLoginSession res proc" where
  "GetWebAuthnLoginSession lib c challenge =
     (if cc_api c = None then Ret (Inl not_initialized)
      else RGet (webauthnLoginSessionKeyPrefix @ challenge) (\<lambda>r.
        case r of
          Inl err \<Rightarrow> Ret (Inl (Wrapf ''failed to look up webauthn login session'' err))
        | Inr raw \<Rightarrow>
            if raw = [] then Ret (Inl ErrWebAuthnSessionNotFound)
            else (case and_then (Unmarshal raw) (LoginSession_of_json lib) of
                    Inl err \<Rightarrow> Ret (Inl (Wrapf ''failed to unmarshal webauthn login session'' err))
                  | Inr session \<Rightarrow> Ret (Inr session))))"

definition DeleteWebAuthnLoginSession :: "CacheClient \<Rightarrow> string \<Rightarrow> goerror option proc" where
  "DeleteWebAuthnLoginSession c challenge =
     (if cc_api c = None then Ret (Some not_initialized)
      else RDelete (webauthnLoginSessionKeyPrefix @ challenge) (\<lambda>r.
        case r of
          Inl err \<Rightarrow> Ret (Some (Wrapf ''failed to delete webauthn login session'' err))
        | Inr _ \<Rightarrow> Ret None))"

lemma webauthn_redis_only:
  "redis_only (StoreWebAuthnRegistrationSession lib c u s)" "redis_only (GetWebAuthnRegistrationSession lib c u)"
  "redis_only (DeleteWebAuthnRegistrationSession c u)" "redis_only (StoreWebAuthnLoginSession lib c ch ls)"
  "redis_only (GetWebAuthnLoginSession lib c ch)" "redis_only (DeleteWebAuthnLoginSession c ch)"
  by (auto simp: StoreWebAuthnRegistrationSession_def GetWebAuthnRegistrationSession_def
      DeleteWebAuthnRegistrationSession_def StoreWebAuthnLoginSession_def GetWebAuthnLoginSession_def
      DeleteWebAuthnLoginSession_def split: sum.split)

section \<open>Sessions come back\<close>

text \<open>
  What the code relies on: session data that the library made encodes to a text that decodes to
  it again (it is not \<open>null\<close>).
\<close>

definition session_codec :: "'s webauthn_lib \<Rightarrow> 's \<Rightarrow> bool" where
  "session_codec lib sd \<longleftrightarrow> (\<exists>v. wl_session_to_json lib sd = Inr v \<and> v \<noteq> JNull \<and> json_ok (maxNestingDepth - 1) v \<and>
     wl_session_of_json lib v = Inr sd)"

lemma LoginSession_read:
  assumes "session_codec lib sd" and "wls_SessionData s = Some sd" and "LoginSession_to_json lib s = Inr v"
    and "to_valid (wls_UserID s) = wls_UserID s" and "to_valid (wls_Email s) = wls_Email s"
    and "to_valid (wls_ClientID s) = wls_ClientID s"
  shows "json_ok maxNestingDepth v \<and> LoginSession_of_json lib v = Inr s \<and> print_value v \<noteq> []"
  using assms
  by (auto simp: session_codec_def LoginSession_to_json_def LoginSession_of_json_def struct_value_def
      field_string_def members_of_def fold_name_lower maxNestingDepth_def to_valid_ascii)

text \<open>Only a read session is returned.\<close>

context kv_store
begin

lemma GetWebAuthnLoginSession_value:
  assumes "env_cache E = api" and "exec (GetWebAuthnLoginSession lib c ch) E w = (Inr s, w')"
  shows "live (w_redis w') = live (w_redis w) \<and> cc_api c \<noteq> None \<and>
    (\<exists>raw. live (w_redis w) (webauthnLoginSessionKeyPrefix @ ch) = Some raw \<and>
       and_then (Unmarshal raw) (LoginSession_of_json lib) = Inr s)"
proof -
  obtain g st where g: "op_Get (env_cache E) (webauthnLoginSessionKeyPrefix @ ch) (w_redis w) = (g, st)" by fastforce
  from get_law [OF g [unfolded assms(1)]] show ?thesis
    using assms(2) g by (auto simp: GetWebAuthnLoginSession_def split: if_splits sum.splits option.splits)
qed

lemma GetWebAuthnRegistrationSession_value:
  assumes "env_cache E = api" and "exec (GetWebAuthnRegistrationSession lib c u) E w = (Inr s, w')"
  shows "live (w_redis w') = live (w_redis w) \<and> cc_api c \<noteq> None \<and>
    (\<exists>raw. live (w_redis w) (webauthnRegSessionKeyPrefix @ u) = Some raw \<and>
       and_then (Unmarshal raw) (wl_session_of_json lib) = Inr s)"
proof -
  obtain g st where g: "op_Get (env_cache E) (webauthnRegSessionKeyPrefix @ u) (w_redis w) = (g, st)" by fastforce
  from get_law [OF g [unfolded assms(1)]] show ?thesis
    using assms(2) g by (auto simp: GetWebAuthnRegistrationSession_def split: if_splits sum.splits option.splits)
qed

end

end
