(* ===== verification/PasskeyEndpoints.thy ===== *)
theory PasskeyEndpoints
  imports OtpEndpoints OAuthToken PasskeyClient WebAuthnStore
begin

text \<open>
  The passkey endpoints (\<open>api/passkeys_register.go\<close>, \<open>api/passkeys_auth.go\<close>): the two
  ceremonies of WebAuthn, each with a beginning that stores a session and a completion that
  claims it. \<open>Service.WebAuthn\<close> is the argument \<open>wa\<close>. Log output is not modelled.
\<close>

section \<open>Credentials and descriptors\<close>

definition maxPasskeysPerUser :: nat where "maxPasskeysPerUser = 10"
definition maxAssertionBodyBytes :: nat where "maxAssertionBodyBytes = 2 ^ 20"

definition registrationCredentialParameters :: "(string \<times> string) list" where
  "registrationCredentialParameters =
     [(''PublicKeyCredentialType'', ''AlgES256''), (''PublicKeyCredentialType'', ''AlgRS256'')]"

definition passkeyUserID :: "http_in \<Rightarrow> string \<times> string \<times> bool" where
  "passkeyUserID req = (let sub = in_UserID req in (sub, sub, sub \<noteq> []))"

definition descriptorToCredentialDescriptor :: "PasskeyCredentialDescriptor \<Rightarrow> CredentialDescriptor res" where
  "descriptorToCredentialDescriptor cred =
     and_then (base64_RawURL_DecodeString (pc_CredentialId cred)) (\<lambda>i.
       Inr \<lparr>wd_Type = ''PublicKeyCredentialType'', wd_CredentialID = i, wd_Transport = pc_Transports cred\<rparr>)"

definition descriptor_credential :: "PasskeyCredentialDescriptor \<Rightarrow> Credential res" where
  "descriptor_credential d =
     and_then (base64_RawURL_DecodeString (pc_CredentialId d)) (\<lambda>i.
     and_then (base64_Std_DecodeString (pc_PublicKey d)) (\<lambda>pubKey.
     and_then (if pc_Aaguid d \<noteq> [] then base64_Std_DecodeString (pc_Aaguid d) else Inr []) (\<lambda>aaguid.
       Inr \<lparr>wc_ID = i, wc_PublicKey = pubKey, wc_Transport = pc_Transports d,
            wc_BackupEligible = pc_BackupEligible d, wc_BackupState = pc_BackupState d, wc_AAGUID = aaguid,
            wc_SignCount = pc_SignCount d, wc_CloneWarning = False\<rparr>)))"

fun descriptorsToCredentials :: "PasskeyCredentialDescriptor list \<Rightarrow> Credential list res" where
  "descriptorsToCredentials [] = Inr []"
| "descriptorsToCredentials (d # ds) =
     and_then (descriptor_credential d) (\<lambda>c. map_sum id ((#) c) (descriptorsToCredentials ds))"

definition passkey_user :: "string \<Rightarrow> Credential list \<Rightarrow> RegistrationUser" where
  "passkey_user userID creds =
     \<lparr>ru_ID = userID, ru_Name = userID, ru_DisplayName = userID, ru_Credentials = creds\<rparr>"

text \<open>The answer for a nil pointer that the code dereferences.\<close>

definition nil_panic :: outcome where
  "nil_panic = SendError Global_Internal ''panic: nil pointer dereference''"

section \<open>Registration\<close>

text \<open>Descriptors that do not decode are left out of the list of excluded credentials.\<close>

definition exclude_list :: "PasskeyCredentialDescriptor list \<Rightarrow> CredentialDescriptor list" where
  "exclude_list ds =
     concat (map (\<lambda>d. case descriptorToCredentialDescriptor d of Inl err \<Rightarrow> [] | Inr x \<Rightarrow> [x]) ds)"

definition registration_ceremony ::
  "'s webauthn_lib \<Rightarrow> string \<Rightarrow> PasskeyCredentialDescriptor list \<Rightarrow> (json \<times> 's) res proc" where
  "registration_ceremony lib userID ds =
     TimeNow (\<lambda>now. RandRead (wl_entropy lib) (\<lambda>r.
       case r of
         Inl err \<Rightarrow> Ret (Inl err)
       | Inr bytes \<Rightarrow>
           Ret (wl_BeginRegistration lib (passkey_user userID [])
             \<lparr>ro_Exclusions = exclude_list ds, ro_ResidentKey = ''ResidentKeyRequirementPreferred'',
              ro_UserVerification = ''VerificationRequired'', ro_Conveyance = ''PreferNoAttestation'',
              ro_Parameters = registrationCredentialParameters\<rparr> now bytes)))"

definition PasskeyRegisterBeginHandler :: "'s webauthn_lib option \<Rightarrow> Service \<Rightarrow> http_in \<Rightarrow> response proc" where
  "PasskeyRegisterBeginHandler wa s req =
     (let hs = json_no_store in
      case wa of
        None \<Rightarrow> respond hs (SendError Global_Internal ''passkey registration unavailable'')
      | Some lib \<Rightarrow>
          (case passkeyUserID req of (sub, userID, ok) \<Rightarrow>
             if \<not> ok then respond hs (SendError Auth_InvalidToken ''invalid user subject'')
             else call (getOrRefreshSvcJWT s) (\<lambda>t.
               case t of
                 Inl err \<Rightarrow> respond hs (SendError Global_ServiceUnavailable ''passkey registration unavailable'')
               | Inr svcToken \<Rightarrow>
                   (case sv_HttpClient s of
                      None \<Rightarrow> respond hs nil_panic
                    | Some http \<Rightarrow>
                        call (ListPasskeyCredentials http userID svcToken) (\<lambda>l.
                          case l of
                            Inl err \<Rightarrow>
                              respond hs (SendError Global_ServiceUnavailable ''passkey registration unavailable'')
                          | Inr existing \<Rightarrow>
                              if maxPasskeysPerUser \<le> length existing
                              then respond hs (SendError Global_Conflict ''maximum number of passkeys reached'')
                              else call (registration_ceremony lib userID existing) (\<lambda>b.
                                case b of
                                  Inl err \<Rightarrow>
                                    respond hs (SendError Global_Internal ''failed to begin passkey registration'')
                                | Inr (creation, session) \<Rightarrow>
                                    call (StoreWebAuthnRegistrationSession lib (sv_CacheClient s) sub session) (\<lambda>e.
                                      case e of
                                        Some err \<Rightarrow>
                                          respond hs (SendError Global_Internal ''failed to begin passkey registration'')
                                      | None \<Rightarrow> respond hs (Reply 200 (JsonBody creation)))))))))"

definition new_descriptor :: "Credential \<Rightarrow> PasskeyCredentialDescriptor" where
  "new_descriptor c =
     \<lparr>pc_CredentialId = base64_RawURL_EncodeToString (wc_ID c),
      pc_PublicKey = base64_Std_EncodeToString (wc_PublicKey c), pc_SignCount = wc_SignCount c,
      pc_Transports = wc_Transport c, pc_Aaguid = base64_Std_EncodeToString (wc_AAGUID c),
      pc_BackupEligible = wc_BackupEligible c, pc_BackupState = wc_BackupState c,
      pc_CreatedAt = None, pc_LastUsedAt = None\<rparr>"

text \<open>The end of a registration whose ceremony succeeded: claim the session, keep the credential.\<close>

definition register_credential :: "Service \<Rightarrow> string \<Rightarrow> Credential \<Rightarrow> response proc" where
  "register_credential s sub credential =
     (let hs = json_no_store; descriptor = new_descriptor credential in
      call (ClaimSession (sv_CacheClient s) (''reg:'' @ sub)) (\<lambda>c.
        case c of
          Inl claimErr \<Rightarrow> respond hs (SendError Global_Internal ''failed to complete passkey registration'')
        | Inr claimed \<Rightarrow>
            if \<not> claimed then respond hs (SendError Global_Conflict ''registration session already completed'')
            else call (getOrRefreshSvcJWT s) (\<lambda>t.
              case t of
                Inl err \<Rightarrow> respond hs (SendError Global_ServiceUnavailable ''passkey registration unavailable'')
              | Inr svcToken \<Rightarrow>
                  (case sv_HttpClient s of
                     None \<Rightarrow> respond hs nil_panic
                   | Some http \<Rightarrow>
                       call (CreatePasskeyCredential http sub svcToken descriptor) (\<lambda>e.
                         case e of
                           Some err \<Rightarrow>
                             respond hs (SendError Global_ServiceUnavailable ''failed to persist passkey credential'')
                         | None \<Rightarrow>
                             call (DeleteWebAuthnRegistrationSession (sv_CacheClient s) sub) (\<lambda>_.
                             TimeNow (\<lambda>now.
                               respond hs (Reply 201 (PasskeyBody (pc_CredentialId descriptor) now)))))))))"

definition PasskeyRegisterCompleteHandler :: "'s webauthn_lib option \<Rightarrow> Service \<Rightarrow> http_in \<Rightarrow> response proc" where
  "PasskeyRegisterCompleteHandler wa s req =
     (let hs = json_no_store in
      case wa of
        None \<Rightarrow> respond hs (SendError Global_Internal ''passkey registration unavailable'')
      | Some lib \<Rightarrow>
          (case passkeyUserID req of (sub, userID, ok) \<Rightarrow>
             if \<not> ok then respond hs (SendError Auth_InvalidToken ''invalid user subject'')
             else call (GetWebAuthnRegistrationSession lib (sv_CacheClient s) sub) (\<lambda>g.
               case g of
                 Inl err \<Rightarrow>
                   if errors_Is err ''ErrWebAuthnSessionNotFound''
                   then respond hs (SendError Global_BadRequest ''registration session not found or expired'')
                   else respond hs (SendError Global_Internal ''failed to complete passkey registration'')
               | Inr session \<Rightarrow>
                   TimeNow (\<lambda>now.
                     case wl_FinishRegistration lib (passkey_user userID []) session (in_Body req) now of
                       Inl err \<Rightarrow> respond hs (SendError Global_BadRequest ''passkey registration failed'')
                     | Inr credential \<Rightarrow> register_credential s sub credential))))"

section \<open>Login\<close>

record PasskeyLoginBeginRequest =
  lb_ClientId :: string
  lb_Email :: string

definition PasskeyLoginBeginRequest_of_json :: "sdk \<Rightarrow> json \<Rightarrow> PasskeyLoginBeginRequest res" where
  "PasskeyLoginBeginRequest_of_json S v0 =
     and_then (struct_value v0) (\<lambda>v.
     and_then (field_string ''client_id'' v) (\<lambda>c.
     and_then (field_email S ''email'' v) (\<lambda>e.
       Inr \<lparr>lb_ClientId = c, lb_Email = e\<rparr>)))"

definition login_ceremony :: "'s webauthn_lib \<Rightarrow> string \<Rightarrow> Credential list \<Rightarrow> (json \<times> 's) res proc" where
  "login_ceremony lib userID creds =
     TimeNow (\<lambda>now. RandRead (wl_entropy lib) (\<lambda>r.
       case r of
         Inl err \<Rightarrow> Ret (Inl err)
       | Inr bytes \<Rightarrow> Ret (wl_BeginLogin lib (passkey_user userID creds) ''VerificationRequired'' now bytes)))"

text \<open>The account is known: its passkeys are listed and the ceremony starts.\<close>

definition begin_login ::
  "'s webauthn_lib \<Rightarrow> Service \<Rightarrow> HttpClient \<Rightarrow> string \<Rightarrow> string \<Rightarrow> string \<Rightarrow> string \<Rightarrow> response proc" where
  "begin_login lib s http svcToken userID email clientID =
     (let hs = json_no_store in
      call (ListPasskeyCredentials http userID svcToken) (\<lambda>l.
        case l of
          Inl err \<Rightarrow> respond hs (SendError Global_ServiceUnavailable ''passkey login unavailable'')
        | Inr existing \<Rightarrow>
            if existing = [] then respond hs (SendError Global_NotFound ''no passkeys registered for this account'')
            else (case descriptorsToCredentials existing of
                    Inl err \<Rightarrow> respond hs (SendError Global_Internal ''passkey login unavailable'')
                  | Inr webauthnCreds \<Rightarrow>
                      call (login_ceremony lib userID webauthnCreds) (\<lambda>b.
                        case b of
                          Inl err \<Rightarrow> respond hs (SendError Global_Internal ''failed to begin passkey login'')
                        | Inr (assertion, session) \<Rightarrow>
                            call (StoreWebAuthnLoginSession lib (sv_CacheClient s) (wl_Challenge lib session)
                                \<lparr>wls_SessionData = Some session, wls_UserID = userID, wls_Email = email,
                                 wls_ClientID = clientID\<rparr>) (\<lambda>e.
                              case e of
                                Some err \<Rightarrow> respond hs (SendError Global_Internal ''failed to begin passkey login'')
                              | None \<Rightarrow> respond hs (Reply 200 (JsonBody assertion)))))))"

definition PasskeyLoginBeginHandler :: "'s webauthn_lib option \<Rightarrow> Service \<Rightarrow> http_in \<Rightarrow> response proc" where
  "PasskeyLoginBeginHandler wa s req =
     (let hs = json_no_store in
      case wa of
        None \<Rightarrow> respond hs (SendError Global_Internal ''passkey login unavailable'')
      | Some lib \<Rightarrow>
          (case and_then (Decode (in_Body req)) (PasskeyLoginBeginRequest_of_json (sv_sdk s)) of
             Inl err \<Rightarrow> respond hs (SendError Global_BadRequest ''invalid request body'')
           | Inr body \<Rightarrow>
               (let email = normal_email (lb_Email body) in
                case sdk_ParseAddress (sv_sdk s) email of
                  Inl err \<Rightarrow> respond hs (SendError Global_BadRequest ''email is required'')
                | Inr _ \<Rightarrow>
                    if lb_ClientId body = [] then respond hs (SendError Global_BadRequest ''client_id is required'')
                    else if \<not> snd (Registry_Get (sv_ClientRegistry s) (lb_ClientId body))
                    then respond hs (SendError Auth_InvalidClientCredentials ''unknown client_id'')
                    else call (getOrRefreshSvcJWT s) (\<lambda>t.
                      case t of
                        Inl err \<Rightarrow> respond hs (SendError Global_ServiceUnavailable ''passkey login unavailable'')
                      | Inr svcToken \<Rightarrow>
                          (case sv_HttpClient s of
                             None \<Rightarrow> respond hs nil_panic
                           | Some http \<Rightarrow>
                               call (GetUserCredentials http email svcToken) (\<lambda>c.
                                 case c of
                                   Inl err \<Rightarrow>
                                     respond hs (SendError Global_ServiceUnavailable ''passkey login unavailable'')
                                 | Inr None \<Rightarrow> respond hs (SendError Global_NotFound ''account not found'')
                                 | Inr (Some creds) \<Rightarrow>
                                     if cred_UserId creds = []
                                     then respond hs (SendError Global_NotFound ''account not found'')
                                     else begin_login lib s http svcToken (cred_UserId creds) email
                                       (lb_ClientId body)))))))"

text \<open>The descriptor after a login: the reported counter, the time of use, the old time of creation.\<close>

definition used_descriptor ::
  "PasskeyCredentialDescriptor list \<Rightarrow> Credential \<Rightarrow> nat \<Rightarrow> string \<Rightarrow> PasskeyCredentialDescriptor" where
  "used_descriptor existing c reportedSignCount lastUsedAt =
     (let credentialID = base64_RawURL_EncodeToString (wc_ID c);
          prior = find (\<lambda>d. pc_CredentialId d = credentialID) existing
      in \<lparr>pc_CredentialId = credentialID, pc_PublicKey = base64_Std_EncodeToString (wc_PublicKey c),
          pc_SignCount = reportedSignCount, pc_Transports = wc_Transport c,
          pc_Aaguid = base64_Std_EncodeToString (wc_AAGUID c), pc_BackupEligible = wc_BackupEligible c,
          pc_BackupState = wc_BackupState c,
          pc_CreatedAt = (case prior of None \<Rightarrow> None | Some d \<Rightarrow> pc_CreatedAt d),
          pc_LastUsedAt = Some lastUsedAt\<rparr>)"

definition login_banned :: "Service \<Rightarrow> string \<Rightarrow> bool proc" where
  "login_banned s email =
     (case sv_BannedChecker s of
        None \<Rightarrow> Ret False
      | Some b \<Rightarrow> call (IsBanned (sv_sdk s) b email) (\<lambda>r.
          case r of Inl err \<Rightarrow> Ret False | Inr banned \<Rightarrow> Ret banned))"

definition passkey_issue :: "Service \<Rightarrow> string \<Rightarrow> string \<Rightarrow> response proc" where
  "passkey_issue s subject clientID =
     (let hs = json_no_store in
      call (s_SignToken s this_issuer subject audienceUser otpTokenTTL [passkeyLoginScope]) (\<lambda>a.
        case a of
          Inl err \<Rightarrow> respond hs (SendError Global_Internal ''failed to issue token'')
        | Inr accessToken \<Rightarrow>
            UuidNew (\<lambda>family.
            call (s_SignRefreshToken s this_issuer subject audienceUser clientID family refreshTokenTTL
                [''offline_access'']) (\<lambda>b.
              case b of
                Inl err \<Rightarrow> respond hs (SendError Global_Internal ''failed to issue token'')
              | Inr refreshToken \<Rightarrow>
                  respond hs (Reply 200 (TokenBody
                    \<lparr>ts_AccessToken = accessToken, ts_ExpiresIn = otpTokenTTL, ts_RefreshToken = Some refreshToken,
                     ts_Scope = Some passkeyLoginScope, ts_TokenType = ''Bearer''\<rparr>))))))"

text \<open>The end of a login whose ceremony succeeded and whose session was claimed.\<close>

definition finish_login ::
  "Service \<Rightarrow> HttpClient \<Rightarrow> string \<Rightarrow> string \<Rightarrow> 's WebAuthnLoginSession \<Rightarrow> PasskeyCredentialDescriptor list \<Rightarrow>
     Credential \<Rightarrow> nat \<Rightarrow> response proc" where
  "finish_login s http svcToken challenge session existing credential count =
     (let hs = json_no_store in
      TimeNow (\<lambda>now.
      call (case time_text now of
              Inl err \<Rightarrow> Ret (Some (Wrapf ''failed to marshal passkey credential'' err))
            | Inr used \<Rightarrow> UpdatePasskeyCredential http (wls_UserID session) svcToken
                (used_descriptor existing credential count used)) (\<lambda>e.
        case e of
          Some err \<Rightarrow> respond hs (SendError Global_ServiceUnavailable ''failed to persist passkey credential'')
        | None \<Rightarrow>
            call (DeleteWebAuthnLoginSession (sv_CacheClient s) challenge) (\<lambda>_.
            call (login_banned s (wls_Email session)) (\<lambda>banned.
              if banned
              then respond hs (SendError Global_Forbidden ''account is not eligible for passkey login'')
              else passkey_issue s (wls_UserID session) (wls_ClientID session))))))"

text \<open>The session is loaded: the passkeys are listed, the ceremony is finished and the session claimed.\<close>

definition complete_login ::
  "'s webauthn_lib \<Rightarrow> Service \<Rightarrow> string \<Rightarrow> string \<Rightarrow> nat \<Rightarrow> 's WebAuthnLoginSession \<Rightarrow> response proc" where
  "complete_login lib s rawBody challenge count session =
     (let hs = json_no_store in
      call (getOrRefreshSvcJWT s) (\<lambda>t.
        case t of
          Inl err \<Rightarrow> respond hs (SendError Global_ServiceUnavailable ''passkey login unavailable'')
        | Inr svcToken \<Rightarrow>
            (case sv_HttpClient s of
               None \<Rightarrow> respond hs nil_panic
             | Some http \<Rightarrow>
                 call (ListPasskeyCredentials http (wls_UserID session) svcToken) (\<lambda>l.
                   case l of
                     Inl err \<Rightarrow> respond hs (SendError Global_ServiceUnavailable ''passkey login unavailable'')
                   | Inr existing \<Rightarrow>
                       (case descriptorsToCredentials existing of
                          Inl err \<Rightarrow> respond hs (SendError Global_Internal ''passkey login unavailable'')
                        | Inr webauthnCreds \<Rightarrow>
                            (case wls_SessionData session of
                               None \<Rightarrow> respond hs nil_panic
                             | Some sd \<Rightarrow>
                                 TimeNow (\<lambda>now.
                                   case wl_FinishLogin lib (passkey_user (wls_UserID session) webauthnCreds) sd
                                          rawBody now of
                                     Inl err \<Rightarrow> respond hs (SendError Auth_InvalidToken ''passkey login failed'')
                                   | Inr credential \<Rightarrow>
                                       call (ClaimSession (sv_CacheClient s) (''login:'' @ challenge)) (\<lambda>c.
                                         case c of
                                           Inl claimErr \<Rightarrow>
                                             respond hs (SendError Global_Internal ''failed to complete passkey login'')
                                         | Inr claimed \<Rightarrow>
                                             if \<not> claimed
                                             then respond hs (SendError Global_Conflict ''login session already completed'')
                                             else finish_login s http svcToken challenge session existing credential
                                               count)))))))) "

definition PasskeyLoginCompleteHandler :: "'s webauthn_lib option \<Rightarrow> Service \<Rightarrow> http_in \<Rightarrow> response proc" where
  "PasskeyLoginCompleteHandler wa s req =
     (let hs = json_no_store in
      case wa of
        None \<Rightarrow> respond hs (SendError Global_Internal ''passkey login unavailable'')
      | Some lib \<Rightarrow>
          (let rawBody = take maxAssertionBodyBytes (in_Body req) in
           case wl_ParseAssertion lib rawBody of
             Inl err \<Rightarrow> respond hs (SendError Global_BadRequest ''invalid assertion response'')
           | Inr (challenge, count) \<Rightarrow>
               call (GetWebAuthnLoginSession lib (sv_CacheClient s) challenge) (\<lambda>g.
                 case g of
                   Inl err \<Rightarrow>
                     if errors_Is err ''ErrWebAuthnSessionNotFound''
                     then respond hs (SendError Global_BadRequest ''login session not found or expired'')
                     else respond hs (SendError Global_Internal ''failed to complete passkey login'')
                 | Inr session \<Rightarrow> complete_login lib s rawBody challenge count session)))"

section \<open>Authenticating the registration endpoints\<close>

text \<open>\<open>auth.Claims\<close> of the SDK; times are whole seconds.\<close>

record auth_Claims =
  au_Subject :: string
  au_Audience :: "string list"
  au_Scopes :: "string list"
  au_JTI :: string
  au_IssuedAt :: "int option"
  au_ExpiresAt :: "int option"
  au_Issuer :: string

definition ErrInvalidToken :: goerror where
  "ErrInvalidToken = Sentinel ''auth.ErrInvalidToken''"

text \<open>A token without \<open>iat\<close> or \<open>exp\<close> is a nil dereference here.\<close>

definition tokenVerifier_Verify :: "Service \<Rightarrow> string \<Rightarrow> auth_Claims res proc" where
  "tokenVerifier_Verify s token =
     call (s_ValidateAndParseClaims s token) (\<lambda>r.
       case r of
         Inl err \<Rightarrow> Ret (Inl ErrInvalidToken)
       | Inr claims \<Rightarrow>
           if cl_IssuedAt claims = None \<or> cl_ExpiresAt claims = None
           then Ret (Inl (Errorf ''panic: nil pointer dereference''))
           else Ret (Inr
             \<lparr>au_Subject = cl_Subject claims, au_Audience = cl_Audience claims, au_Scopes = cl_Scopes claims,
              au_JTI = cl_ID claims, au_IssuedAt = cl_IssuedAt claims, au_ExpiresAt = cl_ExpiresAt claims,
              au_Issuer = cl_Issuer claims\<rparr>))"

end
