(* ===== verification/LocalPasskey.thy ===== *)
theory LocalPasskey
  imports PasskeyEndpoints OtpEndpointProps
begin

text \<open>
  A concrete WebAuthn library, whose session data is the challenge itself: an assertion is
  accepted when its body is the challenge of the session and the user has a passkey. With the
  concrete service it shows that the passkey flows can succeed.
\<close>

definition local_webauthn :: "string webauthn_lib" where
  "local_webauthn =
     \<lparr>wl_entropy = 4, wl_Challenge = (\<lambda>sd. sd), wl_session_to_json = (\<lambda>sd. Inr (JStr sd)),
      wl_session_of_json = (\<lambda>v. case v of JStr s \<Rightarrow> Inr s | _ \<Rightarrow> Inl type_error),
      wl_BeginRegistration = (\<lambda>u opts now bytes. Inr (JObj [(''challenge'', JStr bytes)], bytes)),
      wl_FinishRegistration = (\<lambda>u sd body now. if body = sd
         then Inr \<lparr>wc_ID = ''new-cred'', wc_PublicKey = ''pk'', wc_Transport = [''usb''], wc_BackupEligible = False,
           wc_BackupState = False, wc_AAGUID = [], wc_SignCount = 1, wc_CloneWarning = False\<rparr>
         else Inl (Errorf ''challenge mismatch'')),
      wl_BeginLogin = (\<lambda>u uv now bytes. Inr (JObj [(''challenge'', JStr bytes)], bytes)),
      wl_FinishLogin = (\<lambda>u sd body now. if body = sd \<and> ru_Credentials u \<noteq> [] then Inr (hd (ru_Credentials u))
         else Inl (Errorf ''assertion refused'')),
      wl_ParseAssertion = (\<lambda>body. Inr (body, 8))\<rparr>"

lemma local_webauthn_fields [simp]:
  "wl_entropy local_webauthn = 4" "wl_Challenge local_webauthn sd = sd"
  "wl_session_to_json local_webauthn sd = Inr (JStr sd)" "wl_session_of_json local_webauthn (JStr sd) = Inr sd"
  "wl_FinishRegistration local_webauthn u sd body now = (if body = sd
     then Inr \<lparr>wc_ID = ''new-cred'', wc_PublicKey = ''pk'', wc_Transport = [''usb''], wc_BackupEligible = False,
       wc_BackupState = False, wc_AAGUID = [], wc_SignCount = 1, wc_CloneWarning = False\<rparr>
     else Inl (Errorf ''challenge mismatch''))"
  "wl_FinishLogin local_webauthn u sd body now = (if body = sd \<and> ru_Credentials u \<noteq> [] then Inr (hd (ru_Credentials u))
     else Inl (Errorf ''assertion refused''))"
  "wl_ParseAssertion local_webauthn body = Inr (body, 8)"
  by (simp_all add: local_webauthn_def)

lemma local_session_codec: "to_valid sd = sd \<Longrightarrow> session_codec local_webauthn sd"
  by (simp add: session_codec_def)

text \<open>The service token of the concrete service is always obtained.\<close>

lemma local_svc_exec:
  assumes "w_svc w = ([], 0)"
  obtains tok rt sv where "exec (getOrRefreshSvcJWT local_service) local_env w = (Inr tok, w\<lparr>w_rt := rt, w_svc := sv\<rparr>)"
    and "rt_now rt = rt_now (w_rt w)"
proof -
  have "\<exists>tok rt sv. exec (getOrRefreshSvcJWT local_service) local_env w = (Inr tok, w\<lparr>w_rt := rt, w_svc := sv\<rparr>) \<and>
      rt_now rt = rt_now (w_rt w)"
    using assms
    by (simp add: getOrRefreshSvcJWT_def Let_def exec_call exec_local_SignToken exec_local_SignRefreshToken local_uuid_def)
      (intro exI conjI, rule refl, simp)
  then show thesis using that by blast
qed

text \<open>Scripted answers of the customer API.\<close>

lemma local_get_reply:
  assumes "url_parses url" and "pe_http (w_http w) = Inr \<lparr>rp_status = 200, rp_body = Inr raw\<rparr> # rs"
  shows "exec (authorized_get what url tok) local_env w = (Inr raw, w\<lparr>w_http := (w_http w)\<lparr>pe_http := rs\<rparr>\<rparr>)"
  using assms by (simp add: authorized_get_def local_env_def local_http_def success_status_def)

lemma local_send_reply:
  assumes "url_parses url" and "pe_http (w_http w) = Inr \<lparr>rp_status = 200, rp_body = Inr raw\<rparr> # rs"
  shows "exec (send_descriptor what meth url tok d) local_env w = (None, w\<lparr>w_http := (w_http w)\<lparr>pe_http := rs\<rparr>\<rparr>)"
  using assms by (simp add: send_descriptor_def local_env_def local_http_def success_status_def)

lemma local_store_ok:
  assumes "exec p local_env w = (a, w')" and "ttl_ok (w_redis w)"
  shows "ttl_ok (w_redis w')"
  using local_exec [OF assms(1)] assms(2) by blast

section \<open>A login\<close>

definition stored_login :: "string WebAuthnLoginSession" where
  "stored_login = \<lparr>wls_SessionData = Some ''ch-1'', wls_UserID = ''user-1'', wls_Email = ''a@b.c'', wls_ClientID = ''orders''\<rparr>"

definition stored_login_json :: json where
  "stored_login_json = JObj [(''session_data'', JStr ''ch-1''), (''user_id'', JStr ''user-1''), (''email'', JStr ''a@b.c''),
     (''client_id'', JStr ''orders'')]"

definition listed_json :: json where
  "listed_json = JObj [(''credentials'', JArr [JObj [(''credential_id'', JStr ''Y3JlZA''), (''public_key'', JStr ''a2V5''),
     (''sign_count'', JNum ''7''), (''backup_eligible'', JBool True), (''backup_state'', JBool False)]])]"

definition listed_descriptor :: PasskeyCredentialDescriptor where
  "listed_descriptor = \<lparr>pc_CredentialId = ''Y3JlZA'', pc_PublicKey = ''a2V5'', pc_SignCount = 7, pc_Transports = [],
     pc_Aaguid = [], pc_BackupEligible = True, pc_BackupState = False, pc_CreatedAt = None, pc_LastUsedAt = None\<rparr>"

definition listed_credential :: Credential where
  "listed_credential = \<lparr>wc_ID = ''cred'', wc_PublicKey = ''key'', wc_Transport = [], wc_BackupEligible = True,
     wc_BackupState = False, wc_AAGUID = [], wc_SignCount = 7, wc_CloneWarning = False\<rparr>"

definition passkey_request :: http_in where
  "passkey_request = \<lparr>in_ContentType = ''application/json'', in_Authorization = [], in_RawQuery = [],
     in_Body = ''ch-1'', in_PathID = [], in_UserID = [], in_Scopes = []\<rparr>"

definition passkey_world :: "(ttl_store, peers, runtime) world" where
  "passkey_world = local_world [''webauthn:login:ch-1'' \<mapsto> (print_value stored_login_json, Some 300)]
     [Inr \<lparr>rp_status = 200, rp_body = Inr (print_value listed_json)\<rparr>, Inr \<lparr>rp_status = 200, rp_body = Inr []\<rparr>] 5"

lemma stored_login_read:
  "and_then (Unmarshal (print_value stored_login_json)) (LoginSession_of_json local_webauthn) = Inr stored_login"
  by (simp add: stored_login_json_def Unmarshal_print maxNestingDepth_def to_valid_ascii LoginSession_of_json_def
      struct_value_def field_string_def members_of_def fold_name_lower stored_login_def del: print_value.simps)

lemma listed_read:
  "and_then (Unmarshal (print_value listed_json)) credential_list_of_json = Inr [listed_descriptor]"
proof -
  have "scan_number ''7'' = Some (''7'', [])" "parse_digits 0 ''7'' = Some 7" by code_simp+
  then show ?thesis
    by (simp add: listed_json_def Unmarshal_print maxNestingDepth_def to_valid_ascii credential_list_of_json_def
      struct_value_def Descriptor_of_json_def field_string_def field_strings_def field_bool_def field_uint32_def
      field_time_ptr_def members_of_def fold_name_lower listed_descriptor_def del: print_value.simps)
qed

lemma listed_decoded: "descriptorsToCredentials [listed_descriptor] = Inr [listed_credential]"
  by code_simp

lemma passkey_urls: "url_parses (''http://customer'' @ pathUserPasskeys ''user-1'')"
  "url_parses (''http://customer'' @ pathUserPasskey ''user-1'' ''Y3JlZA'')"
  "base64_RawURL_EncodeToString ''cred'' = ''Y3JlZA''"
  by code_simp+

lemma passkey_time: "time_text 5 = Inr ''1970-01-01T00:00:00.000000005Z''"
  by code_simp

lemma local_list:
  assumes "pe_http (w_http w) = Inr \<lparr>rp_status = 200, rp_body = Inr (print_value listed_json)\<rparr> # rs"
    and "hc_CustomerBaseURL http = ''http://customer''"
  shows "exec (ListPasskeyCredentials http ''user-1'' tok) local_env w = (Inr [listed_descriptor], w\<lparr>w_http := (w_http w)\<lparr>pe_http := rs\<rparr>\<rparr>)"
  unfolding ListPasskeyCredentials_def exec_call assms(2) local_get_reply [OF passkey_urls(1) assms(1)] prod.case sum.case
    listed_read by simp

lemma local_update:
  assumes "pe_http (w_http w) = Inr \<lparr>rp_status = 200, rp_body = Inr []\<rparr> # rs"
    and "hc_CustomerBaseURL http = ''http://customer''" and "pc_CredentialId d = ''Y3JlZA''"
  shows "exec (UpdatePasskeyCredential http ''user-1'' tok d) local_env w = (None, w\<lparr>w_http := (w_http w)\<lparr>pe_http := rs\<rparr>\<rparr>)"
  unfolding UpdatePasskeyCredential_def assms(2,3) by (rule local_send_reply [OF passkey_urls(2) assms(1)])

lemma local_issue: "\<exists>t. issued (fst (exec (passkey_issue local_service sub cid) local_env w)) = Some t"
  by (simp add: passkey_issue_def Let_def exec_call exec_local_SignToken exec_local_SignRefreshToken issued_def
      split: prod.split)

lemma local_finish:
  assumes "pe_http (w_http w) = Inr \<lparr>rp_status = 200, rp_body = Inr []\<rparr> # rs" and "rt_now (w_rt w) = 5"
    and "hc_CustomerBaseURL http = ''http://customer''"
  shows "\<exists>t. issued (fst (exec (finish_login local_service http tok ch stored_login [listed_descriptor] listed_credential 8)
    local_env w)) = Some t"
proof -
  have d: "pc_CredentialId (used_descriptor [listed_descriptor] listed_credential 8 used) = ''Y3JlZA''" for used
    by (simp add: used_descriptor_def Let_def listed_credential_def passkey_urls(3))
  have n: "env_now local_env (w_rt w) = (5, w_rt w)" and "w\<lparr>w_rt := w_rt w\<rparr> = w" using assms(2) by simp_all
  obtain v where v: "exec (UpdatePasskeyCredential http ''user-1'' tok (used_descriptor [listed_descriptor] listed_credential 8
      ''1970-01-01T00:00:00.000000005Z'')) local_env w = (None, v)"
    using local_update [OF assms(1,3) d] by blast
  have b: "exec (login_banned local_service x) local_env u = (False, u)" for x u by (simp add: login_banned_def)
  obtain x u where del: "exec (DeleteWebAuthnLoginSession local_client ch) local_env v = (x, u)" by fastforce
  have ls: "wls_UserID stored_login = ''user-1''" by (simp add: stored_login_def)
  obtain t where "issued (fst (exec (passkey_issue local_service ''user-1'' (wls_ClientID stored_login)) local_env u)) = Some t"
    using local_issue by blast
  then show ?thesis
    unfolding finish_login_def Let_def exec.simps n prod.case exec_call passkey_time sum.case ls \<open>w\<lparr>w_rt := w_rt w\<rparr> = w\<close> v option.case
      local_service_fields del b if_False by blast
qed

lemma passkey_logged_in:
  "\<exists>t. issued (fst (exec (PasskeyLoginCompleteHandler (Some local_webauthn) local_service passkey_request) local_env passkey_world)) = Some t"
proof -
  have ok: "ttl_ok (w_redis passkey_world)" by (simp add: passkey_world_def)
  have raw: "take maxAssertionBodyBytes (in_Body passkey_request) = ''ch-1''"
    by (simp add: passkey_request_def maxAssertionBodyBytes_def)
  obtain http where http: "sv_HttpClient local_service = Some http" "hc_CustomerBaseURL http = ''http://customer''"
    by (simp add: local_service_def)
  have stored: "ttl_live (w_redis passkey_world) (webauthnLoginSessionKeyPrefix @ ''ch-1'') = Some (print_value stored_login_json)"
    "ttl_live (w_redis passkey_world) (sessionClaimKey @ ''login:ch-1'') = None"
    by (simp_all add: passkey_world_def local_world_def ttl_live_def webauthnLoginSessionKeyPrefix_def sessionClaimKey_def del: print_value.simps)
  have "print_value stored_login_json \<noteq> []" by (simp add: stored_login_json_def)
  obtain s1 where g: "exec (GetWebAuthnLoginSession local_webauthn local_client ''ch-1'') local_env passkey_world
      = (Inr stored_login, passkey_world\<lparr>w_redis := s1\<rparr>)" "ttl_ok s1" "ttl_live s1 = ttl_live (w_redis passkey_world)"
    using ttl.get_eq [OF ok, of "webauthnLoginSessionKeyPrefix @ ''ch-1''"] stored(1) \<open>print_value stored_login_json \<noteq> []\<close> stored_login_read
    by (auto simp: GetWebAuthnLoginSession_def simp del: print_value.simps)
  have peers: "pe_http (w_http passkey_world) = [Inr \<lparr>rp_status = 200, rp_body = Inr (print_value listed_json)\<rparr>,
      Inr \<lparr>rp_status = 200, rp_body = Inr []\<rparr>]" "rt_now (w_rt passkey_world) = 5" "w_svc passkey_world = ([], 0)"
    by (simp_all add: passkey_world_def local_world_def)
  let ?w1 = "passkey_world\<lparr>w_redis := s1\<rparr>"
  have "w_svc ?w1 = ([], 0)" by (simp add: peers)
  then obtain tok rt sv where t: "exec (getOrRefreshSvcJWT local_service) local_env ?w1 = (Inr tok, ?w1\<lparr>w_rt := rt, w_svc := sv\<rparr>)"
      and rt: "rt_now rt = rt_now (w_rt ?w1)"
    by (rule local_svc_exec)
  let ?w2 = "?w1\<lparr>w_rt := rt, w_svc := sv\<rparr>"
  let ?w3 = "?w2\<lparr>w_http := (w_http ?w2)\<lparr>pe_http := [Inr \<lparr>rp_status = 200, rp_body = Inr []\<rparr>]\<rparr>\<rparr>"
  have l: "exec (ListPasskeyCredentials http ''user-1'' tok) local_env ?w2 = (Inr [listed_descriptor], ?w3)"
    by (rule local_list) (simp_all add: peers http)
  obtain s2 where c: "exec (ClaimSession local_client ''login:ch-1'') local_env ?w3 = (Inr True, ?w3\<lparr>w_redis := s2\<rparr>)"
    using ttl.setnx_eq [OF g(2), of sessionClaimTTL "sessionClaimKey @ ''login:ch-1''" sentinel] stored(2) g(3)
    by (auto simp: ClaimSession_def sessionClaimTTL_def)
  have f: "\<exists>t. issued (fst (exec (finish_login local_service http tok ''ch-1'' stored_login [listed_descriptor] listed_credential 8)
      local_env (?w3\<lparr>w_redis := s2\<rparr>))) = Some t"
    by (rule local_finish) (simp_all add: peers http rt)
  have fin: "wl_FinishLogin local_webauthn (passkey_user u [listed_credential]) ''ch-1'' ''ch-1'' n = Inr listed_credential" for u n
    by (simp add: passkey_user_def)
  have ls: "wls_UserID stored_login = ''user-1''" "wls_SessionData stored_login = Some ''ch-1''"
    by (simp_all add: stored_login_def)
  have now: "env_now local_env (w_rt ?w3) = (5, w_rt ?w3)" "?w3\<lparr>w_rt := w_rt ?w3\<rparr> = ?w3" using rt peers(2) by simp_all
  have "\<exists>t. issued (fst (exec (complete_login local_webauthn local_service ''ch-1'' ''ch-1'' 8 stored_login) local_env ?w1)) = Some t"
    unfolding complete_login_def Let_def exec_call t prod.case sum.case http(1) option.case ls l listed_decoded exec.simps
      now fin local_service_fields append.simps c HOL.simp_thms if_False if_True using f by simp
  then show ?thesis
    unfolding PasskeyLoginCompleteHandler_def Let_def option.case raw exec_call local_webauthn_fields sum.case prod.case
      local_service_fields g(1) by simp
qed

section \<open>A registration\<close>

definition register_request :: http_in where
  "register_request = \<lparr>in_ContentType = ''application/json'', in_Authorization = [], in_RawQuery = [],
     in_Body = ''reg-1'', in_PathID = [], in_UserID = ''user-1'', in_Scopes = []\<rparr>"

definition register_world :: "(ttl_store, peers, runtime) world" where
  "register_world = local_world [''webauthn:reg:user-1'' \<mapsto> (print_value (JStr ''reg-1''), Some 300)]
     [Inr \<lparr>rp_status = 200, rp_body = Inr []\<rparr>] 5"

lemma local_create:
  assumes "pe_http (w_http w) = Inr \<lparr>rp_status = 200, rp_body = Inr []\<rparr> # rs"
    and "hc_CustomerBaseURL http = ''http://customer''"
  shows "exec (CreatePasskeyCredential http ''user-1'' tok d) local_env w = (None, w\<lparr>w_http := (w_http w)\<lparr>pe_http := rs\<rparr>\<rparr>)"
  unfolding CreatePasskeyCredential_def assms(2) by (rule local_send_reply [OF passkey_urls(1) assms(1)])

lemma passkey_registered:
  "\<exists>b. rs_Outcome (fst (exec (PasskeyRegisterCompleteHandler (Some local_webauthn) local_service register_request) local_env
    register_world)) = Reply 201 b"
proof -
  have ok: "ttl_ok (w_redis register_world)" by (simp add: register_world_def)
  have req: "passkeyUserID register_request = (''user-1'', ''user-1'', True)" "in_Body register_request = ''reg-1''"
    by (simp_all add: register_request_def passkeyUserID_def Let_def)
  obtain http where http: "sv_HttpClient local_service = Some http" "hc_CustomerBaseURL http = ''http://customer''"
    by (simp add: local_service_def)
  have stored: "ttl_live (w_redis register_world) (webauthnRegSessionKeyPrefix @ ''user-1'') = Some (print_value (JStr ''reg-1''))"
    "ttl_live (w_redis register_world) (sessionClaimKey @ ''reg:user-1'') = None"
    by (simp_all add: register_world_def local_world_def ttl_live_def webauthnRegSessionKeyPrefix_def sessionClaimKey_def del: print_value.simps)
  have read: "and_then (Unmarshal (print_value (JStr ''reg-1''))) (wl_session_of_json local_webauthn) = Inr ''reg-1''"
    "print_value (JStr ''reg-1'') \<noteq> []"
    by (simp add: Unmarshal_print to_valid_ascii del: print_value.simps) (simp add: quote_def)
  obtain s1 where g: "exec (GetWebAuthnRegistrationSession local_webauthn local_client ''user-1'') local_env register_world
      = (Inr ''reg-1'', register_world\<lparr>w_redis := s1\<rparr>)" "ttl_ok s1" "ttl_live s1 = ttl_live (w_redis register_world)"
    using ttl.get_eq [OF ok, of "webauthnRegSessionKeyPrefix @ ''user-1''"] stored(1) read
    by (auto simp: GetWebAuthnRegistrationSession_def simp del: print_value.simps)
  have peers: "pe_http (w_http register_world) = [Inr \<lparr>rp_status = 200, rp_body = Inr []\<rparr>]"
    "rt_now (w_rt register_world) = 5" "w_svc register_world = ([], 0)"
    by (simp_all add: register_world_def local_world_def)
  let ?w1 = "register_world\<lparr>w_redis := s1\<rparr>"
  have now: "env_now local_env (w_rt ?w1) = (5, w_rt ?w1)" "?w1\<lparr>w_rt := w_rt ?w1\<rparr> = ?w1" using peers(2) by simp_all
  obtain s2 where c: "exec (ClaimSession local_client ''reg:user-1'') local_env ?w1 = (Inr True, register_world\<lparr>w_redis := s2\<rparr>)"
    using ttl.setnx_eq [OF g(2), of sessionClaimTTL "sessionClaimKey @ ''reg:user-1''" sentinel] stored(2) g(3)
    by (auto simp: ClaimSession_def sessionClaimTTL_def)
  let ?w2 = "register_world\<lparr>w_redis := s2\<rparr>"
  have "w_svc ?w2 = ([], 0)" by (simp add: peers)
  then obtain tok rt sv where t: "exec (getOrRefreshSvcJWT local_service) local_env ?w2 = (Inr tok, ?w2\<lparr>w_rt := rt, w_svc := sv\<rparr>)"
    by (rule local_svc_exec)
  let ?w3 = "?w2\<lparr>w_rt := rt, w_svc := sv\<rparr>"
  obtain w4 where e: "exec (CreatePasskeyCredential http ''user-1'' tok d) local_env ?w3 = (None, w4)" for d
    using local_create [OF _ http(2), of ?w3 "[]"] peers(1) by simp
  obtain x w5 where del: "exec (DeleteWebAuthnRegistrationSession local_client ''user-1'') local_env w4 = (x, w5)" by fastforce
  have "\<exists>b. rs_Outcome (fst (exec (register_credential local_service ''user-1'' cr) local_env ?w1)) = Reply 201 b" for cr
    unfolding register_credential_def Let_def exec_call append.simps local_service_fields c prod.case sum.case HOL.simp_thms
      if_False t http(1) option.case e del by simp
  then show ?thesis
    unfolding PasskeyRegisterCompleteHandler_def Let_def option.case req prod.case HOL.simp_thms if_False exec_call
      local_service_fields g(1) sum.case exec.simps now local_webauthn_fields if_True by blast
qed

section \<open>The beginning of a login\<close>

definition begin_request :: http_in where
  "begin_request = local_request (JObj [(''client_id'', JStr ''orders''), (''email'', JStr ''A@b.c'')])"

definition begin_world :: "(ttl_store, peers, runtime) world" where
  "begin_world = local_world Map.empty
     [Inr \<lparr>rp_status = 200, rp_body = Inr (print_value (JObj [(''user_id'', JStr ''user-1'')]))\<rparr>,
      Inr \<lparr>rp_status = 200, rp_body = Inr (print_value listed_json)\<rparr>] 5"

lemma begin_decoded:
  "and_then (Decode (in_Body begin_request)) (PasskeyLoginBeginRequest_of_json local_sdk)
     = Inr \<lparr>lb_ClientId = ''orders'', lb_Email = ''A@b.c''\<rparr>"
  by (simp add: begin_request_def Decode_print maxNestingDepth_def to_valid_ascii PasskeyLoginBeginRequest_of_json_def
      struct_value_def field_email_def field_string_def members_of_def local_sdk_def fold_name_lower
      del: print_value.simps)

lemma local_credentials:
  assumes "pe_http (w_http w) = Inr \<lparr>rp_status = 200, rp_body = Inr (print_value (JObj [(''user_id'', JStr ''user-1'')]))\<rparr> # rs"
    and "hc_CustomerBaseURL http = ''http://customer''"
  shows "exec (GetUserCredentials http ''a@b.c'' tok) local_env w = (Inr (Some
      \<lparr>cred_AuthMethods = [], cred_EmailVerified = False, cred_PasswordHash = None, cred_UserId = ''user-1''\<rparr>),
      w\<lparr>w_http := (w_http w)\<lparr>pe_http := rs\<rparr>\<rparr>)"
  unfolding GetUserCredentials_def exec_call assms(2) local_get_reply [OF login_url assms(1)] prod.case sum.case
    login_reply by simp

lemma local_ceremony: "\<exists>bytes rt. exec (login_ceremony local_webauthn uid creds) local_env w =
    (Inr (JObj [(''challenge'', JStr bytes)], bytes), w\<lparr>w_rt := rt\<rparr>)"
  by (auto simp: login_ceremony_def local_env_def local_rand_read_def local_webauthn_def)

lemma passkey_begun:
  "\<exists>b. rs_Outcome (fst (exec (PasskeyLoginBeginHandler (Some local_webauthn) local_service begin_request) local_env
    begin_world)) = Reply 200 b"
proof -
  have ok: "ttl_ok (w_redis begin_world)" by (simp add: begin_world_def)
  obtain http where http: "sv_HttpClient local_service = Some http" "hc_CustomerBaseURL http = ''http://customer''"
    by (simp add: local_service_def)
  have peers: "pe_http (w_http begin_world) = [Inr \<lparr>rp_status = 200, rp_body = Inr (print_value (JObj [(''user_id'', JStr ''user-1'')]))\<rparr>,
      Inr \<lparr>rp_status = 200, rp_body = Inr (print_value listed_json)\<rparr>]" "w_svc begin_world = ([], 0)"
    by (simp_all add: begin_world_def local_world_def)
  obtain tok rt sv where t: "exec (getOrRefreshSvcJWT local_service) local_env begin_world = (Inr tok, begin_world\<lparr>w_rt := rt, w_svc := sv\<rparr>)"
    using peers(2) by (rule local_svc_exec)
  let ?w1 = "begin_world\<lparr>w_rt := rt, w_svc := sv\<rparr>"
  let ?cr = "\<lparr>cred_AuthMethods = [], cred_EmailVerified = False, cred_PasswordHash = None, cred_UserId = ''user-1''\<rparr>"
  let ?w2 = "?w1\<lparr>w_http := (w_http ?w1)\<lparr>pe_http := [Inr \<lparr>rp_status = 200, rp_body = Inr (print_value listed_json)\<rparr>]\<rparr>\<rparr>"
  let ?w3 = "?w2\<lparr>w_http := (w_http ?w2)\<lparr>pe_http := []\<rparr>\<rparr>"
  have c: "exec (GetUserCredentials http ''a@b.c'' tok) local_env ?w1 = (Inr (Some ?cr), ?w2)"
    by (rule local_credentials) (simp_all add: peers http)
  have l: "exec (ListPasskeyCredentials http ''user-1'' tok) local_env ?w2 = (Inr [listed_descriptor], ?w3)"
    by (rule local_list) (simp_all add: http)
  obtain bytes rt2 where b: "exec (login_ceremony local_webauthn ''user-1'' [listed_credential]) local_env ?w3 =
      (Inr (JObj [(''challenge'', JStr bytes)], bytes), ?w3\<lparr>w_rt := rt2\<rparr>)"
    using local_ceremony by blast
  let ?ls = "\<lparr>wls_SessionData = Some bytes, wls_UserID = ''user-1'', wls_Email = ''a@b.c'', wls_ClientID = ''orders''\<rparr>"
  have js: "LoginSession_to_json local_webauthn ?ls = Inr v \<Longrightarrow> \<exists>w4. exec (StoreWebAuthnLoginSession local_webauthn local_client
      bytes ?ls) local_env (?w3\<lparr>w_rt := rt2\<rparr>) = (None, w4)" for v
    using ttl.set_eq [of "w_redis begin_world" webauthnLoginSessionTTLSec "webauthnLoginSessionKeyPrefix @ bytes" "print_value v"] ok
    by (auto simp: StoreWebAuthnLoginSession_def webauthnLoginSessionTTLSec_def simp del: print_value.simps)
  obtain w4 where st: "exec (StoreWebAuthnLoginSession local_webauthn local_client bytes ?ls) local_env (?w3\<lparr>w_rt := rt2\<rparr>) = (None, w4)"
    using js by (simp add: LoginSession_to_json_def del: print_value.simps) blast
  have ne: "([listed_descriptor] = []) = False" by simp
  have "\<exists>b. rs_Outcome (fst (exec (begin_login local_webauthn local_service http tok ''user-1'' ''a@b.c'' ''orders'') local_env ?w2)) = Reply 200 b"
    unfolding begin_login_def Let_def exec_call l prod.case sum.case ne if_False listed_decoded b local_webauthn_fields local_service_fields st
      option.case by simp
  note begun = this
  have f: "sdk_ParseAddress local_sdk ''a@b.c'' = Inr ()" "snd (Registry_Get local_registry ''orders'') = True"
      "(''orders'' = []) = False" "(''user-1'' = []) = False"
    by (simp_all add: local_sdk_def Registry_Get_def local_registry_def)
  show ?thesis
    unfolding PasskeyLoginBeginHandler_def Let_def option.case local_service_fields begin_decoded sum.case prod.case
      PasskeyLoginBeginRequest.select_convs login_email exec_call f HOL.simp_thms if_False t http(1) c
      CredentialsResponse.select_convs by (rule begun)
qed

end
