(* ===== verification/PasskeyProps.thy ===== *)
theory PasskeyProps
  imports LocalPasskey
begin

text \<open>
  Concurrent passkey requests: a login session is used once under every interleaving of requests,
  and a user registers at most one passkey in each life of the registration claim.
\<close>

section \<open>Calls outside the cache\<close>

lemma always_no_redis: "no_redis p \<Longrightarrow> P EvOther \<Longrightarrow> always P p"
  by (induction p) auto

lemma needs_call: "(\<And>a. needs P R (k a)) \<Longrightarrow> needs P R (call p k)"
  by (induction p) auto

lemma no_redis_send: "no_redis (send_descriptor what meth url tok cred)"
  by (auto simp: send_descriptor_def split: sum.split)

lemma no_redis_passkey_calls:
  "no_redis (ListPasskeyCredentials http uid tok)" "no_redis (CreatePasskeyCredential http uid tok cred)"
  "no_redis (UpdatePasskeyCredential http uid tok cred)"
  by (auto simp: ListPasskeyCredentials_def CreatePasskeyCredential_def UpdatePasskeyCredential_def
      authorized_get_def no_redis_send intro!: no_redis_call split: sum.split)

lemma no_redis_ceremonies:
  "no_redis (registration_ceremony lib uid ds)" "no_redis (login_ceremony lib uid cs)" "no_redis (login_banned s email)"
  by (auto simp: registration_ceremony_def login_ceremony_def login_banned_def no_redis_banned_check
      intro!: no_redis_call split: sum.split option.split)

lemma no_redis_passkey_issue: "no_redis (passkey_issue s sub cid)"
  by (auto simp: passkey_issue_def respond_def Let_def intro!: no_redis_call no_redis_sign split: sum.split)

lemmas passkey_no_redis = no_redis_svc no_redis_user no_redis_passkey_calls no_redis_ceremonies no_redis_passkey_issue

section \<open>Claims\<close>

text \<open>Each handler sends the answer of its last step; only a won claim leads to tokens or to a registration.\<close>

definition login_claim :: "string \<Rightarrow> string" where
  "login_claim challenge = sessionClaimKey @ ''login:'' @ challenge"

definition reg_claim :: "string \<Rightarrow> string" where
  "reg_claim sub = sessionClaimKey @ ''reg:'' @ sub"

lemma webauthn_keys_distinct [simp]:
  "webauthnRegSessionKeyPrefix @ x \<noteq> sessionClaimKey @ y" "webauthnLoginSessionKeyPrefix @ x \<noteq> sessionClaimKey @ y"
  by (simp_all add: webauthnRegSessionKeyPrefix_def webauthnLoginSessionKeyPrefix_def sessionClaimKey_def)

lemma session_claim_safe:
  "always (claim_safe (sessionClaimKey @ x) b) (StoreWebAuthnRegistrationSession lib c u sd)"
  "always (claim_safe (sessionClaimKey @ x) b) (GetWebAuthnRegistrationSession lib c u)"
  "always (claim_safe (sessionClaimKey @ x) b) (DeleteWebAuthnRegistrationSession c u)"
  "always (claim_safe (sessionClaimKey @ x) b) (StoreWebAuthnLoginSession lib c ch ls)"
  "always (claim_safe (sessionClaimKey @ x) b) (GetWebAuthnLoginSession lib c ch)"
  "always (claim_safe (sessionClaimKey @ x) b) (DeleteWebAuthnLoginSession c ch)"
  "b < sessionClaimTTL \<Longrightarrow> always (claim_safe (sessionClaimKey @ x) b) (ClaimSession c y)"
  by (auto simp: StoreWebAuthnRegistrationSession_def GetWebAuthnRegistrationSession_def
      DeleteWebAuthnRegistrationSession_def StoreWebAuthnLoginSession_def GetWebAuthnLoginSession_def
      DeleteWebAuthnLoginSession_def ClaimSession_def webauthnRegSessionTTLSec_def webauthnLoginSessionTTLSec_def
      sessionClaimTTL_def split: sum.split)

lemma free_claim_safe: "no_redis p \<Longrightarrow> always (claim_safe K b) p"
  by (rule always_no_redis) simp_all

lemmas handler_claim_safe = always_call session_claim_safe passkey_no_redis [THEN free_claim_safe]

lemma respond_claim_safe: "always (claim_safe K b) (respond hs x)"
  by (simp add: respond_def)

lemma finish_login_claim_safe:
  "always (claim_safe (sessionClaimKey @ x) b) (finish_login s http tok ch ls existing cr n)"
  by (auto simp: finish_login_def respond_claim_safe intro!: handler_claim_safe split: sum.split option.split)

lemma complete_login_claim_safe:
  "b < sessionClaimTTL \<Longrightarrow> always (claim_safe (sessionClaimKey @ x) b) (complete_login lib s raw ch n ls)"
  by (auto simp: complete_login_def respond_claim_safe intro!: handler_claim_safe finish_login_claim_safe
      split: sum.split option.split)

lemma PasskeyLoginComplete_claim_safe:
  "b < sessionClaimTTL \<Longrightarrow> always (claim_safe (sessionClaimKey @ x) b) (PasskeyLoginCompleteHandler wa s req)"
  by (auto simp: PasskeyLoginCompleteHandler_def Let_def respond_claim_safe
      intro!: handler_claim_safe complete_login_claim_safe split: sum.split option.split)

lemma PasskeyLoginBegin_claim_safe:
  "always (claim_safe (sessionClaimKey @ x) b) (PasskeyLoginBeginHandler wa s req)"
  by (auto simp: PasskeyLoginBeginHandler_def begin_login_def Let_def respond_claim_safe
      intro!: handler_claim_safe split: sum.split option.split)

lemma PasskeyRegisterBegin_claim_safe:
  "always (claim_safe (sessionClaimKey @ x) b) (PasskeyRegisterBeginHandler wa s req)"
  by (auto simp: PasskeyRegisterBeginHandler_def Let_def passkeyUserID_def respond_claim_safe
      intro!: handler_claim_safe split: sum.split option.split)

lemma register_credential_claim_safe:
  "b < sessionClaimTTL \<Longrightarrow> always (claim_safe (sessionClaimKey @ x) b) (register_credential s sub cr)"
  by (auto simp: register_credential_def Let_def respond_claim_safe
      intro!: handler_claim_safe split: sum.split option.split)

lemma PasskeyRegisterComplete_claim_safe:
  "b < sessionClaimTTL \<Longrightarrow> always (claim_safe (sessionClaimKey @ x) b) (PasskeyRegisterCompleteHandler wa s req)"
  by (auto simp: PasskeyRegisterCompleteHandler_def Let_def passkeyUserID_def respond_claim_safe
      intro!: handler_claim_safe register_credential_claim_safe split: sum.split option.split)

text \<open>What a completion needs.\<close>

lemma claim_needs:
  assumes "\<And>err. needs (wins_claim (sessionClaimKey @ x)) R (k (Inl err))"
    and "needs (wins_claim (sessionClaimKey @ x)) R (k (Inr False))"
  shows "needs (wins_claim (sessionClaimKey @ x)) R (call (ClaimSession c x) k)"
proof -
  have "needs (wins_claim (sessionClaimKey @ x)) R (k (Inr v)) \<or> v" for v using assms(2) by (cases v) auto
  then show ?thesis using assms(1) by (auto simp: ClaimSession_def split: sum.split)
qed

lemmas login_claim_needs = claim_needs [where x = "''login:'' @ ch" for ch, folded login_claim_def]
lemmas reg_claim_needs = claim_needs [where x = "''reg:'' @ sub" for sub, folded reg_claim_def]

definition logged_in :: "response \<Rightarrow> bool" where
  "logged_in r \<longleftrightarrow> issued r \<noteq> None"

definition registration_done :: "response \<Rightarrow> bool" where
  "registration_done r \<longleftrightarrow> (case rs_Outcome r of Reply n b \<Rightarrow> n = 201 | _ \<Rightarrow> False)"

lemma needs_refusal:
  "needs P logged_in (respond hs (SendError e d))" "needs P registration_done (respond hs (SendError e d))"
  "needs P logged_in (respond hs nil_panic)" "needs P registration_done (respond hs nil_panic)"
  by (simp_all add: respond_def logged_in_def registration_done_def issued_def nil_panic_def)

text \<open>The challenge of a completion is the one in its body.\<close>

definition login_challenge :: "'s webauthn_lib \<Rightarrow> http_in \<Rightarrow> string res" where
  "login_challenge lib req = map_sum id fst (wl_ParseAssertion lib (take maxAssertionBodyBytes (in_Body req)))"

lemmas step_needs = needs_call [where p = "getOrRefreshSvcJWT s" for s]
  needs_call [where p = "ListPasskeyCredentials http u tok" for http u tok]
  needs_call [where p = "GetWebAuthnLoginSession lib c ch" for lib c ch]
  needs_call [where p = "GetWebAuthnRegistrationSession lib c u" for lib c u]

lemma complete_login_needs:
  "needs (wins_claim (login_claim ch)) logged_in (complete_login lib s raw ch n ls)"
  by (auto simp: complete_login_def simp del: append.simps intro!: step_needs needs_refusal login_claim_needs
      split: sum.split option.split)

lemma PasskeyLoginComplete_needs:
  assumes "login_challenge lib req = Inr ch"
  shows "needs (wins_claim (login_claim ch)) logged_in (PasskeyLoginCompleteHandler (Some lib) s req)"
  using assms
  by (auto simp: PasskeyLoginCompleteHandler_def login_challenge_def Let_def
      intro!: step_needs needs_refusal complete_login_needs split: sum.splits option.split)

lemma PasskeyRegisterComplete_needs:
  "needs (wins_claim (reg_claim (in_UserID req))) registration_done (PasskeyRegisterCompleteHandler wa s req)"
  by (auto simp: PasskeyRegisterCompleteHandler_def register_credential_def Let_def passkeyUserID_def
      simp del: append.simps intro!: step_needs needs_refusal reg_claim_needs split: sum.splits option.split)

section \<open>One login per challenge, one registration per user and window\<close>

text \<open>Concurrent passkey traffic: any mix of the four endpoints.\<close>

datatype passkey_call = RegisterBegin http_in | RegisterComplete http_in | LoginBegin http_in | LoginComplete http_in

fun serve :: "'s webauthn_lib \<Rightarrow> Service \<Rightarrow> passkey_call \<Rightarrow> response proc" where
  "serve lib s (RegisterBegin req) = PasskeyRegisterBeginHandler (Some lib) s req"
| "serve lib s (RegisterComplete req) = PasskeyRegisterCompleteHandler (Some lib) s req"
| "serve lib s (LoginBegin req) = PasskeyLoginBeginHandler (Some lib) s req"
| "serve lib s (LoginComplete req) = PasskeyLoginCompleteHandler (Some lib) s req"

lemma serve_claim_safe:
  "b < sessionClaimTTL \<Longrightarrow> always (claim_safe (sessionClaimKey @ x) b) (serve lib s q)"
  by (cases q) (simp_all add: PasskeyLoginComplete_claim_safe PasskeyLoginBegin_claim_safe
      PasskeyRegisterBegin_claim_safe PasskeyRegisterComplete_claim_safe)

context redis
begin

lemma one_winner:
  assumes "env_cache E = api"
    and run: "run_pool E elapse ss (map (serve lib s) qs) w = (tr, ps, w')"
    and "good_sched ss" and "time_of ss < sessionClaimTTL"
    and i: "i < length qs" "needs (wins_claim (sessionClaimKey @ x)) R (serve lib s (qs ! i))" "ps ! i = Ret a" "R a"
    and j: "j < length qs" "needs (wins_claim (sessionClaimKey @ x)) R (serve lib s (qs ! j))" "ps ! j = Ret b" "R b"
  shows "i = j"
proof -
  let ?K = "sessionClaimKey @ x"
  have safe: "list_all (\<lambda>x. claim_safe ?K (time_of ss) (snd x)) tr"
    using serve_claim_safe [OF assms(4)] by (intro run_pool_always [OF run]) auto
  obtain e1 where e1: "(i, e1) \<in> set tr" "wins_claim ?K e1"
    using run_pool_needs [OF run, of i "wins_claim ?K" R a] i by auto
  obtain e2 where e2: "(j, e2) \<in> set tr" "wins_claim ?K e2"
    using run_pool_needs [OF run, of j "wins_claim ?K" R b] j by auto
  have "length (filter (\<lambda>x. wins_claim ?K (snd x)) tr) \<le> 1"
    using claim_unique [OF assms(1) run safe assms(3)] by simp
  moreover have "(i, e1) \<in> set (filter (\<lambda>x. wins_claim ?K (snd x)) tr)"
    "(j, e2) \<in> set (filter (\<lambda>x. wins_claim ?K (snd x)) tr)"
    using e1 e2 by auto
  ultimately show "i = j"
    by (cases "filter (\<lambda>x. wins_claim ?K (snd x)) tr") auto
qed

end

lemma card_le_1:
  assumes "\<And>i j. i \<in> A \<Longrightarrow> j \<in> A \<Longrightarrow> i = j"
  shows "card A \<le> Suc 0"
proof (cases "A = {}")
  case False
  then obtain x where "x \<in> A" by blast
  then have "A = {x}" using assms by blast
  then show ?thesis by simp
qed simp

text \<open>C29: However any requests to the four passkey endpoints are interleaved within the claim's 300
  seconds, at most one of the login completions with the same challenge issues tokens.\<close>

theorem passkey_login_once:
  assumes "redis (env_cache E) live ttl elapse"
    and "run_pool E elapse ss (map (serve lib s) qs) w = (tr, ps, w')"
    and "good_sched ss" and "time_of ss < sessionClaimTTL"
  shows "card {i. i < length qs \<and> (\<exists>req r. qs ! i = LoginComplete req \<and> login_challenge lib req = Inr ch \<and>
    ps ! i = Ret r \<and> issued r \<noteq> None)} \<le> 1"
proof -
  have "i = j" if "i < length qs" "qs ! i = LoginComplete ri" "login_challenge lib ri = Inr ch" "ps ! i = Ret a"
      "issued a \<noteq> None" "j < length qs" "qs ! j = LoginComplete rj" "login_challenge lib rj = Inr ch"
      "ps ! j = Ret b" "issued b \<noteq> None" for i j ri rj a b
    by (rule redis.one_winner [OF assms(1) refl assms(2-4), where R = logged_in and x = "''login:'' @ ch" and a = a
          and b = b], fold login_claim_def) (simp_all add: that PasskeyLoginComplete_needs logged_in_def)
  then show ?thesis unfolding One_nat_def by (intro card_le_1) blast
qed

text \<open>Two completions of the same login, in lockstep.\<close>

definition lockstep :: "sched list" where
  "lockstep = concat (replicate 30 [Turn 0, Turn 1])"

lemma lockstep_good: "good_sched lockstep \<and> time_of lockstep = 0"
proof -
  have "good_sched (concat (replicate n [Turn 0, Turn 1])) \<and> time_of (concat (replicate n [Turn 0, Turn 1])) = 0" for n
    by (induction n) auto
  then show ?thesis by (simp add: lockstep_def)
qed

theorem passkey_login_once_witness:
  "card {i. i < length [LoginComplete passkey_request, LoginComplete passkey_request] \<and>
    (\<exists>req r. [LoginComplete passkey_request, LoginComplete passkey_request] ! i = LoginComplete req \<and>
      login_challenge local_webauthn req = Inr ''ch-1'' \<and>
      fst (snd (run_pool local_env ttl_elapse lockstep (map (serve local_webauthn local_service)
        [LoginComplete passkey_request, LoginComplete passkey_request]) passkey_world)) ! i = Ret r \<and>
      issued r \<noteq> None)} \<le> 1"
  using passkey_login_once [OF local_redis, of lockstep local_webauthn local_service
      "[LoginComplete passkey_request, LoginComplete passkey_request]" passkey_world _ _ _ "''ch-1''",
      OF prod.collapse [symmetric, THEN trans [OF _ arg_cong [OF prod.collapse [symmetric], of "Pair _"]]]]
    lockstep_good by (simp add: sessionClaimTTL_def)

text \<open>The claim of a registration is kept per user, not per ceremony, and is never given back:
  within 300 seconds of traffic at most one completion of a user's registrations succeeds,
  whatever sessions were begun in between.\<close>

theorem one_registration_per_window:
  assumes "redis (env_cache E) live ttl elapse"
    and "run_pool E elapse ss (map (serve lib s) qs) w = (tr, ps, w')"
    and "good_sched ss" and "time_of ss < sessionClaimTTL"
  shows "card {i. i < length qs \<and> (\<exists>req r. qs ! i = RegisterComplete req \<and> in_UserID req = u \<and>
    ps ! i = Ret r \<and> registration_done r)} \<le> 1"
proof -
  have "i = j" if "i < length qs" "qs ! i = RegisterComplete ri" "in_UserID ri = u" "ps ! i = Ret a"
      "registration_done a" "j < length qs" "qs ! j = RegisterComplete rj" "in_UserID rj = u"
      "ps ! j = Ret b" "registration_done b" for i j ri rj a b
    by (rule redis.one_winner [OF assms(1) refl assms(2-4), where R = registration_done and x = "''reg:'' @ u" and a = a
          and b = b], fold reg_claim_def)
      (simp_all add: that PasskeyRegisterComplete_needs [of ri, unfolded that] PasskeyRegisterComplete_needs [of rj, unfolded that])
  then show ?thesis unfolding One_nat_def by (intro card_le_1) blast
qed

theorem one_registration_per_window_witness:
  "card {i. i < length [RegisterComplete register_request, RegisterComplete register_request] \<and>
    (\<exists>req r. [RegisterComplete register_request, RegisterComplete register_request] ! i = RegisterComplete req \<and>
      in_UserID req = ''user-1'' \<and>
      fst (snd (run_pool local_env ttl_elapse lockstep (map (serve local_webauthn local_service)
        [RegisterComplete register_request, RegisterComplete register_request]) register_world)) ! i = Ret r \<and>
      registration_done r)} \<le> 1"
  using one_registration_per_window [OF local_redis, of lockstep local_webauthn local_service
      "[RegisterComplete register_request, RegisterComplete register_request]" register_world _ _ _ "''user-1''",
      OF prod.collapse [symmetric, THEN trans [OF _ arg_cong [OF prod.collapse [symmetric], of "Pair _"]]]]
    lockstep_good by (simp add: sessionClaimTTL_def)

end
