(* ===== verification/PasskeyFlowProps.thy ===== *)
theory PasskeyFlowProps
  imports PasskeyProps
begin

text \<open>
  Properties of the passkey flows: what a login and a registration that succeeded have checked
  and left behind, and that credentials and sessions come back unchanged from where they are kept.
\<close>

section \<open>Credentials come back\<close>

lemma encode_raw_chars:
  "list_all (\<lambda>b. b < 256) xs \<Longrightarrow> c \<in> set (b64_encode_raw u xs) \<Longrightarrow> c \<noteq> CHR 0x0A \<and> c \<noteq> CHR 0x0D \<and> c \<noteq> CHR ''=''"
  using b64_sextets_bound [of xs] b64_index_newline
  by (auto simp: encode_raw_eq_map list_all_iff dest!: b64_index_char [of _ u, THEN b64_index_newline, rotated] bspec)

lemma length_encode_raw: "length (b64_encode_raw u xs) mod 4 \<noteq> 1"
  by (induction u xs rule: b64_encode_raw.induct) auto

lemma strip_padded:
  assumes "\<forall>c \<in> set e. c \<noteq> CHR ''=''" and "length e mod 4 \<noteq> 1"
  shows "strip_padding (e @ replicate ((4 - length e mod 4) mod 4) CHR ''='') = Some e"
proof -
  consider "length e mod 4 = 0" | "length e mod 4 = 2" | "length e mod 4 = 3" using assms(2) by linarith
  then show ?thesis
  proof cases
    case 1
    then show ?thesis using assms(1) by (cases "e = []") (auto simp: strip_padding_def dest: last_in_set)
  next
    case 2
    then have "(length e + 2) mod 4 = 0" by presburger
    then show ?thesis using 2 assms(1)
      by (simp add: strip_padding_def butlast_append numeral_2_eq_2)
  next
    case 3
    then have "(length e + 1) mod 4 = 0" "e \<noteq> []" by (presburger, auto)
    then show ?thesis using 3 assms(1) by (auto simp: strip_padding_def)
  qed
qed

lemma Std_roundtrip: "base64_Std_DecodeString (base64_Std_EncodeToString bs) = Inr bs"
proof -
  let ?e = "b64_encode_raw False (map of_char bs)"
  have c: "\<forall>c \<in> set ?e. c \<noteq> CHR 0x0A \<and> c \<noteq> CHR 0x0D \<and> c \<noteq> CHR ''=''"
    using encode_raw_chars [OF of_char_bytes] by blast
  then have "strip_newlines (?e @ replicate n CHR ''='') = ?e @ replicate n CHR ''=''" for n
    by (auto simp: strip_newlines_def filter_id_conv)
  moreover have "strip_padding (?e @ replicate ((4 - length ?e mod 4) mod 4) CHR ''='') = Some ?e"
    using c length_encode_raw by (intro strip_padded) auto
  ultimately show ?thesis
    unfolding base64_Std_DecodeString_def base64_Std_EncodeToString_def Let_def
    using decode_encode_raw [OF of_char_bytes] map_char_of_char by simp
qed

lemma encode_ascii:
  "to_valid (base64_Std_EncodeToString bs) = base64_Std_EncodeToString bs"
  "to_valid (base64_RawURL_EncodeToString bs) = base64_RawURL_EncodeToString bs"
proof -
  have c: "(of_char (b64_char u i) :: nat) < 0x80" if "i < 64" for u i
    using that by (auto simp: b64_char_def of_char_of)
  have "is_ascii (b64_encode_raw u (map of_char (bs :: string)))" for u bs
    using b64_sextets_bound [OF of_char_bytes [of bs]] c
    by (auto simp: encode_raw_eq_map is_ascii_def list_all_iff)
  then show "to_valid (base64_Std_EncodeToString bs) = base64_Std_EncodeToString bs"
    "to_valid (base64_RawURL_EncodeToString bs) = base64_RawURL_EncodeToString bs"
    by (auto simp: base64_Std_EncodeToString_def base64_RawURL_EncodeToString_def Let_def is_ascii_valid
        intro!: is_ascii_valid simp: is_ascii_def list_all_iff)
qed

text \<open>A number as the printer writes it.\<close>

lemma format_nat_are_digits: "c \<in> set (format_nat n) \<Longrightarrow> char_digit c \<noteq> None"
  by (auto dest: format_nat_digits simp: char_digit_digit_char)

lemma format_nat_head: "0 < n \<Longrightarrow> \<exists>c cs. format_nat n = c # cs \<and> c \<noteq> CHR ''0''"
proof (induction n rule: format_nat.induct)
  case (1 n)
  show ?case
  proof (cases "n < 10")
    case True
    have "digit_char n \<noteq> CHR ''0''"
    proof
      assume "digit_char n = CHR ''0''"
      then have "(of_char (digit_char n) :: nat) = of_char (CHR ''0'')" by (rule arg_cong)
      then show False using True 1(2) by (simp add: digit_char_def of_char_of)
    qed
    then show ?thesis using True by (subst format_nat.simps) simp
  next
    case False
    then have "0 < n div 10" by simp
    then show ?thesis using 1(1) [OF False] False by (subst format_nat.simps) auto
  qed
qed

lemma scan_format: "scan_number (format_nat n) = Some (format_nat n, [])"
proof (cases "n = 0")
  case True
  then show ?thesis by (subst (1 2) format_nat.simps) (simp add: True, code_simp)
next
  case False
  then obtain c cs where c: "format_nat n = c # cs" "c \<noteq> CHR ''0''" using format_nat_head by blast
  have d: "list_all (\<lambda>c. char_digit c \<noteq> None) (c # cs)"
    using format_nat_are_digits [of _ n] c(1) by (auto simp: list_all_iff)
  then have "c \<noteq> CHR ''-''" by (auto simp: char_digit_def)
  moreover have "digits_of (c # cs) = (c # cs, [])"
    using d by (simp add: digits_of_def takeWhile_eq_all_conv dropWhile_eq_Nil_conv list_all_iff)
  ultimately show ?thesis
    using c by (simp add: scan_number_def scan_frac_def scan_exp_def)
qed

text \<open>What the service sends and lists again.\<close>

definition credential_ok :: "Credential \<Rightarrow> bool" where
  "credential_ok c \<longleftrightarrow> wc_SignCount c < 2 ^ 32 \<and> list_all (\<lambda>t. to_valid t = t) (wc_Transport c)"

lemma new_descriptor_ok: "credential_ok c \<Longrightarrow> descriptor_ok (new_descriptor c)"
  by (auto simp: credential_ok_def descriptor_ok_def new_descriptor_def encode_ascii)

lemma new_descriptor_json_ok:
  "credential_ok c \<Longrightarrow> 2 \<le> d \<Longrightarrow> json_ok d (Descriptor_to_json (new_descriptor c))"
  by (auto simp: credential_ok_def Descriptor_to_json_def new_descriptor_def encode_ascii to_valid_ascii
      omit_empty_def time_member_def strconv_Itoa_def scan_format list_all_iff)

lemma descriptors_map:
  "list_all descriptor_ok ds \<Longrightarrow> descriptors (map Descriptor_to_json ds) = Inr ds"
  by (induction ds) (auto simp: Descriptor_read)

lemma Std_empty: "base64_Std_EncodeToString bs = [] \<Longrightarrow> bs = []"
  using Std_roundtrip [of bs] by (simp add: base64_Std_DecodeString_def strip_newlines_def strip_padding_def b64_decode_raw_def)

lemma credential_of_new: "descriptor_credential (new_descriptor c) = Inr (c\<lparr>wc_CloneWarning := False\<rparr>)"
  using Std_empty [of "wc_AAGUID c"]
  by (auto simp: descriptor_credential_def new_descriptor_def RawURL_roundtrip Std_roundtrip)

lemma credentials_of_new:
  "descriptorsToCredentials (map new_descriptor cs) = Inr (map (\<lambda>c. c\<lparr>wc_CloneWarning := False\<rparr>) cs)"
  by (induction cs) (auto simp: credential_of_new)



section \<open>Logins\<close>

lemma respond_not_issued [simp]:
  "issued \<lparr>rs_Headers = hs, rs_Outcome = SendError e d\<rparr> = None"
  "issued \<lparr>rs_Headers = hs, rs_Outcome = nil_panic\<rparr> = None"
  by (simp_all add: issued_def nil_panic_def)

text \<open>The tokens of a login.\<close>

definition login_tokens :: "Service \<Rightarrow> 's WebAuthnLoginSession \<Rightarrow> TokenResponse \<Rightarrow> bool" where
  "login_tokens s ls t \<longleftrightarrow> ts_ExpiresIn t = otpTokenTTL \<and> ts_Scope t = Some passkeyLoginScope \<and>
     (\<exists>now. token_for s (ts_AccessToken t) (wls_UserID ls) audienceUser [] [] otpTokenTTL [passkeyLoginScope] now) \<and>
     (\<exists>rt fam now. ts_RefreshToken t = Some rt \<and>
        token_for s rt (wls_UserID ls) audienceUser (wls_ClientID ls) fam refreshTokenTTL [''offline_access''] now)"

lemma passkey_issue_tokens:
  assumes "exec (passkey_issue s (wls_UserID ls) (wls_ClientID ls)) E w = (r, w')" and "issued r = Some t"
  shows "login_tokens s ls t"
  using assms
  by (auto simp: passkey_issue_def Let_def exec_call login_tokens_def issued_def split: prod.splits sum.splits
      dest!: exec_s_SignToken [THEN conjunct1] exec_s_SignRefreshToken [THEN conjunct1]) (intro exI, assumption)+

lemma finish_login_issued:
  assumes "exec (finish_login s http tok ch ls existing cr n) E w = (r, w')" and "issued r = Some t"
  shows "\<exists>used u u'. time_text (fst (env_now E (w_rt w))) = Inr used \<and>
    exec (UpdatePasskeyCredential http (wls_UserID ls) tok (used_descriptor existing cr n used)) E u = (None, u') \<and>
    login_tokens s ls t"
  using assms
  by (auto simp: finish_login_def Let_def exec_call split: prod.splits sum.splits option.splits if_splits
      dest!: passkey_issue_tokens)

lemma finish_login_signs:
  assumes "exec (finish_login s http tok ch ls existing cr n) E w = (r, w')" and "issued r = Some t" and "clock_ok E clock"
  shows "\<exists>u. exec (passkey_issue s (wls_UserID ls) (wls_ClientID ls)) E u = (r, w') \<and> clock (w_rt w) \<le> clock (w_rt u)"
proof -
  obtain now rt where n: "env_now E (w_rt w) = (now, rt)" by fastforce
  obtain used where used: "time_text now = Inr used"
    using assms(1,2) n by (auto simp: finish_login_def Let_def exec_call split: sum.splits)
  obtain e u where u: "exec (UpdatePasskeyCredential http (wls_UserID ls) tok (used_descriptor existing cr n used)) E (w\<lparr>w_rt := rt\<rparr>) = (e, u)"
    by fastforce
  obtain x u1 where u1: "exec (DeleteWebAuthnLoginSession (sv_CacheClient s) ch) E u = (x, u1)" by fastforce
  obtain b u2 where u2: "exec (login_banned s (wls_Email ls)) E u1 = (b, u2)" by fastforce
  have "exec (passkey_issue s (wls_UserID ls) (wls_ClientID ls)) E u2 = (r, w')"
    using assms(1,2) n used u u1 u2 by (auto simp: finish_login_def Let_def exec_call split: option.splits if_splits)
  moreover have "clock (w_rt w) \<le> clock (w_rt u2)"
    using clock_now [OF assms(3) n] exec_clock_mono [OF assms(3) u] exec_clock_mono [OF assms(3) u1]
      exec_clock_mono [OF assms(3) u2] by simp
  ultimately show ?thesis by blast
qed

lemma getOrRefresh_redis:
  "exec (getOrRefreshSvcJWT s) E w = (t, w') \<Longrightarrow> w_redis w' = w_redis w"
  "exec (ListPasskeyCredentials http u tok) E w = (l, w') \<Longrightarrow> w_redis w' = w_redis w"
  by (rule exec_no_redis [OF no_redis_svc], assumption) (rule exec_no_redis [OF no_redis_passkey_calls(1)])

text \<open>What was checked before the session of a login was claimed.\<close>

definition login_checked ::
  "'s webauthn_lib \<Rightarrow> Service \<Rightarrow> ('r, 'h, 'c) env \<Rightarrow> string \<Rightarrow> 's WebAuthnLoginSession \<Rightarrow> HttpClient \<Rightarrow> string \<Rightarrow>
     PasskeyCredentialDescriptor list \<Rightarrow> Credential \<Rightarrow> bool" where
  "login_checked lib s E raw ls http tok existing cr \<longleftrightarrow> sv_HttpClient s = Some http \<and>
     (\<exists>v v' creds sd now. fst (exec (ListPasskeyCredentials http (wls_UserID ls) tok) E v) = Inr existing \<and>
        fst (exec (getOrRefreshSvcJWT s) E v') = Inr tok \<and>
        descriptorsToCredentials existing = Inr creds \<and> wls_SessionData ls = Some sd \<and>
        wl_FinishLogin lib (passkey_user (wls_UserID ls) creds) sd raw now = Inr cr)"

lemma complete_login_issued:
  assumes "exec (complete_login lib s raw ch n ls) E w = (r, w')" and "issued r = Some t"
  shows "\<exists>http tok existing cr v w1. login_checked lib s E raw ls http tok existing cr \<and>
    w_redis v = w_redis w \<and> exec (ClaimSession (sv_CacheClient s) (''login:'' @ ch)) E v = (Inr True, w1) \<and>
    (\<forall>clock. clock_ok E clock \<longrightarrow> clock (w_rt w) \<le> clock (w_rt w1)) \<and>
    exec (finish_login s http tok ch ls existing cr n) E w1 = (r, w')"
proof -
  obtain tok v1 where t: "exec (getOrRefreshSvcJWT s) E w = (Inr tok, v1)"
    using assms by (auto simp: complete_login_def exec_call split: prod.splits sum.splits)
  obtain http existing v2 where l: "sv_HttpClient s = Some http"
      "exec (ListPasskeyCredentials http (wls_UserID ls) tok) E v1 = (Inr existing, v2)"
    using assms t by (auto simp: complete_login_def exec_call split: prod.splits sum.splits option.splits)
  obtain creds sd now v3 cr where c: "descriptorsToCredentials existing = Inr creds" "wls_SessionData ls = Some sd"
      "env_now E (w_rt v2) = (now, v3)" "wl_FinishLogin lib (passkey_user (wls_UserID ls) creds) sd raw now = Inr cr"
    using assms t l by (auto simp: complete_login_def exec_call split: prod.splits sum.splits option.splits)
  obtain w1 where w1: "exec (ClaimSession (sv_CacheClient s) (''login:'' @ ch)) E (v2\<lparr>w_rt := v3\<rparr>) = (Inr True, w1)"
      "exec (finish_login s http tok ch ls existing cr n) E w1 = (r, w')"
    using assms t l c
    by (auto simp: complete_login_def exec_call simp del: append.simps split: prod.splits sum.splits if_splits)
  have "login_checked lib s E raw ls http tok existing cr"
    unfolding login_checked_def using t l c fst_conv by metis
  moreover have "clock (w_rt w) \<le> clock (w_rt w1)" if "clock_ok E clock" for clock
    using exec_clock_mono [OF that t] exec_clock_mono [OF that l(2)] clock_now [OF that c(3)] exec_clock_mono [OF that w1(1)]
    by simp
  ultimately show ?thesis
    using w1 getOrRefresh_redis(1) [OF t] getOrRefresh_redis(2) [OF l(2)] by (intro exI conjI) auto
qed

context kv_store
begin

lemma ClaimSession_won:
  assumes "env_cache E = api" and "exec (ClaimSession c x) E w = (Inr True, w')"
  shows "live (w_redis w) (sessionClaimKey @ x) = None \<and>
    live (w_redis w') = (live (w_redis w))(sessionClaimKey @ x \<mapsto> sentinel)"
proof -
  obtain b st where b: "op_SetNX (env_cache E) (sessionClaimKey @ x) sentinel sessionClaimTTL (w_redis w) = (b, st)"
    by fastforce
  have "0 < sessionClaimTTL" by (simp add: sessionClaimTTL_def)
  from setnx_law [OF this b [unfolded assms(1)]] show ?thesis
    using assms(2) b by (auto simp: ClaimSession_def split: if_splits sum.splits)
qed

end

text \<open>C28: A passkey login issues tokens only when the body is an assertion whose challenge names a
  stored login session, the WebAuthn library accepts the assertion for that session and the
  passkeys the customer API lists for the session's user, the challenge was not yet claimed, and
  the used credential was stored with the reported counter; the tokens are for the session's
  user, the refresh token is bound to the session's client.\<close>

theorem passkey_login_sound:
  assumes "kv_store (env_cache E) live"
    and "exec (PasskeyLoginCompleteHandler (Some lib) s req) E w = (r, w')" and "issued r = Some t"
  shows "\<exists>raw ch n stored ls http tok existing cr used u. raw = take maxAssertionBodyBytes (in_Body req) \<and>
    wl_ParseAssertion lib raw = Inr (ch, n) \<and>
    live (w_redis w) (webauthnLoginSessionKeyPrefix @ ch) = Some stored \<and>
    and_then (Unmarshal stored) (LoginSession_of_json lib) = Inr ls \<and>
    login_checked lib s E raw ls http tok existing cr \<and>
    live (w_redis w) (login_claim ch) = None \<and>
    fst (exec (UpdatePasskeyCredential http (wls_UserID ls) tok (used_descriptor existing cr n used)) E u) = None \<and>
    login_tokens s ls t"
proof -
  obtain raw where raw: "raw = take maxAssertionBodyBytes (in_Body req)" by blast
  obtain ch n where p: "wl_ParseAssertion lib raw = Inr (ch, n)"
    using assms(2,3) raw by (auto simp: PasskeyLoginCompleteHandler_def Let_def split: sum.splits)
  obtain ls w1 where g: "exec (GetWebAuthnLoginSession lib (sv_CacheClient s) ch) E w = (Inr ls, w1)"
      "exec (complete_login lib s raw ch n ls) E w1 = (r, w')"
    using assms(2,3) p by (auto simp: PasskeyLoginCompleteHandler_def Let_def raw [symmetric] exec_call split: prod.splits sum.splits if_splits)
  obtain http tok existing cr v w2 where c: "login_checked lib s E raw ls http tok existing cr" "w_redis v = w_redis w1"
      "exec (ClaimSession (sv_CacheClient s) (''login:'' @ ch)) E v = (Inr True, w2)"
      "exec (finish_login s http tok ch ls existing cr n) E w2 = (r, w')"
    using complete_login_issued [OF g(2) assms(3)] by (elim exE conjE) (rule that; assumption)
  obtain stored where st: "live (w_redis w) (webauthnLoginSessionKeyPrefix @ ch) = Some stored"
      "and_then (Unmarshal stored) (LoginSession_of_json lib) = Inr ls" "live (w_redis w1) = live (w_redis w)"
    using kv_store.GetWebAuthnLoginSession_value [OF assms(1) refl g(1)] by blast
  have cl: "live (w_redis w) (login_claim ch) = None"
    using kv_store.ClaimSession_won [OF assms(1) refl c(3)] c(2) st(3) unfolding login_claim_def by simp
  obtain used u u' where u: "exec (UpdatePasskeyCredential http (wls_UserID ls) tok (used_descriptor existing cr n used)) E u = (None, u')"
      "login_tokens s ls t"
    using finish_login_issued [OF c(4) assms(3)] by blast
  have "fst (exec (UpdatePasskeyCredential http (wls_UserID ls) tok (used_descriptor existing cr n used)) E u) = None"
    using u(1) by simp
  then show ?thesis using raw p st(1,2) c(1) cl u(2) by blast
qed

theorem passkey_login_sound_witness:
  "\<exists>t. issued (fst (exec (PasskeyLoginCompleteHandler (Some local_webauthn) local_service passkey_request) local_env
      passkey_world)) = Some t \<and>
    (\<exists>stored. ttl_live (w_redis passkey_world) (webauthnLoginSessionKeyPrefix @ ''ch-1'') = Some stored) \<and>
    (\<exists>ls. login_tokens local_service (ls :: string WebAuthnLoginSession) t)"
proof -
  obtain t where t: "issued (fst (exec (PasskeyLoginCompleteHandler (Some local_webauthn) local_service passkey_request) local_env
      passkey_world)) = Some t"
    using passkey_logged_in by blast
  have "take maxAssertionBodyBytes (in_Body passkey_request) = ''ch-1''"
    by (simp add: passkey_request_def maxAssertionBodyBytes_def)
  then show ?thesis
    using passkey_login_sound [OF local_kv_store prod.collapse [symmetric] t] t
    by (simp only: local_webauthn_fields local_service_fields) blast
qed

section \<open>Sessions come back\<close>

context kv_reliable
begin

lemma login_session_stored:
  assumes "env_cache E = api" and "cc_api c \<noteq> None" and "ok (w_redis w)" and "LoginSession_to_json lib ls = Inr v"
  shows "\<exists>st. exec (StoreWebAuthnLoginSession lib c ch ls) E w = (None, w\<lparr>w_redis := st\<rparr>) \<and> ok st \<and>
    live st = (live (w_redis w))(webauthnLoginSessionKeyPrefix @ ch \<mapsto> print_value v)"
  using set_eq [OF assms(3), of webauthnLoginSessionTTLSec "webauthnLoginSessionKeyPrefix @ ch" "print_value v"] assms(1,2,4)
  by (auto simp: StoreWebAuthnLoginSession_def webauthnLoginSessionTTLSec_def)

lemma login_session_loaded:
  assumes "env_cache E = api" and "cc_api c \<noteq> None" and "ok (w_redis w)"
    and "live (w_redis w) (webauthnLoginSessionKeyPrefix @ ch) = Some raw" and "raw \<noteq> []"
    and "and_then (Unmarshal raw) (LoginSession_of_json lib) = Inr ls"
  shows "fst (exec (GetWebAuthnLoginSession lib c ch) E w) = Inr ls"
  using get_eq [OF assms(3), of "webauthnLoginSessionKeyPrefix @ ch"] assms by (auto simp: GetWebAuthnLoginSession_def)

lemma login_session_kept:
  assumes "env_cache E = api" and "cc_api c \<noteq> None" and "ok (w_redis w)"
    and "session_codec lib sd" and "wls_SessionData ls = Some sd"
    and "to_valid (wls_UserID ls) = wls_UserID ls" and "to_valid (wls_Email ls) = wls_Email ls"
    and "to_valid (wls_ClientID ls) = wls_ClientID ls"
    and "exec (StoreWebAuthnLoginSession lib c ch ls) E w = (e, w1)"
  shows "e = None \<and> fst (exec (GetWebAuthnLoginSession lib c ch) E w1) = Inr ls"
proof -
  obtain v where v: "LoginSession_to_json lib ls = Inr v"
    using assms(4,5) by (auto simp: session_codec_def LoginSession_to_json_def)
  have r: "json_ok maxNestingDepth v \<and> LoginSession_of_json lib v = Inr ls \<and> print_value v \<noteq> []"
    by (rule LoginSession_read [OF assms(4,5) v assms(6-8)])
  obtain st where st: "exec (StoreWebAuthnLoginSession lib c ch ls) E w = (None, w\<lparr>w_redis := st\<rparr>)" "ok st"
    "live st = (live (w_redis w))(webauthnLoginSessionKeyPrefix @ ch \<mapsto> print_value v)"
    using login_session_stored [OF assms(1-3) v] by blast
  then show ?thesis
    using assms(9) r login_session_loaded [OF assms(1,2), of "w\<lparr>w_redis := st\<rparr>" ch "print_value v" lib ls]
    by (simp add: Unmarshal_print del: print_value.simps)
qed

end

text \<open>The session a login ceremony was begun with is the session its completion loads: what is
  stored under a challenge, user, e-mail address, client and the library's data, is read back.\<close>

theorem login_session_roundtrip:
  assumes "kv_reliable (env_cache E) live ok" and "cc_api c \<noteq> None" and "ok (w_redis w)"
    and "session_codec lib sd" and "wls_SessionData ls = Some sd"
    and "to_valid (wls_UserID ls) = wls_UserID ls" and "to_valid (wls_Email ls) = wls_Email ls"
    and "to_valid (wls_ClientID ls) = wls_ClientID ls"
    and "exec (StoreWebAuthnLoginSession lib c ch ls) E w = (e, w1)"
  shows "e = None \<and> fst (exec (GetWebAuthnLoginSession lib c ch) E w1) = Inr ls"
  by (rule kv_reliable.login_session_kept [OF assms(1) refl assms(2-)])

theorem login_session_roundtrip_witness:
  "fst (exec (GetWebAuthnLoginSession local_webauthn local_client ''ch-2'') local_env
      (snd (exec (StoreWebAuthnLoginSession local_webauthn local_client ''ch-2'' stored_login) local_env
        (local_world Map.empty [] 0)))) = Inr stored_login"
proof -
  have ls: "wls_SessionData stored_login = Some ''ch-1''" "to_valid (wls_UserID stored_login) = wls_UserID stored_login"
    "to_valid (wls_Email stored_login) = wls_Email stored_login"
    "to_valid (wls_ClientID stored_login) = wls_ClientID stored_login" "to_valid ''ch-1'' = ''ch-1''"
    by (simp_all add: stored_login_def to_valid_ascii)
  show ?thesis
    using login_session_roundtrip [OF local_kv_reliable local_client_api local_redis_ok local_session_codec [OF ls(5)] ls(1-4)
        prod.collapse [symmetric]] by blast
qed

section \<open>Registrations\<close>

lemma register_credential_done:
  assumes "exec (register_credential s sub cr) E w = (r, w')" and "registration_done r"
  shows "\<exists>w1 http tok u now. exec (ClaimSession (sv_CacheClient s) (''reg:'' @ sub)) E w = (Inr True, w1) \<and>
    sv_HttpClient s = Some http \<and>
    fst (exec (CreatePasskeyCredential http sub tok (new_descriptor cr)) E u) = None \<and>
    rs_Outcome r = Reply 201 (PasskeyBody (base64_RawURL_EncodeToString (wc_ID cr)) now)"
proof -
  obtain w1 where c: "exec (ClaimSession (sv_CacheClient s) (''reg:'' @ sub)) E w = (Inr True, w1)"
    using assms
    by (auto simp: register_credential_def Let_def exec_call registration_done_def simp del: append.simps
        split: prod.splits sum.splits if_splits)
  obtain tok w2 http where t: "exec (getOrRefreshSvcJWT s) E w1 = (Inr tok, w2)" "sv_HttpClient s = Some http"
    using assms c
    by (auto simp: register_credential_def Let_def exec_call registration_done_def nil_panic_def simp del: append.simps
        split: prod.splits sum.splits if_splits option.splits)
  obtain e w3 where e: "exec (CreatePasskeyCredential http sub tok (new_descriptor cr)) E w2 = (e, w3)" by fastforce
  have id: "pc_CredentialId (new_descriptor cr) = base64_RawURL_EncodeToString (wc_ID cr)" by (simp add: new_descriptor_def)
  have "e = None \<and> (\<exists>now. rs_Outcome r = Reply 201 (PasskeyBody (pc_CredentialId (new_descriptor cr)) now))"
    using assms c t e
    by (auto simp: register_credential_def Let_def exec_call registration_done_def simp del: append.simps
        split: prod.splits sum.splits if_splits option.splits)
  then show ?thesis using c t(2) e fst_conv unfolding id by metis
qed

lemma register_complete_creates:
  assumes "exec (PasskeyRegisterCompleteHandler wa s req) E w = (r, w')" and "registration_done r"
  shows "\<exists>http tok u cr. in_UserID req \<noteq> [] \<and>
    fst (exec (CreatePasskeyCredential http (in_UserID req) tok (new_descriptor cr)) E u) = None"
proof -
  obtain lib session w1 where g: "wa = Some lib" "in_UserID req \<noteq> []"
      "exec (GetWebAuthnRegistrationSession lib (sv_CacheClient s) (in_UserID req)) E w = (Inr session, w1)"
    using assms
    by (auto simp: PasskeyRegisterCompleteHandler_def passkeyUserID_def Let_def exec_call registration_done_def
        split: prod.splits sum.splits if_splits option.splits)
  obtain v cr where "exec (register_credential s (in_UserID req) cr) E v = (r, w')"
    using assms g
    by (auto simp: PasskeyRegisterCompleteHandler_def passkeyUserID_def Let_def exec_call registration_done_def
        split: prod.splits sum.splits if_splits)
  from register_credential_done [OF this assms(2)] g(2) show ?thesis by blast
qed

text \<open>A passkey is registered only for the session stored under the caller's own subject, after
  the WebAuthn library accepted the request for that session, while the caller's claim was free,
  and after the customer API took the new credential for the same subject; the answer is the
  credential's identifier.\<close>

theorem passkey_register_sound:
  assumes "kv_store (env_cache E) live"
    and "exec (PasskeyRegisterCompleteHandler (Some lib) s req) E w = (r, w')" and "registration_done r"
  shows "\<exists>stored session now cr http tok u now'. in_UserID req \<noteq> [] \<and>
    live (w_redis w) (webauthnRegSessionKeyPrefix @ in_UserID req) = Some stored \<and>
    and_then (Unmarshal stored) (wl_session_of_json lib) = Inr session \<and>
    wl_FinishRegistration lib (passkey_user (in_UserID req) []) session (in_Body req) now = Inr cr \<and>
    live (w_redis w) (reg_claim (in_UserID req)) = None \<and>
    fst (exec (CreatePasskeyCredential http (in_UserID req) tok (new_descriptor cr)) E u) = None \<and>
    rs_Outcome r = Reply 201 (PasskeyBody (base64_RawURL_EncodeToString (wc_ID cr)) now')"
proof -
  obtain session w1 where g: "in_UserID req \<noteq> []"
      "exec (GetWebAuthnRegistrationSession lib (sv_CacheClient s) (in_UserID req)) E w = (Inr session, w1)"
    using assms(2,3)
    by (auto simp: PasskeyRegisterCompleteHandler_def passkeyUserID_def Let_def exec_call registration_done_def
        split: prod.splits sum.splits if_splits)
  obtain now rt cr where f: "env_now E (w_rt w1) = (now, rt)"
      "wl_FinishRegistration lib (passkey_user (in_UserID req) []) session (in_Body req) now = Inr cr"
      "exec (register_credential s (in_UserID req) cr) E (w1\<lparr>w_rt := rt\<rparr>) = (r, w')"
    using assms(2,3) g
    by (auto simp: PasskeyRegisterCompleteHandler_def passkeyUserID_def Let_def exec_call registration_done_def
        split: prod.splits sum.splits if_splits)
  obtain w2 http tok u now' where c: "exec (ClaimSession (sv_CacheClient s) (''reg:'' @ in_UserID req)) E (w1\<lparr>w_rt := rt\<rparr>) = (Inr True, w2)"
      "fst (exec (CreatePasskeyCredential http (in_UserID req) tok (new_descriptor cr)) E u) = None"
      "rs_Outcome r = Reply 201 (PasskeyBody (base64_RawURL_EncodeToString (wc_ID cr)) now')"
    using register_credential_done [OF f(3) assms(3)] by blast
  obtain stored where st: "live (w_redis w) (webauthnRegSessionKeyPrefix @ in_UserID req) = Some stored"
      "and_then (Unmarshal stored) (wl_session_of_json lib) = Inr session" "live (w_redis w1) = live (w_redis w)"
    using kv_store.GetWebAuthnRegistrationSession_value [OF assms(1) refl g(2)] by blast
  have "live (w_redis w) (reg_claim (in_UserID req)) = None"
    using kv_store.ClaimSession_won [OF assms(1) refl c(1)] st(3) unfolding reg_claim_def by simp
  then show ?thesis using g(1) st(1,2) f(2) c(2,3) by blast
qed

theorem passkey_register_sound_witness:
  "\<exists>r. fst (exec (PasskeyRegisterCompleteHandler (Some local_webauthn) local_service register_request) local_env
      register_world) = r \<and> registration_done r \<and>
    (\<exists>stored. ttl_live (w_redis register_world) (webauthnRegSessionKeyPrefix @ in_UserID register_request) = Some stored)"
proof -
  let ?r = "fst (exec (PasskeyRegisterCompleteHandler (Some local_webauthn) local_service register_request) local_env
      register_world)"
  have "registration_done ?r" using passkey_registered by (auto simp: registration_done_def)
  then show ?thesis
    using passkey_register_sound [OF local_kv_store prod.collapse [symmetric], of local_webauthn local_service
        register_request register_world] by blast
qed

section \<open>Beginnings\<close>

lemma begin_login_answer:
  assumes "exec (begin_login lib s http tok uid email cid) E w = (r, w')" and "rs_Outcome r = Reply n b"
  shows "\<exists>existing creds now bytes assertion session v. existing \<noteq> [] \<and> descriptorsToCredentials existing = Inr creds \<and>
    wl_BeginLogin lib (passkey_user uid creds) ''VerificationRequired'' now bytes = Inr (assertion, session) \<and>
    fst (exec (ListPasskeyCredentials http uid tok) E w) = Inr existing \<and>
    exec (StoreWebAuthnLoginSession lib (sv_CacheClient s) (wl_Challenge lib session) \<lparr>wls_SessionData = Some session,
      wls_UserID = uid, wls_Email = email, wls_ClientID = cid\<rparr>) E v = (None, w') \<and> n = 200 \<and> b = JsonBody assertion"
proof -
  obtain existing w1 where l: "exec (ListPasskeyCredentials http uid tok) E w = (Inr existing, w1)"
    using assms by (auto simp: begin_login_def exec_call split: prod.splits sum.splits)
  obtain creds where c: "existing \<noteq> []" "descriptorsToCredentials existing = Inr creds"
    using assms l by (auto simp: begin_login_def exec_call split: if_splits sum.splits)
  obtain assertion session w2 where b: "exec (login_ceremony lib uid creds) E w1 = (Inr (assertion, session), w2)"
    using assms l c by (auto simp: begin_login_def exec_call split: prod.splits sum.splits)
  obtain now bytes where bl: "wl_BeginLogin lib (passkey_user uid creds) ''VerificationRequired'' now bytes = Inr (assertion, session)"
    using b by (auto simp: login_ceremony_def split: prod.splits sum.splits)
  show ?thesis
    using assms l c b bl by (auto simp: begin_login_def exec_call split: prod.splits option.splits) blast
qed

context kv_store
begin

lemma login_session_written:
  assumes "env_cache E = api" and "exec (StoreWebAuthnLoginSession lib c ch ls) E w = (None, w')"
  shows "\<exists>v. LoginSession_to_json lib ls = Inr v \<and> live (w_redis w') (webauthnLoginSessionKeyPrefix @ ch) = Some (print_value v)"
proof -
  obtain v where v: "LoginSession_to_json lib ls = Inr v" "cc_api c \<noteq> None"
    using assms(2) by (auto simp: StoreWebAuthnLoginSession_def split: if_splits sum.splits)
  obtain x st where b: "op_Set (env_cache E) (webauthnLoginSessionKeyPrefix @ ch) (print_value v) webauthnLoginSessionTTLSec
      (w_redis w) = (x, st)" by fastforce
  have "0 < webauthnLoginSessionTTLSec" by (simp add: webauthnLoginSessionTTLSec_def)
  from set_law [OF this b [unfolded assms(1)]] show ?thesis
    using assms(2) v b by (auto simp: StoreWebAuthnLoginSession_def split: sum.splits)
qed

end

text \<open>A passkey login begins only for a registered client and a known account with passkeys, and
  leaves under the ceremony's challenge exactly that account, address and client, so that the
  completion issues tokens for nobody else.\<close>

theorem passkey_login_begin_sound:
  assumes "kv_store (env_cache E) live"
    and "exec (PasskeyLoginBeginHandler (Some lib) s req) E w = (r, w')" and "rs_Outcome r = Reply n b"
  shows "\<exists>body email http tok v c existing creds now bytes assertion session js.
    and_then (Decode (in_Body req)) (PasskeyLoginBeginRequest_of_json (sv_sdk s)) = Inr body \<and>
    snd (Registry_Get (sv_ClientRegistry s) (lb_ClientId body)) \<and> email = normal_email (lb_Email body) \<and>
    fst (exec (GetUserCredentials http email tok) E v) = Inr (Some c) \<and> cred_UserId c \<noteq> [] \<and>
    existing \<noteq> [] \<and> descriptorsToCredentials existing = Inr creds \<and>
    wl_BeginLogin lib (passkey_user (cred_UserId c) creds) ''VerificationRequired'' now bytes = Inr (assertion, session) \<and>
    b = JsonBody assertion \<and>
    LoginSession_to_json lib \<lparr>wls_SessionData = Some session, wls_UserID = cred_UserId c, wls_Email = email,
      wls_ClientID = lb_ClientId body\<rparr> = Inr js \<and>
    live (w_redis w') (webauthnLoginSessionKeyPrefix @ wl_Challenge lib session) = Some (print_value js)"
proof -
  obtain body where d: "and_then (Decode (in_Body req)) (PasskeyLoginBeginRequest_of_json (sv_sdk s)) = Inr body"
    using assms(2,3) by (auto simp: PasskeyLoginBeginHandler_def Let_def split: sum.splits)
  define email where "email = normal_email (lb_Email body)"
  have reg: "snd (Registry_Get (sv_ClientRegistry s) (lb_ClientId body))"
    using assms(2,3) d by (auto simp: PasskeyLoginBeginHandler_def Let_def split: sum.splits if_splits)
  obtain tok w1 where t: "exec (getOrRefreshSvcJWT s) E w = (Inr tok, w1)"
    using assms(2,3) d by (auto simp: PasskeyLoginBeginHandler_def Let_def exec_call split: prod.splits sum.splits if_splits)
  obtain http where http: "sv_HttpClient s = Some http"
    using assms(2,3) d t
    by (auto simp: PasskeyLoginBeginHandler_def Let_def exec_call nil_panic_def split: sum.splits if_splits option.splits)
  obtain cr w2 where cr: "exec (GetUserCredentials http email tok) E w1 = (cr, w2)" by fastforce
  obtain c where c: "cr = Inr (Some c)" "cred_UserId c \<noteq> []"
      "exec (begin_login lib s http tok (cred_UserId c) email (lb_ClientId body)) E w2 = (r, w')"
    using assms(2,3) d t http cr
    by (auto simp: PasskeyLoginBeginHandler_def Let_def exec_call email_def [symmetric] split: sum.splits if_splits option.splits)
  obtain existing creds now bytes assertion session v where b: "existing \<noteq> []" "descriptorsToCredentials existing = Inr creds"
      "wl_BeginLogin lib (passkey_user (cred_UserId c) creds) ''VerificationRequired'' now bytes = Inr (assertion, session)"
      "exec (StoreWebAuthnLoginSession lib (sv_CacheClient s) (wl_Challenge lib session) \<lparr>wls_SessionData = Some session,
         wls_UserID = cred_UserId c, wls_Email = email, wls_ClientID = lb_ClientId body\<rparr>) E v = (None, w')" "b = JsonBody assertion"
    using begin_login_answer [OF c(3) assms(3)] by (elim exE conjE) (rule that; assumption)
  obtain js where js: "LoginSession_to_json lib \<lparr>wls_SessionData = Some session, wls_UserID = cred_UserId c, wls_Email = email,
      wls_ClientID = lb_ClientId body\<rparr> = Inr js"
      "live (w_redis w') (webauthnLoginSessionKeyPrefix @ wl_Challenge lib session) = Some (print_value js)"
    using kv_store.login_session_written [OF assms(1) refl b(4)] by blast
  have "fst (exec (GetUserCredentials http email tok) E w1) = Inr (Some c)" using cr c(1) by simp
  then show ?thesis using d reg email_def c(2) b(1-3,5) js by (intro exI conjI)
qed

theorem passkey_login_begin_sound_witness:
  "\<exists>assertion session js. rs_Outcome (fst (exec (PasskeyLoginBeginHandler (Some local_webauthn) local_service begin_request)
      local_env begin_world)) = Reply 200 (JsonBody assertion) \<and>
    ttl_live (w_redis (snd (exec (PasskeyLoginBeginHandler (Some local_webauthn) local_service begin_request)
      local_env begin_world))) (webauthnLoginSessionKeyPrefix @ session) = Some (print_value js)"
proof -
  obtain b where b: "rs_Outcome (fst (exec (PasskeyLoginBeginHandler (Some local_webauthn) local_service begin_request) local_env
      begin_world)) = Reply 200 b"
    using passkey_begun by blast
  then show ?thesis
    using passkey_login_begin_sound [OF local_kv_store prod.collapse [symmetric] b] by blast
qed

end
