(* ===== verification/EntryPoints.thy ===== *)
theory EntryPoints
  imports OAuthToken OtpEndpoints TokenEndpoints AuthorizeEndpoint InfoEndpoints PasskeyEndpoints
begin

text \<open>
  The two programs, \<open>cmd/public/main.go\<close> and \<open>cmd/private/main.go\<close>: the loading of secrets, the
  reload on rotation, the routes and the start. The SDK's secrets manager, middleware and
  constants are not in the repository: they are the fields of \<open>secrets_api\<close>,
  \<open>middleware_lib\<close> and \<open>sdk_names\<close>. Log output, the core-dump guard and the HTTP server
  itself are not modelled.
\<close>

section \<open>Names and secrets\<close>

text \<open>Constants of the SDK: names of secrets and environment variables, and one default.\<close>

record sdk_names =
  nm_JWT_PUBLIC_KEY :: string
  nm_JWT_PRIVATE_KEY :: string
  nm_JWT_AUDIENCE :: string
  nm_JWT_ISSUER :: string
  nm_JWT_KID :: string
  nm_IP_WHITELIST :: string
  nm_IP_BLACKLIST :: string
  nm_MAX_CONTENT_LENGTH :: string
  nm_IDEMPOTENCY_TTL_SEC :: string
  nm_RATE_LIMIT_RPS :: string
  nm_RATE_LIMIT_BURST :: string
  nm_BUCKET_TTL_SECOND :: string
  nm_AWS_REGION :: string
  nm_AWS_ENDPOINT :: string
  nm_AWS_SECRET_PATH :: string
  nm_PORT :: string
  nm_PORT_PRIVATE :: string
  nm_DEFAULT_IDEM_TTL_SEC :: int

definition AWS_ELASTICACHE_ENDPOINT :: string where "AWS_ELASTICACHE_ENDPOINT = ''AWS_ELASTICACHE_ENDPOINT''"
definition AWS_ELASTICACHE_PASSWORD :: string where "AWS_ELASTICACHE_PASSWORD = ''AWS_ELASTICACHE_PASSWORD''"
definition AWS_ELASTICACHE_DB :: string where "AWS_ELASTICACHE_DB = ''AWS_ELASTICACHE_DB''"
definition REGISTERED_CLIENTS :: string where "REGISTERED_CLIENTS = ''REGISTERED_CLIENTS''"
definition WEBAUTHN_RP_ID :: string where "WEBAUTHN_RP_ID = ''WEBAUTHN_RP_ID''"
definition WEBAUTHN_ORIGINS :: string where "WEBAUTHN_ORIGINS = ''WEBAUTHN_ORIGINS''"

definition private_secretKeys :: "sdk_names \<Rightarrow> string list" where
  "private_secretKeys N = [nm_JWT_PUBLIC_KEY N, nm_JWT_PRIVATE_KEY N, nm_JWT_AUDIENCE N, nm_JWT_ISSUER N, nm_JWT_KID N,
     REGISTERED_CLIENTS, AWS_ELASTICACHE_ENDPOINT, AWS_ELASTICACHE_PASSWORD, AWS_ELASTICACHE_DB]"

definition public_secretKeys :: "sdk_names \<Rightarrow> string list" where
  "public_secretKeys N = [nm_JWT_PUBLIC_KEY N, nm_JWT_PRIVATE_KEY N, nm_JWT_AUDIENCE N, nm_JWT_ISSUER N, nm_JWT_KID N,
     REGISTERED_CLIENTS, AWS_ELASTICACHE_ENDPOINT, AWS_ELASTICACHE_PASSWORD, AWS_ELASTICACHE_DB,
     WEBAUTHN_RP_ID, WEBAUTHN_ORIGINS]"

definition envPassthrough :: "sdk_names \<Rightarrow> string list" where
  "envPassthrough N = [nm_IP_WHITELIST N, nm_IP_BLACKLIST N, nm_MAX_CONTENT_LENGTH N, nm_IDEMPOTENCY_TTL_SEC N,
     nm_RATE_LIMIT_RPS N, nm_RATE_LIMIT_BURST N, nm_BUCKET_TTL_SECOND N]"

definition rotatingSecretNames :: "sdk_names \<Rightarrow> string list" where
  "rotatingSecretNames N = [nm_JWT_PRIVATE_KEY N, nm_JWT_PUBLIC_KEY N, nm_JWT_KID N, nm_JWT_ISSUER N,
     nm_JWT_AUDIENCE N, REGISTERED_CLIENTS]"

text \<open>A \<open>map[string]string\<close>; a missing entry reads as the empty string.\<close>

type_synonym secrets = "string \<rightharpoonup> string"

definition secret :: "secrets \<Rightarrow> string \<Rightarrow> string" where
  "secret m k = (case m k of None \<Rightarrow> [] | Some v \<Rightarrow> v)"

definition jwtConfig :: "sdk_names \<Rightarrow> secrets \<Rightarrow> JwtConfig" where
  "jwtConfig N m = \<lparr>PrivateKeyPEM = secret m (nm_JWT_PRIVATE_KEY N), PublicKeyPEM = secret m (nm_JWT_PUBLIC_KEY N),
     KID = secret m (nm_JWT_KID N), cfg_Issuer = secret m (nm_JWT_ISSUER N),
     cfg_Audience = secret m (nm_JWT_AUDIENCE N)\<rparr>"

section \<open>Loading\<close>

text \<open>
  The process: its environment variables, the retention of the idempotency store once it is set,
  and whether a secrets manager is open.
\<close>

record process =
  pr_env :: secrets
  pr_idem_ttl :: "int option"
  pr_sm_open :: bool

record SecretsConfig =
  sm_Region :: string
  sm_Endpoint :: string
  sm_SecretPath :: string
  sm_Keys :: "string list"

record secrets_api =
  sa_New :: "SecretsConfig \<Rightarrow> unit res"
  sa_GetSecrets :: "string list \<Rightarrow> secrets res"

record CacheClientConfig =
  ca_Endpoint :: string
  ca_Password :: string
  ca_DB :: string

record WebAuthnConfig =
  wn_RPID :: string
  wn_Origins :: string

record bootstrapResult =
  br_jwtKeys :: Keys
  br_clientRegistry :: Registry
  br_cacheConfig :: CacheClientConfig

record public_bootstrapResult = bootstrapResult +
  br_webAuthnConfig :: WebAuthnConfig

definition configureIdempotencyStore :: "sdk_names \<Rightarrow> process \<Rightarrow> process" where
  "configureIdempotencyStore N p =
     (let ttl = (case strconv_ParseInt (secret (pr_env p) (nm_IDEMPOTENCY_TTL_SEC N)) of
                   Inl err \<Rightarrow> nm_DEFAULT_IDEM_TTL_SEC N
                 | Inr n \<Rightarrow> if n \<le> 0 then nm_DEFAULT_IDEM_TTL_SEC N else n)
      in p\<lparr>pr_idem_ttl := Some ttl\<rparr>)"

text \<open>The loop over \<open>envPassthrough\<close> that copies secrets into the environment.\<close>

fun pass_through :: "string list \<Rightarrow> secrets \<Rightarrow> secrets \<Rightarrow> secrets" where
  "pass_through [] m env = env"
| "pass_through (k # ks) m env = pass_through ks m (case m k of None \<Rightarrow> env | Some v \<Rightarrow> env(k \<mapsto> v))"

definition secrets_config :: "sdk_names \<Rightarrow> secrets \<Rightarrow> string list \<Rightarrow> SecretsConfig" where
  "secrets_config N env keys = \<lparr>sm_Region = secret env (nm_AWS_REGION N), sm_Endpoint = secret env (nm_AWS_ENDPOINT N),
     sm_SecretPath = secret env (nm_AWS_SECRET_PATH N), sm_Keys = keys\<rparr>"

definition cache_config :: "secrets \<Rightarrow> CacheClientConfig" where
  "cache_config m = \<lparr>ca_Endpoint = secret m AWS_ELASTICACHE_ENDPOINT, ca_Password = secret m AWS_ELASTICACHE_PASSWORD,
     ca_DB = secret m AWS_ELASTICACHE_DB\<rparr>"

definition private_loadDependencies ::
  "jwt_lib \<Rightarrow> sdk_names \<Rightarrow> secrets_api \<Rightarrow> process \<Rightarrow> bootstrapResult res \<times> process" where
  "private_loadDependencies lib N sa p =
     (let smCfg = secrets_config N (pr_env p) (private_secretKeys N) in
      case sa_New sa smCfg of
        Inl err \<Rightarrow> (Inl (Wrapf ''failed to initialize secrets manager'' err), p)
      | Inr _ \<Rightarrow>
          (let opened = p\<lparr>pr_sm_open := True\<rparr>; closed = p\<lparr>pr_sm_open := False\<rparr> in
           case sa_GetSecrets sa (sm_Keys smCfg) of
             Inl err \<Rightarrow> (Inl (Wrapf ''failed to fetch secrets'' err), closed)
           | Inr m \<Rightarrow>
               (case NewKeys lib (jwtConfig N m) of
                  Inl err \<Rightarrow> (Inl (Wrapf ''failed to initialize jwt keys'' err), closed)
                | Inr keys \<Rightarrow>
                    (case NewRegistry (secret m REGISTERED_CLIENTS) of
                       Inl err \<Rightarrow> (Inl (Wrapf ''failed to load client registry'' err), closed)
                     | Inr registry \<Rightarrow>
                         (Inr \<lparr>br_jwtKeys = keys, br_clientRegistry = registry, br_cacheConfig = cache_config m\<rparr>, opened)))))"

definition public_loadDependencies ::
  "jwt_lib \<Rightarrow> sdk_names \<Rightarrow> secrets_api \<Rightarrow> process \<Rightarrow> public_bootstrapResult res \<times> process" where
  "public_loadDependencies lib N sa p =
     (let smCfg = secrets_config N (pr_env p) (public_secretKeys N @ envPassthrough N) in
      case sa_New sa smCfg of
        Inl err \<Rightarrow> (Inl (Wrapf ''failed to initialize secrets manager'' err), p)
      | Inr _ \<Rightarrow>
          (let p1 = p\<lparr>pr_sm_open := True\<rparr> in
           case sa_GetSecrets sa (sm_Keys smCfg) of
             Inl err \<Rightarrow> (Inl (Wrapf ''failed to fetch secrets'' err), p1\<lparr>pr_sm_open := False\<rparr>)
           | Inr m \<Rightarrow>
               (let p2 = configureIdempotencyStore N (p1\<lparr>pr_env := pass_through (envPassthrough N) m (pr_env p1)\<rparr>);
                    closed = p2\<lparr>pr_sm_open := False\<rparr> in
                case NewKeys lib (jwtConfig N m) of
                  Inl err \<Rightarrow> (Inl (Wrapf ''failed to initialize jwt keys'' err), closed)
                | Inr keys \<Rightarrow>
                    (case NewRegistry (secret m REGISTERED_CLIENTS) of
                       Inl err \<Rightarrow> (Inl (Wrapf ''failed to load client registry'' err), closed)
                     | Inr registry \<Rightarrow>
                         (Inr \<lparr>br_jwtKeys = keys, br_clientRegistry = registry, br_cacheConfig = cache_config m,
                            br_webAuthnConfig = \<lparr>wn_RPID = secret m WEBAUTHN_RP_ID, wn_Origins = secret m WEBAUTHN_ORIGINS\<rparr>\<rparr>,
                          p2)))))"

section \<open>Rotation\<close>

text \<open>The callback of \<open>Watch\<close>: keys and registry are reloaded each on its own.\<close>

definition on_rotation :: "jwt_lib \<Rightarrow> sdk_names \<Rightarrow> Keys \<times> Registry \<Rightarrow> secrets \<Rightarrow> Keys \<times> Registry" where
  "on_rotation lib N st m =
     (case st of (keys, registry) \<Rightarrow>
        (snd (Keys_Reload lib keys (jwtConfig N m)), snd (Registry_Reload registry (secret m REGISTERED_CLIENTS))))"

section \<open>Routes\<close>

text \<open>
  A handler, and the SDK's middleware: each wraps a handler, \<open>Chain\<close> puts the first of the list
  outermost, and \<open>Middleware\<close> authenticates with the given verifier.
\<close>

type_synonym handler = "http_in \<Rightarrow> response proc"

record middleware_lib =
  ml_RequestID :: "handler \<Rightarrow> handler"
  ml_Telemetry :: "handler \<Rightarrow> handler"
  ml_RateLimiter :: "handler \<Rightarrow> handler"
  ml_IPAccess :: "handler \<Rightarrow> handler"
  ml_CORS :: "handler \<Rightarrow> handler"
  ml_SecurityHeaders :: "handler \<Rightarrow> handler"
  ml_Normalization :: "handler \<Rightarrow> handler"
  ml_Sanitization :: "handler \<Rightarrow> handler"
  ml_RuleValidation :: "handler \<Rightarrow> handler"
  ml_Idempotency :: "handler \<Rightarrow> handler"
  ml_ClientType :: "handler \<Rightarrow> handler"
  ml_MaxContentLength :: "nat \<Rightarrow> handler \<Rightarrow> handler"
  ml_RequireAnyScope :: "string list \<Rightarrow> handler \<Rightarrow> handler"
  ml_Middleware :: "(string \<Rightarrow> auth_Claims res proc) \<Rightarrow> handler \<Rightarrow> handler"
  ml_HealthHandler :: handler

definition Chain :: "handler \<Rightarrow> (handler \<Rightarrow> handler) list \<Rightarrow> handler" where
  "Chain h ms = foldr (\<lambda>m. m) ms h"

definition PasskeyAuthMiddleware :: "middleware_lib \<Rightarrow> Service \<Rightarrow> handler \<Rightarrow> handler" where
  "PasskeyAuthMiddleware L s = ml_Middleware L (tokenVerifier_Verify s)"

text \<open>\<open>jwtVerifierAdapter\<close> of the private program; missing dates stay missing.\<close>

definition jwtVerifierAdapter_Verify :: "Service \<Rightarrow> string \<Rightarrow> auth_Claims res proc" where
  "jwtVerifierAdapter_Verify s token =
     call (s_ValidateAndParseClaims s token) (\<lambda>r.
       case r of
         Inl err \<Rightarrow> Ret (Inl (Wrapf ''failed to validate token'' err))
       | Inr claims \<Rightarrow> Ret (Inr
           \<lparr>au_Subject = cl_Subject claims, au_Audience = cl_Audience claims, au_Scopes = cl_Scopes claims,
            au_JTI = cl_ID claims, au_IssuedAt = cl_IssuedAt claims, au_ExpiresAt = cl_ExpiresAt claims,
            au_Issuer = cl_Issuer claims\<rparr>))"

definition readyMW :: "middleware_lib \<Rightarrow> (handler \<Rightarrow> handler) list" where
  "readyMW L = [ml_RequestID L, ml_Telemetry L]"

definition oauthMW :: "middleware_lib \<Rightarrow> (handler \<Rightarrow> handler) list" where
  "oauthMW L = [ml_RequestID L, ml_Telemetry L, ml_RateLimiter L, ml_IPAccess L, ml_CORS L, ml_SecurityHeaders L,
     ml_Normalization L, ml_Sanitization L, ml_RuleValidation L]"

definition passkeyMW :: "middleware_lib \<Rightarrow> Service \<Rightarrow> (handler \<Rightarrow> handler) list" where
  "passkeyMW L s = oauthMW L @
     [PasskeyAuthMiddleware L s, ml_RequireAnyScope L [''otp:verified'', ''passkey:verified'']]"

definition public_checks :: "Service \<Rightarrow> goerror option proc list" where
  "public_checks s = [Reachable (sv_CacheClient s)]
     @ (case sv_BannedReachability s of None \<Rightarrow> [] | Some b \<Rightarrow> [Banned_Reachable b])
     @ (case sv_HttpClient s of None \<Rightarrow> [] | Some h \<Rightarrow> [CommsReachable h, CustomerReachable h])"

text \<open>The routes of the public program, for the service that \<open>main\<close> made; \<open>sch\<close> schedules the goroutines of a verification.\<close>

definition public_newMux ::
  "middleware_lib \<Rightarrow> bool list \<Rightarrow> 's webauthn_lib option \<Rightarrow> Service \<Rightarrow> (string \<times> handler) list" where
  "public_newMux L sch wa s =
     (let withMaxBytes = ml_MaxContentLength L 0; otpRequestMW = oauthMW L @ [ml_Idempotency L] in
      [(''GET /health'', ml_HealthHandler L),
       (''GET /health/ready'', Chain (HealthReadyHandler (public_checks s)) (readyMW L)),
       (''GET /.well-known/jwks.json'', Chain (JWKSHandler s) (readyMW L)),
       (''POST /v1/oauth/token'', withMaxBytes (Chain (OAuthTokenHandler s) (oauthMW L))),
       (''GET /v1/oauth/authorize'', Chain (OAuthAuthorizeHandler s) (oauthMW L)),
       (''POST /v1/oauth/revoke'', withMaxBytes (Chain (OAuthRevokeHandler s) (oauthMW L))),
       (''POST /v1/otp/request'', withMaxBytes (Chain (OTPRequestHandler s) otpRequestMW)),
       (''POST /v1/otp/verify'', withMaxBytes (Chain (OTPVerifyHandler sch s) (oauthMW L))),
       (''POST /v1/passkeys/register/begin'', withMaxBytes (Chain (PasskeyRegisterBeginHandler wa s) (passkeyMW L s))),
       (''POST /v1/passkeys/register/complete'', withMaxBytes (Chain (PasskeyRegisterCompleteHandler wa s) (passkeyMW L s))),
       (''POST /v1/passkeys/login/begin'', withMaxBytes (Chain (PasskeyLoginBeginHandler wa s) (oauthMW L))),
       (''POST /v1/passkeys/login/complete'', withMaxBytes (Chain (PasskeyLoginCompleteHandler wa s) (oauthMW L)))])"

definition private_checks :: "Service \<Rightarrow> goerror option proc list" where
  "private_checks s = [Reachable (sv_CacheClient s)]"

definition private_newMux :: "middleware_lib \<Rightarrow> Service \<Rightarrow> (string \<times> handler) list" where
  "private_newMux L s =
     (let internalMW = [ml_RequestID L, ml_Telemetry L];
          authMW = (if sv_JWT s \<noteq> None then ml_Middleware L (jwtVerifierAdapter_Verify s) else (\<lambda>next. next));
          clientMW = internalMW @ [ml_ClientType L, authMW] in
      [(''GET /health'', ml_HealthHandler L),
       (''GET /health/ready'', Chain (HealthReadyHandler (private_checks s)) internalMW),
       (''POST /v1/oauth/introspect'', Chain (OAuthIntrospectHandler s) clientMW),
       (''POST /v1/token/validate'', Chain (ValidateTokenHandler s) internalMW),
       (''GET /v1/clients'', Chain (ListClientsHandler s) clientMW),
       (''GET /v1/clients/{id}'', Chain (GetClientHandler s) clientMW)])"

section \<open>Start\<close>

text \<open>\<open>clients.New\<close> and \<open>db.New\<close>; what the SDK's constructors answer is given.\<close>

definition Clients_New :: "unit option \<Rightarrow> string \<Rightarrow> string \<Rightarrow> HttpClient res" where
  "Clients_New sdk_client comms customer =
     (case sdk_client of
        None \<Rightarrow> Inl (Errorf ''failed to create http client'')
      | Some _ \<Rightarrow> Inr \<lparr>hc_CommsBaseURL = comms, hc_CustomerBaseURL = customer\<rparr>)"

definition db_New :: "(string \<Rightarrow> string \<Rightarrow> string \<Rightarrow> unit res) \<Rightarrow> CacheClientConfig \<Rightarrow> CacheClient res" where
  "db_New ec cfg =
     (case ec (ca_Endpoint cfg) (ca_Password cfg) (ca_DB cfg) of
        Inl err \<Rightarrow> Inl (Wrapf ''failed to connect to cache'' err)
      | Inr _ \<Rightarrow> Inr \<lparr>cc_api = Some ()\<rparr>)"

text \<open>The constructors of the SDK and of the WebAuthn library that the programs call.\<close>

record 'w sdk_new =
  sn_HttpClient :: "unit option"
  sn_ElastiCache :: "string \<Rightarrow> string \<Rightarrow> string \<Rightarrow> unit res"
  sn_DynamoDB :: "string \<Rightarrow> string \<Rightarrow> unit res"
  sn_WebAuthn :: "rp_config \<Rightarrow> 'w res"

text \<open>
  The body of \<open>main\<close> up to the serving of requests: a fatal error, or the service and (public) the
  relying party. \<open>HealthProbe\<close> is what both programs do instead with the argument \<open>-healthcheck\<close>.
\<close>

definition public_main ::
  "jwt_lib \<Rightarrow> sdk \<Rightarrow> sdk_names \<Rightarrow> secrets_api \<Rightarrow> 'w sdk_new \<Rightarrow> process \<Rightarrow> (Service \<times> 'w) res \<times> process" where
  "public_main lib S N sa C p =
     (case public_loadDependencies lib N sa p of
        (Inl err, p') \<Rightarrow> (Inl (Wrapf ''failed to bootstrap auth api (public)'' err), p')
      | (Inr deps, p') \<Rightarrow>
          (case sn_DynamoDB C (secret (pr_env p') (nm_AWS_REGION N)) (secret (pr_env p') (nm_AWS_ENDPOINT N)) of
             Inl err \<Rightarrow> (Inl (Wrapf ''failed to initialize dynamodb client'' err), p')
           | Inr ddb \<Rightarrow>
               (case WebAuthn_New (sn_WebAuthn C) (wn_RPID (br_webAuthnConfig deps)) (wn_Origins (br_webAuthnConfig deps)) of
                  Inl err \<Rightarrow> (Inl (Wrapf ''failed to initialize webauthn relying party'' err), p')
                | Inr wa \<Rightarrow>
                    (case NewService lib S
                       \<lparr>sc_HttpClient = Clients_New (sn_HttpClient C) (secret (pr_env p') ''COMMUNICATIONS_API_URL'')
                          (secret (pr_env p') ''CUSTOMER_API_PRIVATE_URL''),
                        sc_CacheClient = Some (db_New (sn_ElastiCache C) (br_cacheConfig deps)),
                        sc_BannedCustomers = Some (secret (pr_env p') ''BANNED_CUSTOMERS_TABLE'', Some ddb),
                        sc_JWT = Some (br_jwtKeys deps), sc_ClientRegistry = Some (br_clientRegistry deps),
                        sc_AuthCodeGrantEnabled = (secret (pr_env p') ''ENABLE_AUTH_CODE_GRANT'' = ''true'')\<rparr> of
                       Inl err \<Rightarrow> (Inl (Wrapf ''failed to initialize auth-api service'' err), p')
                     | Inr svc \<Rightarrow> (Inr (svc, wa), p')))))"

definition private_main ::
  "jwt_lib \<Rightarrow> sdk \<Rightarrow> sdk_names \<Rightarrow> secrets_api \<Rightarrow> 'w sdk_new \<Rightarrow> process \<Rightarrow> Service res \<times> process" where
  "private_main lib S N sa C p =
     (case private_loadDependencies lib N sa p of
        (Inl err, p') \<Rightarrow> (Inl (Wrapf ''failed to bootstrap auth api (private)'' err), p')
      | (Inr deps, p') \<Rightarrow>
          (case NewService lib S
             \<lparr>sc_HttpClient = Clients_New (sn_HttpClient C) [] [],
              sc_CacheClient = Some (db_New (sn_ElastiCache C) (br_cacheConfig deps)),
              sc_BannedCustomers = None, sc_JWT = Some (br_jwtKeys deps),
              sc_ClientRegistry = Some (br_clientRegistry deps), sc_AuthCodeGrantEnabled = False\<rparr> of
             Inl err \<Rightarrow> (Inl (Wrapf ''failed to initialize auth-api service'' err), p')
           | Inr svc \<Rightarrow> (Inr svc, p')))"

definition run_args :: "string list \<Rightarrow> string \<Rightarrow> int proc option" where
  "run_args args port =
     (if 1 < length args \<and> args ! 1 = ''-healthcheck'' then Some (HealthProbe port) else None)"

end
