(* ===== verification/EntryProps.thy ===== *)
theory EntryProps
  imports EntryPoints PasskeyFlowProps ClientProps KeyProps
begin

text \<open>
  Properties of the two programs: what a start that succeeds guarantees, through any rotations;
  readiness; and what two programs that reload at different times do with each other's tokens.
\<close>

section \<open>Start and rotation\<close>

definition rotations :: "jwt_lib \<Rightarrow> sdk_names \<Rightarrow> secrets list \<Rightarrow> Keys \<times> Registry \<Rightarrow> Keys \<times> Registry" where
  "rotations lib N ms st = fold (\<lambda>m st. on_rotation lib N st m) ms st"

lemma rotations_apart:
  "rotations lib N ms (k, r) =
     (reloads lib k (map (jwtConfig N) ms), reload_all r (map (\<lambda>m. secret m REGISTERED_CLIENTS) ms))"
  by (induction ms arbitrary: k r) (simp_all add: rotations_def on_rotation_def reload_all_def)

lemma Reload_keeps_ptr: "reg_ptr r \<noteq> None \<Longrightarrow> reg_ptr (snd (Registry_Reload r raw)) \<noteq> None"
  by (auto simp: Registry_Reload_def split: sum.split)

lemma reload_all_ptr: "reg_ptr r \<noteq> None \<Longrightarrow> reg_ptr (reload_all r raws) \<noteq> None"
  by (induction raws arbitrary: r) (simp_all add: reload_all_def Reload_keeps_ptr del: not_None_eq)

lemma NewRegistry_ptr: "NewRegistry raw = Inr r \<Longrightarrow> reg_ptr r \<noteq> None"
  by (auto simp: NewRegistry_def Registry_Reload_def split: prod.splits option.splits sum.splits if_splits)

lemma public_deps:
  assumes "public_loadDependencies lib N sa p = (Inr deps, p')"
  shows "keys_ready (br_jwtKeys deps) \<and> reg_ptr (br_clientRegistry deps) \<noteq> None \<and> pr_sm_open p' \<and>
    (\<exists>n. pr_idem_ttl p' = Some n \<and> (0 < nm_DEFAULT_IDEM_TTL_SEC N \<longrightarrow> 0 < n))"
  using assms
  by (auto simp: public_loadDependencies_def Let_def configureIdempotencyStore_def split: sum.splits if_splits
      dest: NewKeys_ready NewRegistry_ptr)

text \<open>A failed start leaves no secrets manager open.\<close>

lemma failed_start_closes:
  assumes "public_loadDependencies lib N sa p = (Inl err, p')" and "\<not> pr_sm_open p"
  shows "\<not> pr_sm_open p'"
  using assms by (auto simp: public_loadDependencies_def Let_def split: sum.splits)

text \<open>C39: A public program that starts has a service with no nil part: an HTTP client, a cache, the
  banned-customer checks, a signing key, a parsed client registry, and a relying party with an ID
  and origins; through any sequence of rotations, good or bad, keys and registry stay usable, and
  each is that of its own last good secrets.\<close>

theorem started_service_complete:
  assumes "public_main lib S N sa C p = (Inr (s, wa), p')"
  shows "\<exists>k r rpid origins. sv_JWT s = Some k \<and> sv_ClientRegistry s = Some r \<and> sv_HttpClient s \<noteq> None \<and>
    cc_api (sv_CacheClient s) \<noteq> None \<and> sv_BannedChecker s \<noteq> None \<and> sv_BannedReachability s = sv_BannedChecker s \<and>
    rpid \<noteq> [] \<and> rp_origins origins \<noteq> [] \<and> WebAuthn_New (sn_WebAuthn C) rpid origins = Inr wa \<and> pr_sm_open p' \<and>
    (\<forall>ms. keys_ready (fst (rotations lib N ms (k, r))) \<and> reg_ptr (snd (rotations lib N ms (k, r))) \<noteq> None \<and>
      registered (Some (snd (rotations lib N ms (k, r)))) =
        (case filter (\<lambda>raw. parses raw \<noteq> None) (rev (map (\<lambda>m. secret m REGISTERED_CLIENTS) ms)) of
           [] \<Rightarrow> registered (Some r) | raw # _ \<Rightarrow> the (parses raw)))"
proof -
  obtain deps where d: "public_loadDependencies lib N sa p = (Inr deps, p')"
    using assms by (auto simp: public_main_def split: prod.splits sum.splits)
  define rpid origins where "rpid = wn_RPID (br_webAuthnConfig deps)" and "origins = wn_Origins (br_webAuthnConfig deps)"
  have wa: "WebAuthn_New (sn_WebAuthn C) rpid origins = Inr wa"
    using assms d by (auto simp: public_main_def rpid_def origins_def split: sum.splits)
  then have w: "rpid \<noteq> []" "rp_origins origins \<noteq> []"
    by (auto simp: WebAuthn_New_def split: if_splits)
  have s: "sv_JWT s = Some (br_jwtKeys deps)" "sv_ClientRegistry s = Some (br_clientRegistry deps)" "sv_HttpClient s \<noteq> None"
      "cc_api (sv_CacheClient s) \<noteq> None" "sv_BannedChecker s \<noteq> None" "sv_BannedReachability s = sv_BannedChecker s"
    using assms d by (auto simp: public_main_def NewService_def Let_def db_New_def split: sum.splits)
  note deps = public_deps [OF d]
  have "keys_ready (fst (rotations lib N ms (br_jwtKeys deps, br_clientRegistry deps)))"
    "reg_ptr (snd (rotations lib N ms (br_jwtKeys deps, br_clientRegistry deps))) \<noteq> None" for ms
    using deps by (simp_all add: rotations_apart reloads_ready reload_all_ptr)
  then show ?thesis using s w wa deps rotations_apart reload_all_last_good by (intro exI conjI allI) auto
qed

text \<open>A start of the public program.\<close>

definition local_names :: sdk_names where
  "local_names = \<lparr>nm_JWT_PUBLIC_KEY = ''JWT_PUBLIC_KEY'', nm_JWT_PRIVATE_KEY = ''JWT_PRIVATE_KEY'',
     nm_JWT_AUDIENCE = ''JWT_AUDIENCE'', nm_JWT_ISSUER = ''JWT_ISSUER'', nm_JWT_KID = ''JWT_KID'',
     nm_IP_WHITELIST = ''a'', nm_IP_BLACKLIST = ''b'', nm_MAX_CONTENT_LENGTH = ''c'', nm_IDEMPOTENCY_TTL_SEC = ''d'',
     nm_RATE_LIMIT_RPS = ''e'', nm_RATE_LIMIT_BURST = ''f'', nm_BUCKET_TTL_SECOND = ''g'', nm_AWS_REGION = ''h'',
     nm_AWS_ENDPOINT = ''i'', nm_AWS_SECRET_PATH = ''j'', nm_PORT = ''PORT'', nm_PORT_PRIVATE = ''PORT_PRIVATE'',
     nm_DEFAULT_IDEM_TTL_SEC = 300\<rparr>"

definition local_secrets :: secrets where
  "local_secrets = [''JWT_PUBLIC_KEY'' \<mapsto> ''pem'', ''JWT_PRIVATE_KEY'' \<mapsto> ''pem'', ''JWT_KID'' \<mapsto> ''k1'',
     ''REGISTERED_CLIENTS'' \<mapsto> print_value (JObj []), ''WEBAUTHN_RP_ID'' \<mapsto> ''example.org'',
     ''WEBAUTHN_ORIGINS'' \<mapsto> '' https://example.org, '']"

definition local_new :: "string webauthn_lib sdk_new" where
  "local_new = \<lparr>sn_HttpClient = Some (), sn_ElastiCache = (\<lambda>e p d. Inr ()), sn_DynamoDB = (\<lambda>r e. Inr ()),
     sn_WebAuthn = (\<lambda>cfg. Inr local_webauthn)\<rparr>"

definition local_start :: "(Service \<times> string webauthn_lib) res \<times> process" where
  "local_start = public_main local_jwt local_sdk local_names \<lparr>sa_New = (\<lambda>c. Inr ()), sa_GetSecrets = (\<lambda>ks. Inr local_secrets)\<rparr>
     local_new \<lparr>pr_env = Map.empty, pr_idem_ttl = None, pr_sm_open = False\<rparr>"

lemma local_started: "\<exists>s wa p'. local_start = (Inr (s, wa), p')"
proof -
  have o: "rp_origins '' https://example.org, '' = [''https://example.org'']" by code_simp
  have r: "\<exists>r. NewRegistry (print_value (JObj [])) = Inr r"
    by (simp add: NewRegistry_def Registry_Reload_def Unmarshal_print maxNestingDepth_def clients_of_json_def del: print_value.simps)
      (simp add: clients_of_json_def)
  then obtain reg where reg: "NewRegistry (print_value (JObj [])) = Inr reg" by blast
  have sec: "secret local_secrets ''REGISTERED_CLIENTS'' = print_value (JObj [])" "secret local_secrets ''WEBAUTHN_ORIGINS'' = '' https://example.org, ''"
    "secret local_secrets ''WEBAUTHN_RP_ID'' = ''example.org''" "secret local_secrets ''JWT_PUBLIC_KEY'' = ''pem''"
    "secret local_secrets ''JWT_PRIVATE_KEY'' = ''pem''"
    by (simp_all add: local_secrets_def secret_def del: print_value.simps)
  have keys: "\<exists>k. NewKeys local_jwt (jwtConfig local_names local_secrets) = Inr k"
    using sec by (simp add: NewKeys_def parse_keys_def jwtConfig_def local_names_def local_jwt_def)
  then obtain k where k: "NewKeys local_jwt (jwtConfig local_names local_secrets) = Inr k" by blast
  show ?thesis
    by (simp add: local_start_def public_main_def public_loadDependencies_def Let_def k REGISTERED_CLIENTS_def WEBAUTHN_RP_ID_def
        WEBAUTHN_ORIGINS_def sec reg local_new_def WebAuthn_New_def o NewService_def Clients_New_def db_New_def
        del: print_value.simps)
qed

theorem started_service_complete_witness:
  "\<exists>s wa p' k r. local_start = (Inr (s, wa), p') \<and> sv_JWT s = Some k \<and> sv_ClientRegistry s = Some r \<and> pr_sm_open p' \<and>
    keys_ready (fst (rotations local_jwt local_names [Map.empty, local_secrets] (k, r)))"
proof -
  obtain s wa p' where st: "local_start = (Inr (s, wa), p')" using local_started by blast
  show ?thesis using started_service_complete [OF st [unfolded local_start_def]] st by blast
qed

section \<open>Readiness\<close>

text \<open>The public program reports ready exactly when Redis answers, the banned-customers table can
  be described, and then both peers answer their health checks with a 2xx status, asked in this
  order; otherwise it answers 503.\<close>

theorem public_ready_iff:
  assumes "sv_HttpClient s = Some h" and "sv_BannedReachability s = Some b"
    and "exec (Reachable (sv_CacheClient s)) E w = (e1, w1)" and "exec (Banned_Reachable b) E w1 = (e2, w2)"
    and "exec (CommsReachable h) E w2 = (e3, w3)" and "exec (CustomerReachable h) E w3 = (e4, w4)"
  shows "rs_Outcome (fst (exec (HealthReadyHandler (public_checks s) req) E w)) =
    (if e1 = None \<and> e2 = None \<and> e3 = None \<and> e4 = None then Reply 200 NoBody
     else Reply 503 (StatusBody ''unavailable''))"
  using assms by (auto simp: public_checks_def exec_call split: option.split)

theorem public_ready_iff_witness:
  "rs_Outcome (fst (exec (HealthReadyHandler (public_checks (local_service\<lparr>sv_BannedReachability :=
      Some (NewBannedCustomers [] (Some ()))\<rparr>)) passkey_request) local_env (local_world Map.empty
        [Inr \<lparr>rp_status = 204, rp_body = Inr []\<rparr>, Inr \<lparr>rp_status = 500, rp_body = Inr []\<rparr>] 0)))
    = Reply 503 (StatusBody ''unavailable'')"
proof -
  let ?s = "local_service\<lparr>sv_BannedReachability := Some (NewBannedCustomers [] (Some ()))\<rparr>"
  let ?w = "local_world Map.empty [Inr \<lparr>rp_status = 204, rp_body = Inr []\<rparr>, Inr \<lparr>rp_status = 500, rp_body = Inr []\<rparr>] 0"
  let ?h = "\<lparr>hc_CommsBaseURL = ''http://comms'', hc_CustomerBaseURL = ''http://customer''\<rparr>"
  have u: "url_parses ''http://comms/health''" "url_parses ''http://customer/health''" by code_simp+
  obtain w1 where w1: "exec (Reachable (sv_CacheClient ?s)) local_env ?w = (None, w1)" "w_http w1 = w_http ?w"
    by (simp add: Reachable_def ttl_defs local_defs)
  obtain w2 where w2: "exec (Banned_Reachable (NewBannedCustomers [] (Some ()))) local_env w1 = (None, w2)" "w_http w2 = w_http ?w"
    using w1(2) by (simp add: Banned_Reachable_def NewBannedCustomers_def local_env_def)
  obtain w3 where w3: "exec (CommsReachable ?h) local_env w2 = (None, w3)"
      "pe_http (w_http w3) = [Inr \<lparr>rp_status = 500, rp_body = Inr []\<rparr>]"
    using w2(2) u by (simp add: CommsReachable_def reachable_def local_defs success_status_def)
  obtain e4 w4 where w4: "exec (CustomerReachable ?h) local_env w3 = (e4, w4)" "e4 \<noteq> None"
    using w3(2) u by (simp add: CustomerReachable_def reachable_def local_defs success_status_def)
  show ?thesis
    using public_ready_iff [of ?s ?h "NewBannedCustomers [] (Some ())", OF _ _ w1(1) w2(1) w3(1) w4(1)] w4(2)
    by (simp add: local_service_def)
qed

section \<open>Two programs, two clocks\<close>

text \<open>
  The library asks the key function for the key of the token's header and fails with it.
\<close>

definition jwt_keyfunc :: "jwt_lib \<Rightarrow> bool" where
  "jwt_keyfunc lib \<longleftrightarrow> (\<forall>kid c sk tok kf opts now e.
     gj_SignedString lib kid c sk = Inr tok \<and> kf (rs256_header (to_valid kid)) = Inl e \<longrightarrow>
     (\<exists>e'. gj_ParseWithClaims lib tok kf opts now = Inl e'))"

lemma local_jwt_keyfunc: "jwt_keyfunc local_jwt"
  by (auto simp: jwt_keyfunc_def local_jwt_def local_parse_sign)

lemma unknown_kid: "keys_ready k \<Longrightarrow> kid \<noteq> [] \<Longrightarrow> kid \<notin> set (kidsOf (VerificationKeys k)) \<Longrightarrow>
    \<exists>e. keyForToken k (rs256_header kid) = Inl e"
  by (auto simp: keys_ready_def keyForToken_def rs256_header_def kidsOf_def VerificationKeys_def split: option.splits)

text \<open>The two programs poll for rotated secrets at their own times. Once the public program has
  reloaded a new key ID, the tokens it signs are valid for it, but until the private program has
  polled too (every 24 hours), introspection there calls each of them inactive.\<close>

theorem rotation_skew:
  assumes "jwt_complete (sv_lib s)" and "jwt_keyfunc (sv_lib s)" and "sv_JWT s = Some k" and "keys_ready k"
    and "Keys_Reload (sv_lib s) k cfg = (None, k')" and "KID cfg \<noteq> []" and "KID cfg \<notin> set (kidsOf (VerificationKeys k))"
    and "k_active k' = Some ks" and "usable_key k' ks"
    and "gj_SignedString (sv_lib s) (ks_kid ks) c (ks_privateKey ks) = Inr tok" and "tok \<noteq> []"
    and "dates_valid (fst (env_now E (w_rt w))) c" and "and_then (Decode (in_Body req)) token_of_json = Inr tok"
  shows "fst (exec (ParseClaims (sv_lib s) k' tok) E w) = Inr (valid_claims c) \<and>
    rs_Outcome (fst (exec (OAuthIntrospectHandler s req) E w)) = Reply 200 (IntrospectBody inactive_response)"
proof -
  have kid: "ks_kid ks = KID cfg"
    using assms(5,8) by (auto simp: Keys_Reload_def parse_keys_def Let_def split: sum.splits if_splits)
  have "to_valid (ks_kid ks) = ks_kid ks" using assms(9) by (simp add: usable_key_def)
  then obtain e where "keyForToken k (rs256_header (to_valid (ks_kid ks))) = Inl e"
    using unknown_kid [OF assms(4,6,7)] kid by auto
  then have "\<exists>e'. gj_ParseWithClaims (sv_lib s) tok (keyForToken k) opts now = Inl e'" for opts now
    using assms(2,10) unfolding jwt_keyfunc_def by blast
  then obtain e' where "gj_ParseWithClaims (sv_lib s) tok (keyForToken k)
      \<lparr>po_Issuer = None, po_Audience = None, po_ValidMethods = [''RS256'']\<rparr> (fst (env_now E (w_rt w))) = Inl e'" by blast
  moreover have "keys_ready k'" using Reload_ready [OF assms(4), of "sv_lib s" cfg] assms(5) by simp
  ultimately show ?thesis
    using ParseClaims_complete [OF assms(1) _ assms(9,10,12)] assms(3,11,13)
    by (auto simp: OAuthIntrospectHandler_def Let_def s_ParseClaims_def exec_call exec_ParseClaims split: prod.splits)
qed

theorem rotation_skew_witness:
  "\<exists>k' ks tok req. Keys_Reload local_jwt local_keys (rotation ''k2'') = (None, k') \<and> k_active k' = Some ks \<and>
    and_then (Decode (in_Body req)) token_of_json = Inr tok \<and>
    (\<exists>c. fst (exec (ParseClaims local_jwt k' tok) local_env (local_world Map.empty [] 5)) = Inr c) \<and>
    rs_Outcome (fst (exec (OAuthIntrospectHandler local_service req) local_env (local_world Map.empty [] 5)))
      = Reply 200 (IntrospectBody inactive_response)"
proof -
  let ?w = "local_world Map.empty [] 5"
  let ?c = "refresh_claims this_issuer ''u'' audienceUser [] [] 60 [] 0 0 0 ''j''"
  obtain ks k' where k: "Keys_Reload local_jwt local_keys (rotation ''k2'') = (None, k')" "k_active k' = Some ks" "ks_kid ks = ''k2''"
      "ks_publicKey ks = sk_Public (ks_privateKey ks)"
    by (simp add: Keys_Reload_def parse_keys_def rotation_def local_jwt_def Let_def local_keys_def local_keyset_def)
  have u: "usable_key k' ks" using k by (simp add: usable_key_def to_valid_ascii)
  let ?tok = "local_sign ''k2'' ?c (ks_privateKey ks)"
  have s: "gj_SignedString (sv_lib local_service) (ks_kid ks) ?c (ks_privateKey ks) = Inr ?tok"
    using k(3) by (simp add: local_jwt_def)
  have d: "dates_valid (fst (env_now local_env (w_rt ?w))) ?c"
    by (simp add: dates_valid_def refresh_claims_def to_seconds_def) (simp add: local_world_def)
  let ?req = "local_request (JObj [(''token'', JStr ?tok)])"
  have "json_ascii (claims_json ?c)"
    by (simp add: claims_json_def refresh_claims_def opt_json_def this_issuer_def audienceUser_def)
  then have "json_ascii (token_json ''k2'' ?c (ks_privateKey ks))"
    by (simp add: token_json_def key_json_def to_valid_ascii valid_claims_def refresh_claims_def this_issuer_def audienceUser_def)
  then have "to_valid ?tok = ?tok"
    by (simp add: local_sign_def print_ascii is_ascii_valid del: print_value.simps)
  then have req: "and_then (Decode (in_Body ?req)) token_of_json = Inr ?tok"
    by (simp add: Decode_print maxNestingDepth_def to_valid_ascii token_of_json_def struct_value_def field_string_def
        members_of_def fold_name_lower del: print_value.simps)
  have "KID (rotation ''k2'') \<noteq> []" "KID (rotation ''k2'') \<notin> set (kidsOf (VerificationKeys local_keys))"
    by (simp_all add: rotation_def kidsOf_def VerificationKeys_def local_keys_def local_keyset_def)
  then show ?thesis
    using rotation_skew [of local_service local_keys "rotation ''k2''" k' ks ?c ?tok local_env ?w ?req] local_jwt_complete
      local_jwt_keyfunc local_keys_ready k u s d req local_sign_nonempty by (simp only: local_service_fields) blast
qed

end
