(* ===== verification/RouteProps.thy ===== *)
theory RouteProps
  imports EntryPoints PasskeyFlowProps
begin

text \<open>
  Properties of the routes of the two programs: what stands before the registration of passkeys in
  the public program, and before introspection and the client registry in the private one.
\<close>

section \<open>Middleware\<close>

text \<open>
  What the middleware is documented to do. Each refuses with an error of the catalogue, or lets
  the handler answer (it may change headers, and the request it passes on); authentication passes
  on a request with the subject and scopes of claims that the verifier accepted; the scope check
  passes on requests with one of the scopes.
\<close>

definition same_answer :: "response \<Rightarrow> handler \<Rightarrow> http_in \<Rightarrow> ('r, 'h, 'c) env \<Rightarrow> bool" where
  "same_answer r h req E \<longleftrightarrow> (\<exists>v. rs_Outcome (fst (exec (h req) E v)) = rs_Outcome r)"

definition refused :: "response \<Rightarrow> bool" where
  "refused r \<longleftrightarrow> (\<exists>e d. rs_Outcome r = SendError e d)"

definition transparent :: "('r, 'h, 'c) env \<Rightarrow> (handler \<Rightarrow> handler) \<Rightarrow> bool" where
  "transparent E m \<longleftrightarrow> (\<forall>h req w. refused (fst (exec (m h req) E w)) \<or>
     (\<exists>req'. same_answer (fst (exec (m h req) E w)) h req' E))"

definition authenticates :: "('r, 'h, 'c) env \<Rightarrow> middleware_lib \<Rightarrow> bool" where
  "authenticates E L \<longleftrightarrow> (\<forall>verify h req w. refused (fst (exec (ml_Middleware L verify h req) E w)) \<or>
     (\<exists>req' tok c v. same_answer (fst (exec (ml_Middleware L verify h req) E w)) h req' E \<and>
        fst (exec (verify tok) E v) = Inr c \<and> in_UserID req' = au_Subject c \<and> in_Scopes req' = au_Scopes c))"

definition checks_scopes :: "('r, 'h, 'c) env \<Rightarrow> middleware_lib \<Rightarrow> bool" where
  "checks_scopes E L \<longleftrightarrow> (\<forall>scs h req w. refused (fst (exec (ml_RequireAnyScope L scs h req) E w)) \<or>
     same_answer (fst (exec (ml_RequireAnyScope L scs h req) E w)) h req E \<and> (\<exists>sc \<in> set scs. sc \<in> set (in_Scopes req)))"

definition middleware_ok :: "('r, 'h, 'c) env \<Rightarrow> middleware_lib \<Rightarrow> bool" where
  "middleware_ok E L \<longleftrightarrow> (\<forall>m \<in> set (oauthMW L). transparent E m) \<and> transparent E (ml_MaxContentLength L 0) \<and>
     authenticates E L \<and> checks_scopes E L"

lemma transparent_chain:
  assumes "\<forall>m \<in> set ms. transparent E m"
  shows "refused (fst (exec (foldr (\<lambda>m. m) ms h req) E w)) \<or> (\<exists>req'. same_answer (fst (exec (foldr (\<lambda>m. m) ms h req) E w)) h req' E)"
  using assms
proof (induction ms arbitrary: req w)
  case Nil
  then show ?case by (auto simp: same_answer_def)
next
  case (Cons m ms)
  let ?next = "foldr (\<lambda>m. m) ms h"
  consider "refused (fst (exec (m ?next req) E w))" | req' v where "rs_Outcome (fst (exec (?next req') E v)) = rs_Outcome (fst (exec (m ?next req) E w))"
    using Cons.prems unfolding transparent_def same_answer_def by (metis list.set_intros(1))
  then show ?case
  proof cases
    case 2
    then show ?thesis using Cons.IH [of req' v] Cons.prems by (auto simp: refused_def same_answer_def)
  qed simp
qed

lemma same_answerE:
  assumes "same_answer r h req E"
  obtains r0 v v' where "exec (h req) E v = (r0, v')" and "rs_Outcome r0 = rs_Outcome r"
  using assms unfolding same_answer_def by (metis prod.collapse)

section \<open>Verifiers\<close>

text \<open>
  What the routes rely on in the verifier that the middleware is given: claims that it passes on
  are those of a token which the service has validated.
\<close>

locale token_verifier =
  fixes verify :: "Service \<Rightarrow> string \<Rightarrow> auth_Claims res proc" and E :: "('r, 'h, 'c) env"
  assumes accepted: "fst (exec (verify s tok) E v) = Inr a \<Longrightarrow>
    \<exists>claims. fst (exec (s_ValidateAndParseClaims s tok) E v) = Inr claims \<and> cl_Subject claims = au_Subject a \<and>
      cl_Scopes claims = au_Scopes a"
begin

text \<open>An answer that is not a refusal is the handler's, for the subject and scopes of a validated token.\<close>

lemma behind_auth:
  assumes "authenticates E L" and "exec (ml_Middleware L (verify s) h req) E w = (r, w')" and "\<not> refused r"
  obtains req' tok claims v r0 u u' where "exec (h req') E u = (r0, u')" and "rs_Outcome r0 = rs_Outcome r"
    and "fst (exec (s_ValidateAndParseClaims s tok) E v) = Inr claims"
    and "in_UserID req' = cl_Subject claims" and "in_Scopes req' = cl_Scopes claims"
proof -
  obtain req' tok c v where c: "same_answer r h req' E" "fst (exec (verify s tok) E v) = Inr c"
      "in_UserID req' = au_Subject c" "in_Scopes req' = au_Scopes c"
    using assms unfolding authenticates_def by (metis fst_conv)
  obtain r0 u u' where h: "exec (h req') E u = (r0, u')" "rs_Outcome r0 = rs_Outcome r"
    using c(1) by (rule same_answerE)
  obtain claims where "fst (exec (s_ValidateAndParseClaims s tok) E v) = Inr claims" "cl_Subject claims = au_Subject c"
      "cl_Scopes claims = au_Scopes c"
    using accepted [OF c(2)] by blast
  then show ?thesis using that [OF h] c(3,4) by simp
qed

end

text \<open>The verifiers of the two programs.\<close>

interpretation user_auth: token_verifier tokenVerifier_Verify E for E :: "('r, 'h, 'c) env"
  by unfold_locales (auto simp: tokenVerifier_Verify_def exec_call split: prod.splits sum.splits if_splits)

interpretation client_auth: token_verifier jwtVerifierAdapter_Verify E for E :: "('r, 'h, 'c) env"
  by unfold_locales (auto simp: jwtVerifierAdapter_Verify_def exec_call split: prod.splits sum.splits)

section \<open>The registration routes\<close>

lemma not_refused: "registration_done r \<Longrightarrow> rs_Outcome r' = rs_Outcome r \<Longrightarrow> \<not> refused r' \<and> registration_done r'"
  by (auto simp: registration_done_def refused_def)


text \<open>Middleware that does nothing but authenticate and check scopes.\<close>

definition local_auth :: "(string \<Rightarrow> auth_Claims res proc) \<Rightarrow> handler \<Rightarrow> handler" where
  "local_auth verify next req =
     call (verify (in_Authorization req)) (\<lambda>r.
       case r of
         Inl err \<Rightarrow> respond [] (SendError Auth_InvalidToken ''invalid token'')
       | Inr c \<Rightarrow> next (req\<lparr>in_UserID := au_Subject c, in_Scopes := au_Scopes c\<rparr>))"

definition local_scope :: "string list \<Rightarrow> handler \<Rightarrow> handler" where
  "local_scope scs next req =
     (if list_ex (\<lambda>sc. sc \<in> set (in_Scopes req)) scs then next req else respond [] (SendError Auth_InsufficientScope []))"

definition local_middleware :: middleware_lib where
  "local_middleware = \<lparr>ml_RequestID = id, ml_Telemetry = id, ml_RateLimiter = id, ml_IPAccess = id, ml_CORS = id,
     ml_SecurityHeaders = id, ml_Normalization = id, ml_Sanitization = id, ml_RuleValidation = id, ml_Idempotency = id,
     ml_ClientType = id, ml_MaxContentLength = (\<lambda>n. id), ml_RequireAnyScope = local_scope, ml_Middleware = local_auth,
     ml_HealthHandler = (\<lambda>req. respond [] (Reply 200 NoBody))\<rparr>"

lemma transparent_id: "transparent E id"
  by (auto simp: transparent_def same_answer_def)

lemma local_authenticates: "authenticates E local_middleware"
proof -
  have "refused (fst (exec (local_auth verify h req) E w)) \<or>
     (\<exists>req' tok c v. same_answer (fst (exec (local_auth verify h req) E w)) h req' E \<and>
        fst (exec (verify tok) E v) = Inr c \<and> in_UserID req' = au_Subject c \<and> in_Scopes req' = au_Scopes c)" for verify h req w
  proof (cases "exec (verify (in_Authorization req)) E w")
    case (Pair a w1)
    show ?thesis
    proof (cases a)
      case (Inl e)
      then show ?thesis using Pair by (simp add: local_auth_def exec_call refused_def)
    next
      case (Inr c)
      let ?req = "req\<lparr>in_UserID := au_Subject c, in_Scopes := au_Scopes c\<rparr>"
      have "same_answer (fst (exec (local_auth verify h req) E w)) h ?req E"
        using Pair Inr by (auto simp: local_auth_def exec_call same_answer_def)
      moreover have "fst (exec (verify (in_Authorization req)) E w) = Inr c" using Pair Inr by simp
      ultimately show ?thesis by (intro disjI2 exI conjI) auto
    qed
  qed
  then show ?thesis by (simp add: authenticates_def local_middleware_def)
qed

lemma local_middleware_ok: "middleware_ok E local_middleware"
proof -
  have "checks_scopes E local_middleware"
    by (auto simp: checks_scopes_def local_middleware_def local_scope_def list_ex_iff refused_def same_answer_def)
  then show ?thesis
    using local_authenticates [of E] transparent_id [of E] by (simp add: middleware_ok_def oauthMW_def local_middleware_def)
qed

definition otp_session_token :: string where
  "otp_session_token = local_sign ''k1'' (refresh_claims this_issuer ''user-1'' audienceUser [] [] 60 [''otp:verified''] 0 0 0 ''j'')
     (ks_privateKey local_keyset)"

lemma otp_session_verified:
  assumes "rt_now (w_rt w) = 5"
  shows "\<exists>a. exec (tokenVerifier_Verify local_service otp_session_token) local_env w = (Inr a, w) \<and>
    au_Subject a = ''user-1'' \<and> au_Scopes a = [''otp:verified'']"
proof -
  let ?c = "refresh_claims this_issuer ''user-1'' audienceUser [] [] 60 [''otp:verified''] 0 0 0 ''j''"
  have v: "valid_claims ?c = ?c"
    by (simp add: valid_claims_def refresh_claims_def this_issuer_def audienceUser_def to_valid_ascii)
  have "exec (s_ValidateAndParseClaims local_service otp_session_token) local_env w = (Inr ?c, w)"
    using assms v
    by (simp add: s_ValidateAndParseClaims_def ValidateAndParseClaims_def parseValidated_def local_keys_def local_keyset_def
        otp_session_token_def local_jwt_def local_parse_sign keyForToken_def rs256_header_def to_valid_ascii check_claims_def)
      (simp add: dates_valid_def opts_valid_def refresh_claims_def to_seconds_def this_issuer_def audienceUser_def second_ns_def)
  then show ?thesis by (simp add: tokenVerifier_Verify_def exec_call) (simp add: refresh_claims_def)
qed


section \<open>The private routes\<close>

definition private_middleware_ok :: "('r, 'h, 'c) env \<Rightarrow> middleware_lib \<Rightarrow> bool" where
  "private_middleware_ok E L \<longleftrightarrow> (\<forall>m \<in> {ml_RequestID L, ml_Telemetry L, ml_ClientType L}. transparent E m) \<and>
     authenticates E L"

definition guarded_routes :: "string list" where
  "guarded_routes = [''POST /v1/oauth/introspect'', ''GET /v1/clients'', ''GET /v1/clients/{id}'']"

lemma guarded_chain:
  assumes "sv_JWT s \<noteq> None" and "(route, h) \<in> set (private_newMux L s)" and "route \<in> set guarded_routes"
  shows "\<exists>next. h = foldr (\<lambda>m. m) [ml_RequestID L, ml_Telemetry L, ml_ClientType L]
    (ml_Middleware L (jwtVerifierAdapter_Verify s) next)"
  using assms by (auto simp: private_newMux_def Let_def Chain_def guarded_routes_def)


lemma private_session_verified:
  assumes "rt_now (w_rt w) = 5"
  shows "\<exists>a. exec (jwtVerifierAdapter_Verify local_service otp_session_token) local_env w = (Inr a, w)"
proof -
  obtain a where "exec (tokenVerifier_Verify local_service otp_session_token) local_env w = (Inr a, w)"
    using otp_session_verified [OF assms] by blast
  then show ?thesis
    by (auto simp: tokenVerifier_Verify_def jwtVerifierAdapter_Verify_def exec_call split: prod.splits sum.splits if_splits)
qed


end
