(* ===== verification/ServiceProps.thy ===== *)
theory ServiceProps
  imports LocalService
begin

text \<open>
  The service token with which the handlers call the customer and communications APIs: what is
  cached stays a token of this service, and what is handed out is not expired when the call ends.
\<close>

lemma svc_expiry:
  assumes "svc_claims c t1"
  shows "t1 + 29 * second_ns < the (cl_ExpiresAt c) * second_ns"
proof -
  let ?x = "t1 + svcJWTTTLSec * second_ns"
  have "the (cl_ExpiresAt c) = ?x div 1000000000"
    using assms by (auto simp: svc_claims_def refresh_claims_def to_seconds_def second_ns_def)
  moreover have "?x - 1000000000 < ?x div 1000000000 * 1000000000"
    using pos_mod_bound [of 1000000000 ?x] div_mult_mod_eq [of ?x 1000000000] by linarith
  ultimately show ?thesis by (simp add: svcJWTTTLSec_def second_ns_def)
qed

text \<open>The two ways of a call: it signs and stores a new token, or it hands out the cached one.\<close>

definition svc_refresh :: "Service \<Rightarrow> string res proc" where
  "svc_refresh s =
     call (s_SignToken s this_issuer this_issuer audienceService svcJWTTTLSec [''svc:komodo-auth-api'']) (\<lambda>r.
       case r of
         Inl err \<Rightarrow> Ret (Inl (Wrapf ''failed to sign service token'' err))
       | Inr token \<Rightarrow>
           TimeNow (\<lambda>now. SvcStore (token, now + svcJWTTTLSec * second_ns) (\<lambda>_. Ret (Inr token))))"

lemma exec_getOrRefreshSvcJWT:
  "exec (getOrRefreshSvcJWT s) E w =
     (if fst (w_svc w) = [] then exec (svc_refresh s) E w
      else case env_now E (w_rt w) of (now, c) \<Rightarrow>
        if now < snd (w_svc w) - 5 * second_ns then (Inr (fst (w_svc w)), w\<lparr>w_rt := c\<rparr>)
        else exec (svc_refresh s) E (w\<lparr>w_rt := c\<rparr>))"
  by (simp add: getOrRefreshSvcJWT_def svc_refresh_def Let_def split: prod.split)

lemma svc_refresh_stores:
  assumes "clock_ok E clock" and "exec (svc_refresh s) E w = (r, w')"
    and "clock (w_rt w') \<le> clock (w_rt w) + d" and "svc_cache_inv s d (w_svc w)"
  shows "svc_cache_inv s d (w_svc w') \<and> (\<forall>tok. r = Inr tok \<longrightarrow>
    (\<exists>c t1. own_token s tok c \<and> svc_claims c t1 \<and> clock (w_rt w') \<le> t1 + d))"
proof -
  obtain q v where q: "exec (s_SignToken s this_issuer this_issuer audienceService svcJWTTTLSec [''svc:komodo-auth-api'']) E w = (q, v)"
    by fastforce
  let ?t = "fst (env_now E (w_rt w))"
  have t: "clock (w_rt w) \<le> ?t" using clock_now [OF assms(1)] by (metis prod.collapse)
  show ?thesis
  proof (cases q)
    case (Inl e)
    have "w' = v" "r = Inl (Wrapf ''failed to sign service token'' e)"
      using assms(2) q Inl by (auto simp: svc_refresh_def exec_call)
    moreover have "w_svc v = w_svc w"
      using exec_s_Sign_runtime(1) [OF q] by (metis world.simps(4) world.surjective world.update_convs(3))
    ultimately show ?thesis using assms(4) by simp
  next
    case (Inr tok)
    obtain c where c: "own_token s tok c" "svc_claims c ?t"
      using exec_s_SignToken [OF q [unfolded Inr]] unfolding token_for_def svc_claims_def by blast
    obtain now rt where n: "env_now E (w_rt v) = (now, rt)" by fastforce
    have w': "r = Inr tok" "w' = v\<lparr>w_rt := rt, w_svc := (tok, now + svcJWTTTLSec * second_ns)\<rparr>"
      using assms(2) q Inr n by (auto simp: svc_refresh_def exec_call)
    have "now \<le> clock rt" using clock_now [OF assms(1) n] by blast
    then have "now \<le> ?t + d" "clock (w_rt w') \<le> ?t + d" using w' assms(3) t by auto
    then show ?thesis using c w' by (auto simp: svc_cache_inv_def)
  qed
qed

text \<open>C36: The service token, by induction on its uses: if what is cached is nothing or a token of this
  service whose recorded expiry is at most \<open>d\<close> late, a call that takes at most \<open>d\<close> leaves such a
  cache, also when signing fails; and for \<open>d\<close> up to two seconds the token it returns, cached or
  new, is signed with the active key, has the service's issuer, subject, audience and scope, and is
  not yet expired when the call ends.\<close>

theorem svc_token_always_fresh:
  assumes "clock_ok E clock" and "svc_cache_inv s d (w_svc w)" and "d \<le> 2 * second_ns"
    and "exec (getOrRefreshSvcJWT s) E w = (r, w')" and "clock (w_rt w') \<le> clock (w_rt w) + d"
  shows "svc_cache_inv s d (w_svc w') \<and> (\<forall>tok. r = Inr tok \<longrightarrow>
    (\<exists>c t1. own_token s tok c \<and> svc_claims c t1 \<and> clock (w_rt w') < the (cl_ExpiresAt c) * second_ns))"
proof -
  obtain now rt where n: "env_now E (w_rt w) = (now, rt)" by fastforce
  have le: "clock (w_rt w) \<le> now" "now \<le> clock rt" "clock (w_rt w) \<le> clock rt"
    using clock_now [OF assms(1) n] by blast+
  consider (cached) "fst (w_svc w) \<noteq> []" "now < snd (w_svc w) - 5 * second_ns" "r = Inr (fst (w_svc w))" "w' = w\<lparr>w_rt := rt\<rparr>"
    | (signed) u where "exec (svc_refresh s) E u = (r, w')" "w_svc u = w_svc w" "clock (w_rt w) \<le> clock (w_rt u)"
  proof (cases "fst (w_svc w) = []")
    case True
    then show ?thesis using assms(4) signed [of w] by (simp add: exec_getOrRefreshSvcJWT)
  next
    case False
    show ?thesis
    proof (cases "now < snd (w_svc w) - 5 * second_ns")
      case True
      then show ?thesis using assms(4) n False by (intro cached) (simp_all add: exec_getOrRefreshSvcJWT)
    next
      case late: False
      then show ?thesis
        using assms(4) n False le(3) by (intro signed [of "w\<lparr>w_rt := rt\<rparr>"]) (simp_all add: exec_getOrRefreshSvcJWT)
    qed
  qed
  then show ?thesis
  proof cases
    case cached
    obtain c t1 where c: "own_token s (fst (w_svc w)) c" "svc_claims c t1" "snd (w_svc w) \<le> t1 + svcJWTTTLSec * second_ns + d"
      using assms(2) cached(1) by (auto simp: svc_cache_inv_def)
    have "clock (w_rt w') < t1 + 29 * second_ns"
      using cached(2,4) c(3) assms(3,5) le by (simp add: svcJWTTTLSec_def second_ns_def)
    then have "clock (w_rt w') < the (cl_ExpiresAt c) * second_ns" using svc_expiry [OF c(2)] by linarith
    moreover have "w_svc w' = w_svc w" using cached(4) by simp
    ultimately show ?thesis using c(1,2) assms(2) cached(3) by auto
  next
    case signed
    have "clock (w_rt w') \<le> clock (w_rt u) + d" using assms(5) signed(3) by simp
    then have st: "svc_cache_inv s d (w_svc w')"
        "\<And>tok. r = Inr tok \<Longrightarrow> \<exists>c t1. own_token s tok c \<and> svc_claims c t1 \<and> clock (w_rt w') \<le> t1 + d"
      using svc_refresh_stores [OF assms(1) signed(1)] assms(2) signed(2) by simp_all
    have "x < the (cl_ExpiresAt c) * second_ns" if "svc_claims c t1" "x \<le> t1 + d" for c t1 x
      using svc_expiry [OF that(1)] that(2) assms(3) by (simp add: second_ns_def)
    then show ?thesis using st by metis
  qed
qed

theorem svc_token_always_fresh_witness:
  "\<exists>r w'. exec (getOrRefreshSvcJWT local_service) local_env (local_world Map.empty [] 5) = (r, w') \<and>
     svc_cache_inv local_service 0 (w_svc w') \<and> (\<forall>tok. r = Inr tok \<longrightarrow> (\<exists>c. own_token local_service tok c \<and>
       rt_now (w_rt w') < the (cl_ExpiresAt c) * second_ns))"
proof -
  let ?w = "local_world Map.empty [] 5"
  obtain r w' where e: "exec (getOrRefreshSvcJWT local_service) local_env ?w = (r, w')" by fastforce
  have "rt_now (w_rt w') \<le> rt_now (w_rt ?w) + 0" using local_exec [OF e] by simp
  moreover have "svc_cache_inv local_service 0 (w_svc ?w)" by (simp add: svc_cache_inv_def local_world_def)
  ultimately have "svc_cache_inv local_service 0 (w_svc w') \<and> (\<forall>tok. r = Inr tok \<longrightarrow> (\<exists>c t1. own_token local_service tok c \<and>
      svc_claims c t1 \<and> rt_now (w_rt w') < the (cl_ExpiresAt c) * second_ns))"
    using svc_token_always_fresh [OF local_clock _ _ e] by (simp add: second_ns_def)
  then show ?thesis using e by blast
qed

end
