(* ===== verification/RefreshRace.thy ===== *)
theory RefreshRace
  imports RefreshProps
begin

text \<open>
  Overlapping refreshes with one token: the revocation check and the revocation of the presented
  token are separate commands, and between them a second request passes the check too.
\<close>

text \<open>\<open>n\<close> calls of a program, with nothing in between.\<close>

primrec run_steps :: "('r, 'h, 'c) env \<Rightarrow> nat \<Rightarrow> 'a proc \<times> ('r, 'h, 'c) world \<Rightarrow> 'a proc \<times> ('r, 'h, 'c) world" where
  "run_steps E 0 pw = pw"
| "run_steps E (Suc n) pw = run_steps E n (step_proc E (fst pw) (snd pw))"

lemma exec_run_steps: "run_steps E n (p, w) = (q, v) \<Longrightarrow> exec p E w = exec q E v"
proof (induction n arbitrary: p w)
  case (Suc n)
  then show ?case using exec_step [of p E w] by (cases "step_proc E p w") simp
qed simp

text \<open>A request in order, with a token that has an ID and a family.\<close>

definition refreshes :: "Service \<Rightarrow> TokenRequest \<Rightarrow> string \<Rightarrow> CustomClaims \<Rightarrow> bool" where
  "refreshes s rb tok c \<longleftrightarrow> tr_RefreshToken rb = Some tok \<and> tok \<noteq> [] \<and> tr_ClientId rb \<noteq> [] \<and> tr_ClientSecret rb \<noteq> [] \<and>
     (\<exists>rec. registered (sv_ClientRegistry s) (tr_ClientId rb) = Some rec \<and> cr_SecretHash rec = sha256_hex (tr_ClientSecret rb) \<and>
        (is_user_session c \<or> refresh_audience c \<in> set (allowed_refresh_audiences rec))) \<and>
     offline_access \<in> set (cl_Scopes c) \<and> cl_Azp c = tr_ClientId rb \<and> cl_ID c \<noteq> [] \<and> cl_FamilyId c \<noteq> []"

context kv_reliable
begin

text \<open>After three calls the checks are done.\<close>

lemma refresh_checks:
  assumes "env_cache E = api" and "cc_api (sv_CacheClient s) \<noteq> None" and "ok (w_redis w)"
    and "sv_BannedChecker s = None" and "refreshes s rb tok c" and "fst (exec (s_ParseClaims s tok) E w) = Inr c"
    and "\<not> revoked_in (live (w_redis w)) (cl_ID c)" and "\<not> family_revoked_in (live (w_redis w)) (cl_FamilyId c)"
  shows "\<exists>v. run_steps E 3 (handleRefreshToken s rb, w) = (refresh_issue s (tr_ClientId rb) c, v) \<and> ok (w_redis v) \<and>
    live (w_redis v) = live (w_redis w)"
proof -
  let ?key = "revokedKey @ cl_ID c" and ?fam = "revokedFamilyKey @ cl_FamilyId c"
  obtain k where k: "sv_JWT s = Some k" using assms(6) by (cases "sv_JWT s") (simp_all add: s_ParseClaims_def)
  obtain now rt where n: "env_now E (w_rt w) = (now, rt)" by fastforce
  obtain rec where rec: "registered (sv_ClientRegistry s) (tr_ClientId rb) = Some rec"
      "cr_SecretHash rec = sha256_hex (tr_ClientSecret rb)"
      "is_user_session c \<or> refresh_audience c \<in> set (allowed_refresh_audiences rec)"
    using assms(5) by (auto simp: refreshes_def)
  have "handleRefreshToken s rb = call (ParseClaims (sv_lib s) k tok) (\<lambda>c. case c of
      Inl err \<Rightarrow> respond json_no_store (SendError Auth_InvalidToken ''failed to parse refresh token'')
    | Inr claims \<Rightarrow> refresh_with s (tr_ClientId rb) (redact rec) claims)"
    using assms(5) rec k by (simp add: refreshes_def handleRefreshToken_def Let_def ValidateAndGet_value s_ParseClaims_def)
  moreover obtain t where "gj_ParseWithClaims (sv_lib s) tok (keyForToken k)
      \<lparr>po_Issuer = None, po_Audience = None, po_ValidMethods = [''RS256'']\<rparr> now = Inr t" "tk_Claims t = c"
    using assms(6) k n by (auto simp: s_ParseClaims_def exec_ParseClaims split: sum.splits)
  ultimately have 1: "step_proc E (handleRefreshToken s rb) w = (refresh_with s (tr_ClientId rb) (redact rec) c, w\<lparr>w_rt := rt\<rparr>)"
    using n by (simp add: ParseClaims_def)
  obtain s1 where s1: "op_Get api ?key (w_redis w) = (Inr (case live (w_redis w) ?key of None \<Rightarrow> [] | Some x \<Rightarrow> x), s1)"
      "ok s1" "live s1 = live (w_redis w)"
    using get_eq [OF assms(3)] by blast
  obtain s2 where s2: "op_Get api ?fam s1 = (Inr (case live s1 ?fam of None \<Rightarrow> [] | Some x \<Rightarrow> x), s2)" "ok s2" "live s2 = live s1"
    using get_eq [OF s1(2)] by blast
  have v: "(case live (w_redis w) ?key of None \<Rightarrow> [] | Some x \<Rightarrow> x) = []" "(case live s1 ?fam of None \<Rightarrow> [] | Some x \<Rightarrow> x) = []"
    using assms(5,7,8) s1(3) by (auto simp: refreshes_def revoked_in_def family_revoked_in_def split: option.splits)
  have "run_steps E 2 (refresh_with s (tr_ClientId rb) (redact rec) c, w\<lparr>w_rt := rt\<rparr>)
      = (refresh_issue s (tr_ClientId rb) c, w\<lparr>w_rt := rt, w_redis := s2\<rparr>)"
    using assms(1,2,4,5) rec(3) s1(1) s2(1) v
    by (auto simp: refresh_with_def Let_def refreshRevocationDenied_def refreshes_def IsRevoked_def IsFamilyRevoked_def
        isRefreshTokenUserBanned_def numeral_2_eq_2)
  then show ?thesis using 1 s1 s2 by (simp add: numeral_3_eq_3 numeral_2_eq_2)
qed

text \<open>The rest issues tokens; it can only add the revocation of the presented token.\<close>

lemma refresh_issue_live:
  assumes "env_cache E = api" and "cc_api (sv_CacheClient s) \<noteq> None" and "ok (w_redis w)" and "signs s"
    and "cl_ID c \<noteq> []" and "cl_FamilyId c \<noteq> []" and "exec (refresh_issue s cid c) E w = (r, w')"
  shows "ok (w_redis w') \<and> (live (w_redis w') = live (w_redis w) \<or>
      live (w_redis w') = (live (w_redis w))(revokedKey @ cl_ID c \<mapsto> sentinel)) \<and>
    (\<exists>t rt now. issued r = Some t \<and> ts_RefreshToken t = Some rt \<and>
       token_for s rt (cl_Subject c) (refresh_audience c) cid (cl_FamilyId c) refreshTokenTTL (cl_Scopes c) now)"
proof -
  obtain t where t: "issued r = Some t" using refresh_issue_succeeds [OF assms(4), of cid c E w] assms(7) by (auto simp: issued_def)
  obtain rt now v where v: "ts_RefreshToken t = Some rt"
      "token_for s rt (cl_Subject c) (refresh_audience c) cid (cl_FamilyId c) refreshTokenTTL (cl_Scopes c) now"
      "w_redis v = w_redis w" "exec (revoke_rotated s c) E v = ((), w')"
    using refresh_issue_issued [OF assms(7) t] assms(6) by metis
  have "ok (w_redis w') \<and> (live (w_redis w') = live (w_redis w) \<or>
      live (w_redis w') = (live (w_redis w))(revokedKey @ cl_ID c \<mapsto> sentinel))"
  proof (cases "cl_ExpiresAt c")
    case None
    then show ?thesis using v(3,4) assms(3,5) by (simp add: revoke_rotated_def)
  next
    case (Some e)
    obtain n rt' where n: "env_now E (w_rt v) = (n, rt')" by fastforce
    have o: "ok (w_redis (v\<lparr>w_rt := rt'\<rparr>))" using assms(3) v(3) by simp
    show ?thesis
      using v(3,4) Some n assms(3,5) StoreRevoked_eq [OF assms(1,2) o assms(5), of "e * second_ns - n"]
      by (auto simp: revoke_rotated_def Let_def exec_call split: if_splits)
  qed
  then show ?thesis using t v(1,2) by blast
qed

end

text \<open>C13: Reuse detection does not see overlapping refreshes. When a second request with the same
  token passes the revocation check before the first one has revoked the token, both are issued a
  refresh token of the same family, and nothing but the presented token becomes revoked: the
  family, with both new tokens in it, lives on.\<close>

theorem refresh_race_undetected:
  assumes "kv_reliable (env_cache E) live ok" and "cc_api (sv_CacheClient s) \<noteq> None" and "ok (w_redis w)"
    and "signs s" and "sv_BannedChecker s = None" and "refreshes s rb tok c"
    and "fst (exec (s_ParseClaims s tok) E w) = Inr c"
    and "\<not> revoked_in (live (w_redis w)) (cl_ID c)" and "\<not> family_revoked_in (live (w_redis w)) (cl_FamilyId c)"
    and "run_steps E 3 (handleRefreshToken s rb, w) = (p, w1)" and "fst (exec (s_ParseClaims s tok) E w1) = Inr c"
    and "exec (handleRefreshToken s rb) E w1 = (r2, w2)" and "exec p E w2 = (r1, w3)"
  shows "(\<exists>t1 rt1 now1 t2 rt2 now2. issued r1 = Some t1 \<and> ts_RefreshToken t1 = Some rt1 \<and>
      token_for s rt1 (cl_Subject c) (refresh_audience c) (tr_ClientId rb) (cl_FamilyId c) refreshTokenTTL (cl_Scopes c) now1 \<and>
      issued r2 = Some t2 \<and> ts_RefreshToken t2 = Some rt2 \<and>
      token_for s rt2 (cl_Subject c) (refresh_audience c) (tr_ClientId rb) (cl_FamilyId c) refreshTokenTTL (cl_Scopes c) now2) \<and>
    \<not> family_revoked_in (live (w_redis w3)) (cl_FamilyId c) \<and>
    (\<forall>j. revoked_in (live (w_redis w3)) j \<longrightarrow> revoked_in (live (w_redis w)) j \<or> j = cl_ID c)"
proof -
  have id: "cl_ID c \<noteq> []" "cl_FamilyId c \<noteq> []" using assms(6) by (auto simp: refreshes_def)
  have p: "p = refresh_issue s (tr_ClientId rb) c" "ok (w_redis w1)" "live (w_redis w1) = live (w_redis w)"
    using kv_reliable.refresh_checks [OF assms(1) refl assms(2,3,5,6,7,8,9)] assms(10) by auto
  obtain v where v: "run_steps E 3 (handleRefreshToken s rb, w1) = (refresh_issue s (tr_ClientId rb) c, v)"
      "ok (w_redis v)" "live (w_redis v) = live (w_redis w1)"
    using kv_reliable.refresh_checks [OF assms(1) refl assms(2) p(2) assms(5,6,11)] p(3) assms(8,9) by auto
  then have "exec (refresh_issue s (tr_ClientId rb) c) E v = (r2, w2)" using exec_run_steps [OF v(1)] assms(12) by simp
  note second = kv_reliable.refresh_issue_live [OF assms(1) refl assms(2) v(2) assms(4) id this]
  note first = kv_reliable.refresh_issue_live [OF assms(1) refl assms(2) conjunct1 [OF second] assms(4) id assms(13) [unfolded p(1)]]
  have "live (w_redis w3) = live (w_redis w) \<or> live (w_redis w3) = (live (w_redis w))(revokedKey @ cl_ID c \<mapsto> sentinel)"
    using first second p(3) v(3) by auto
  then have "\<not> family_revoked_in (live (w_redis w3)) (cl_FamilyId c) \<and>
      (\<forall>j. revoked_in (live (w_redis w3)) j \<longrightarrow> revoked_in (live (w_redis w)) j \<or> j = cl_ID c)"
    using assms(9) by auto
  then show ?thesis using first second by blast
qed

theorem refresh_race_undetected_witness:
  "\<exists>p w1 t1 t2. run_steps local_env 3 (handleRefreshToken local_service (orders_refresh orders_token), local_world Map.empty [] 5) = (p, w1) \<and>
    issued (fst (exec (handleRefreshToken local_service (orders_refresh orders_token)) local_env w1)) = Some t2 \<and>
    issued (fst (exec p local_env (snd (exec (handleRefreshToken local_service (orders_refresh orders_token)) local_env w1)))) = Some t1"
proof -
  let ?w = "local_world Map.empty [] 5" and ?h = "handleRefreshToken local_service (orders_refresh orders_token)"
  obtain p w1 where st: "run_steps local_env 3 (?h, ?w) = (p, w1)" by fastforce
  have r: "refreshes local_service (orders_refresh orders_token) orders_token orders_claims"
    using orders_audience by (simp add: refreshes_def orders_token_def local_record_def)
  have t: "rt_now (w_rt ?w) = 5" by (simp add: local_world_def)
  have step: "rt_now (w_rt (snd (step_proc local_env q v))) = rt_now (w_rt v)" for q :: "response proc" and v
    using local_step by (metis prod.collapse)
  then have "rt_now (w_rt w1) = 5"
    using st t by (simp add: numeral_3_eq_3) (metis snd_conv)
  then have parse: "fst (exec (s_ParseClaims local_service orders_token) local_env ?w) = Inr orders_claims"
      "fst (exec (s_ParseClaims local_service orders_token) local_env w1) = Inr orders_claims"
    using t by (simp_all add: orders_parse orders_dates)
  have clean: "\<not> revoked_in (ttl_live (w_redis ?w)) (cl_ID orders_claims)" "\<not> family_revoked_in (ttl_live (w_redis ?w)) (cl_FamilyId orders_claims)"
    by (simp_all add: local_world_def ttl_live_def revoked_in_def family_revoked_in_def)
  show ?thesis
    using refresh_race_undetected [OF local_kv_reliable _ local_redis_ok local_signs _ r parse(1) clean st parse(2)
        prod.collapse [symmetric] prod.collapse [symmetric]] st by auto
qed

end
