(* ===== verification/Bounds.thy ===== *)
theory Bounds
  imports EntryPoints
begin

text \<open>
  How often a handler turns to the outside (Redis, HTTP peers, the clock, random sources, the
  shared fields of the service): a bound for each, whatever the outside answers. A handler
  therefore returns, however it is interleaved with other requests.
\<close>

section \<open>Bounds on programs\<close>

text \<open>What a program can continue as after its next call.\<close>

primrec nexts :: "'a proc \<Rightarrow> 'a proc set" where
  "nexts (Ret a) = {}"
| "nexts (RGet x f) = range f"
| "nexts (RSet x v t f) = range f"
| "nexts (RSetNX x v t f) = range f"
| "nexts (RDelete x f) = range f"
| "nexts (RIncr x f) = range f"
| "nexts (RExpire x t f) = range f"
| "nexts (RExists x f) = range f"
| "nexts (HttpDo q f) = range f"
| "nexts (DdbGetItem t x f) = range f"
| "nexts (DdbDescribe t f) = range f"
| "nexts (TimeNow f) = range f"
| "nexts (UuidNew f) = range f"
| "nexts (RandInt m f) = range f"
| "nexts (RandRead m f) = range f"
| "nexts (SvcLoad f) = range f"
| "nexts (SvcStore v f) = range f"
| "nexts (SemTryAcquire m f) = range f"
| "nexts (GoSendEmail q f) = range f"
| "nexts (JwksLoad f) = range f"
| "nexts (JwksStore c f) = range f"

text \<open>\<open>p\<close> returns within \<open>n\<close> calls, whatever the replies.\<close>

primrec within :: "nat \<Rightarrow> 'a proc \<Rightarrow> bool" where
  "within 0 p = (\<exists>a. p = Ret a)"
| "within (Suc n) p = (\<forall>q \<in> nexts p. within n q)"

lemma within_Ret [simp]: "within n (Ret a)"
  by (cases n) simp_all

lemma within_calls [simp]:
  "within n (RGet x1 f0) = (0 < n \<and> (\<forall>r. within (n - 1) (f0 r)))"
  "within n (RSet x2 v2 t2 f1) = (0 < n \<and> (\<forall>r. within (n - 1) (f1 r)))"
  "within n (RSetNX x3 v3 t3 f2) = (0 < n \<and> (\<forall>r. within (n - 1) (f2 r)))"
  "within n (RDelete x4 f3) = (0 < n \<and> (\<forall>r. within (n - 1) (f3 r)))"
  "within n (RIncr x5 f4) = (0 < n \<and> (\<forall>r. within (n - 1) (f4 r)))"
  "within n (RExpire x6 t6 f5) = (0 < n \<and> (\<forall>r. within (n - 1) (f5 r)))"
  "within n (RExists x7 f6) = (0 < n \<and> (\<forall>r. within (n - 1) (f6 r)))"
  "within n (HttpDo q8 f7) = (0 < n \<and> (\<forall>r. within (n - 1) (f7 r)))"
  "within n (DdbGetItem t9 x9 f8) = (0 < n \<and> (\<forall>r. within (n - 1) (f8 r)))"
  "within n (DdbDescribe t10 f9) = (0 < n \<and> (\<forall>r. within (n - 1) (f9 r)))"
  "within n (TimeNow f10) = (0 < n \<and> (\<forall>r. within (n - 1) (f10 r)))"
  "within n (UuidNew f11) = (0 < n \<and> (\<forall>r. within (n - 1) (f11 r)))"
  "within n (RandInt m13 f12) = (0 < n \<and> (\<forall>r. within (n - 1) (f12 r)))"
  "within n (RandRead m14 f13) = (0 < n \<and> (\<forall>r. within (n - 1) (f13 r)))"
  "within n (SvcLoad f14) = (0 < n \<and> (\<forall>r. within (n - 1) (f14 r)))"
  "within n (SvcStore v16 f15) = (0 < n \<and> (\<forall>r. within (n - 1) (f15 r)))"
  "within n (SemTryAcquire m17 f16) = (0 < n \<and> (\<forall>r. within (n - 1) (f16 r)))"
  "within n (GoSendEmail q18 f17) = (0 < n \<and> (\<forall>r. within (n - 1) (f17 r)))"
  "within n (JwksLoad f18) = (0 < n \<and> (\<forall>r. within (n - 1) (f18 r)))"
  "within n (JwksStore c20 f19) = (0 < n \<and> (\<forall>r. within (n - 1) (f19 r)))"
  by (cases n; auto)+

lemma within_Suc: "within n p \<Longrightarrow> within (Suc n) p"
  by (induction n arbitrary: p) auto

lemma within_mono: "within m p \<Longrightarrow> m \<le> n \<Longrightarrow> within n p"
  by (induction n) (auto simp: le_Suc_eq dest: within_Suc simp del: within.simps)

lemma nexts_call: "(\<exists>a. p = Ret a) \<or> nexts (call p k) = (\<lambda>q. call q k) ` nexts p"
  by (cases p) (simp_all add: image_image)

lemma within_add: "within m p \<Longrightarrow> (\<And>a. within j (k a)) \<Longrightarrow> within (m + j) (call p k)"
proof (induction m arbitrary: p)
  case (Suc m)
  consider a where "p = Ret a" | "nexts (call p k) = (\<lambda>q. call q k) ` nexts p"
    using nexts_call [of p k] by blast
  then show ?case
  proof cases
    case 1
    then show ?thesis using within_mono [OF Suc.prems(2), of "Suc m + j" a] by simp
  qed (use Suc in auto)
qed auto

lemma within_call:
  assumes "within m p" and "m \<le> n" and "\<And>a. within (n - m) (k a)"
  shows "within n (call p k)"
  using within_add [OF assms(1,3)] assms(2) by simp

lemma nexts_advance: "(\<exists>a. p = Ret a) \<or> nexts (advance p k) = k ` nexts p"
  by (cases p) (simp_all add: image_image)

lemma within_advance:
  assumes "within m p" and "\<And>a. p = Ret a \<Longrightarrow> within n (k p)" and "\<And>q. 0 < m \<Longrightarrow> within (m - 1) q \<Longrightarrow> within (n - 1) (k q)"
    and "m \<le> n"
  shows "within n (advance p k)"
proof (cases "\<exists>a. p = Ret a")
  case True
  then show ?thesis using assms(2) by auto
next
  case False
  then obtain i where m: "m = Suc i" using assms(1) by (cases m) auto
  then obtain j where n: "n = Suc j" using assms(4) by (cases n) auto
  then show ?thesis using False nexts_advance [of p k] assms(1,3) m by auto
qed

text \<open>Two goroutines need the calls of both, under every schedule.\<close>

lemma within_par:
  fixes p :: "'a proc" and q :: "'b proc"
  shows "within m p \<Longrightarrow> within n q \<Longrightarrow> within (m + n) (par sch p q)"
proof (induction sch arbitrary: p q m n)
  case Nil
  have "within n (call q (\<lambda>b. Ret (a, b)))" for a by (rule within_call [OF Nil(2)]) simp_all
  then show ?case unfolding par.simps by (rule within_add [OF Nil(1)])
next
  case (Cons first sch)
  have left: "within (m + n - 1) (par sch p' q)" if "0 < m" "within (m - 1) p'" for p' :: "'a proc"
    using Cons.IH [OF that(2) Cons.prems(2)] that(1) by simp
  have right: "within (m + n - 1) (par sch p q')" if "0 < n" "within (n - 1) q'" for q' :: "'b proc"
    using Cons.IH [OF Cons.prems(1) that(2)] that(1) by simp
  show ?case
  proof (cases first)
    case True
    then show ?thesis using Cons.IH [OF Cons.prems] left by (auto intro: within_advance [OF Cons.prems(1)])
  next
    case False
    then show ?thesis using Cons.IH [OF Cons.prems] right by (auto intro: within_advance [OF Cons.prems(2)])
  qed
qed

text \<open>
  A run in the company of others: before each of its calls the world, and even the environment,
  may be any other.
\<close>

primrec driven :: "(nat \<Rightarrow> ('r, 'h, 'c) env) \<Rightarrow> (nat \<Rightarrow> ('r, 'h, 'c) world) \<Rightarrow> nat \<Rightarrow> 'a proc \<Rightarrow> 'a proc" where
  "driven E w 0 p = p"
| "driven E w (Suc n) p = driven E w n (fst (step_proc (E n) p (w n)))"

lemma step_nexts: "(\<exists>a. p = Ret a) \<or> fst (step_proc E p w) \<in> nexts p"
  by (cases p) (auto split: prod.split)

lemma within_driven: "within n p \<Longrightarrow> \<exists>a. driven E w n p = Ret a"
proof (induction n arbitrary: p)
  case (Suc n)
  then show ?case using step_nexts [of p "E n" "w n"] by (metis driven.simps(2) step_proc.simps(1) fst_conv within.simps(2) within_Ret)
qed simp

declare within.simps [simp del]

section \<open>Clients, stores and keys\<close>

lemmas within_splits = option.split sum.split prod.split

lemma within_cache:
  "within 1 (Reachable c)" "within 1 (ClaimSession c x)"
  "within 4 (GenerateAndStoreOTP c e)" "within 3 (VerifyOTP c e code)" "within 3 (IncrOTPAttempts c e)"
  "within 1 (DeleteOTPAttempts c e)" "within 1 (StoreRevoked c x t)" "within 1 (IsRevoked c x)"
  "within 1 (StoreRevokedFamily c x t)" "within 1 (IsFamilyRevoked c x)"
  "within 1 (StoreAuthCode c x entry)" "within 1 (GetAuthCode c x)" "within 1 (DeleteAuthCode c x)"
  by (auto simp: Reachable_def ClaimSession_def GenerateAndStoreOTP_def generateOTPCode_def VerifyOTP_def IncrOTPAttempts_def
      DeleteOTPAttempts_def StoreRevoked_def IsRevoked_def StoreRevokedFamily_def IsFamilyRevoked_def StoreAuthCode_def
      GetAuthCode_def DeleteAuthCode_def Let_def split: within_splits bool.split)

lemma within_webauthn:
  "within 1 (StoreWebAuthnRegistrationSession lib c u s)" "within 1 (GetWebAuthnRegistrationSession lib c u)"
  "within 1 (DeleteWebAuthnRegistrationSession c u)" "within 1 (StoreWebAuthnLoginSession lib c u ls)"
  "within 1 (GetWebAuthnLoginSession lib c u)" "within 1 (DeleteWebAuthnLoginSession c u)"
  by (auto simp: StoreWebAuthnRegistrationSession_def GetWebAuthnRegistrationSession_def
      DeleteWebAuthnRegistrationSession_def StoreWebAuthnLoginSession_def GetWebAuthnLoginSession_def
      DeleteWebAuthnLoginSession_def split: within_splits)

lemma within_get: "within 1 (authorized_get what url tok)"
  by (auto simp: authorized_get_def split: within_splits)

lemma within_clients:
  "within 1 (GetUserCredentials h e tok)" "within 1 (GetUserByID S h u tok)" "within 1 (ListPasskeyCredentials h u tok)"
  "within 1 (CreatePasskeyCredential h u tok d)" "within 1 (UpdatePasskeyCredential h u tok d)"
  "within 2 (IsBanned S b e)" "within 1 (Banned_Reachable b)" "within 1 (CommsReachable h)" "within 1 (CustomerReachable h)"
  "within 2 (SendEmail S h m)"
  by (auto simp: GetUserCredentials_def GetUserByID_def ListPasskeyCredentials_def CreatePasskeyCredential_def
      UpdatePasskeyCredential_def send_descriptor_def IsBanned_def Banned_Reachable_def CommsReachable_def CustomerReachable_def
      reachable_def SendEmail_def intro!: within_call [OF within_get] split: within_splits)

lemma within_keys:
  "within 4 (s_SignToken s i u a t sc)" "within 4 (s_SignRefreshToken s i u a z f t sc)"
  "within 1 (s_ParseClaims s tok)" "within 1 (s_ValidateAndParseClaims s tok)"
  by (auto simp: s_SignToken_def s_SignRefreshToken_def s_ParseClaims_def s_ValidateAndParseClaims_def SignToken_def
      SignTokenWithAZP_def SignRefreshToken_def ParseClaims_def ValidateAndParseClaims_def parseValidated_def split: within_splits)

text \<open>A routine's bound as a rule for a call of it.\<close>

lemmas within_calls_of = within_cache [THEN within_call] within_webauthn [THEN within_call] within_clients [THEN within_call]
  within_keys [THEN within_call]

lemma within_svc: "within 8 (getOrRefreshSvcJWT s)"
  by (auto simp: getOrRefreshSvcJWT_def Let_def intro!: within_calls_of split: within_splits)

lemmas within_routines = within_calls_of within_svc [THEN within_call]

section \<open>Handlers\<close>

lemma within_token_parts:
  "within 9 (cc_issue s c rec n f o')" "within 3 (refreshRevocationDenied s cl)" "within 11 (isRefreshTokenUserBanned s sc u)"
  "within 2 (revoke_rotated s cl)" "within 11 (exchange_banned s u)" "within 9 (exchange_issue s c entry)"
  by (auto simp: cc_issue_def refreshRevocationDenied_def isRefreshTokenUserBanned_def revoke_rotated_def exchange_banned_def
      exchange_issue_def respond_def Let_def intro!: within_routines split: within_splits)

lemma within_refresh: "within 11 (refresh_issue s c cl)"
  by (auto simp: refresh_issue_def respond_def Let_def intro!: within_routines within_token_parts [THEN within_call]
      split: within_splits)

lemma within_OAuthToken: "within 26 (OAuthTokenHandler s req)"
proof -
  have "within 25 (refresh_with s c rec cl)" for c rec cl
    by (auto simp: refresh_with_def respond_def Let_def intro!: within_token_parts [THEN within_call] within_mono [OF within_refresh]
        split: within_splits)
  then have refresh: "within 26 (handleRefreshToken s b)" for b
    by (auto simp: handleRefreshToken_def respond_def Let_def intro!: within_routines split: within_splits)
  have "within 9 (handleClientCredentials s b)" for b
    by (auto simp: handleClientCredentials_def respond_def Let_def within_token_parts split: within_splits)
  moreover have "within 22 (handleAuthorizationCode s b)" for b
    by (auto simp: handleAuthorizationCode_def respond_def Let_def intro!: within_routines within_token_parts [THEN within_call]
        within_token_parts split: within_splits)
  ultimately have "within 26 (handleClientCredentials s b)" "within 26 (handleAuthorizationCode s b)" for b
    by (auto intro: within_mono [of 9] within_mono [of 22])
  then show ?thesis
    using refresh by (auto simp: OAuthTokenHandler_def respond_def Let_def split: within_splits)
qed

lemma within_otp: "within 8 (OTPRequestHandler s req)" "within 20 (OTPVerifyHandler sch s req)"
proof -
  have "within 2 (otp_banned s e)" for e
    by (auto simp: otp_banned_def intro!: within_routines split: within_splits)
  then show "within 8 (OTPRequestHandler s req)"
    by (auto simp: OTPRequestHandler_def respond_def Let_def intro!: within_routines within_call [of 2 "otp_banned s e" for e]
        split: within_splits)
  have sides: "within (4 + 9) (par sch (verify_side c e code) (creds_side s e))" for c e code
    by (rule within_par) (auto simp: verify_side_def creds_side_def within_clients [simplified] intro!: within_routines
          split: within_splits)
  have "within 17 (verify_code sch s e code)" for e code
    by (auto simp: verify_code_def otp_issue_def respond_def Let_def intro!: within_call [OF sides] within_routines split: within_splits)
  then show "within 20 (OTPVerifyHandler sch s req)"
    by (auto simp: OTPVerifyHandler_def respond_def Let_def intro!: within_routines split: within_splits)
qed

lemma within_info:
  "within 4 (OAuthRevokeHandler s req)" "within 2 (OAuthIntrospectHandler s req)" "within 2 (ValidateTokenHandler s req)"
  "within 2 (JWKSHandler s req)" "within 0 (GetClientHandler s req)" "within 0 (ListClientsHandler s req)"
  by (auto simp: OAuthRevokeHandler_def revoke_claims_def OAuthIntrospectHandler_def ValidateTokenHandler_def JWKSHandler_def
      cachedJWKSBody_def GetClientHandler_def ListClientsHandler_def respond_def Let_def intro!: within_routines
      within_call [of 2 "cachedJWKSBody a" for a] split: within_splits)

lemma within_redirect: "within n (redirect_with u f)" "within n (redirectAuthorizeError u e d st)"
  by (auto simp: redirectAuthorizeError_def redirect_with_def respond_def split: option.split)

lemma within_if: "within n p \<Longrightarrow> within n q \<Longrightarrow> within n (if b then p else q)"
  by simp

lemma within_prod: "(\<And>a b. within n (f a b)) \<Longrightarrow> within n (case x of (a, b) \<Rightarrow> f a b)"
  by (simp split: prod.split)

lemma within_authorize: "within 2 (OAuthAuthorizeHandler s req)"
proof -
  have "within 1 generateAuthCode" by (auto simp: generateAuthCode_def split: sum.split)
  then have "within 2 (issue_code s entry st)" for entry st
    by (auto simp: issue_code_def Let_def intro!: within_call [of 1 generateAuthCode] within_routines within_redirect
        split: within_splits)
  then show ?thesis
    unfolding OAuthAuthorizeHandler_def sendAuthorizeDirectError_def respond_def Let_def
    by (intro within_if within_prod within_Ret within_redirect)
qed

lemma within_checks: "(\<And>c. c \<in> set cs \<Longrightarrow> within 1 c) \<Longrightarrow> within (length cs) (HealthReadyHandler cs req)"
proof (induction cs)
  case (Cons c cs)
  then have "within (1 + length cs) (HealthReadyHandler (c # cs) req)"
    by (auto simp: respond_def simp del: One_nat_def intro!: within_add split: option.split)
  then show ?case by simp
qed (simp add: respond_def)

lemma within_ready: "within 4 (HealthReadyHandler (public_checks s) req)"
proof -
  have "length (public_checks s) \<le> 4" by (auto simp: public_checks_def split: option.split)
  moreover have "within (length (public_checks s)) (HealthReadyHandler (public_checks s) req)"
    by (rule within_checks) (auto simp: public_checks_def within_cache [simplified] within_clients [simplified] split: option.splits)
  ultimately show ?thesis using within_mono by blast
qed

lemma within_passkeys:
  "within 12 (PasskeyRegisterBeginHandler wa s req)" "within 14 (PasskeyRegisterCompleteHandler wa s req)"
  "within 13 (PasskeyLoginBeginHandler wa s req)" "within 26 (PasskeyLoginCompleteHandler wa s req)"
proof -
  have ceremony: "within 2 (registration_ceremony lib u ds)" "within 2 (login_ceremony lib u cs)" for lib :: "'s webauthn_lib" and u ds cs
    by (auto simp: registration_ceremony_def login_ceremony_def split: sum.split)
  show "within 12 (PasskeyRegisterBeginHandler wa s req)"
    by (auto simp: PasskeyRegisterBeginHandler_def respond_def Let_def intro!: within_routines within_call [OF ceremony(1)]
        split: within_splits)
  show "within 14 (PasskeyRegisterCompleteHandler wa s req)"
    by (auto simp: PasskeyRegisterCompleteHandler_def register_credential_def respond_def Let_def intro!: within_routines
        split: within_splits)
  show "within 13 (PasskeyLoginBeginHandler wa s req)"
    by (auto simp: PasskeyLoginBeginHandler_def begin_login_def respond_def Let_def intro!: within_routines within_call [OF ceremony(2)]
        split: within_splits)
  have issue: "within 9 (passkey_issue s u c)" for u c
    by (auto simp: passkey_issue_def respond_def Let_def intro!: within_routines split: within_splits)
  have "within 2 (login_banned s e)" for e
    by (auto simp: login_banned_def intro!: within_routines split: within_splits)
  then have "within 14 (finish_login s h tok ch ls ds cr n)" for h tok ch ls ds cr n
    by (auto simp: finish_login_def respond_def Let_def intro!: within_routines within_call [of 2 "login_banned s e" for e] issue
        split: within_splits)
  then have "within 25 (complete_login lib s raw ch n ls)" for lib :: "'s webauthn_lib" and raw ch n ls
    by (auto simp: complete_login_def respond_def Let_def intro!: within_routines split: within_splits)
  then show "within 26 (PasskeyLoginCompleteHandler wa s req)"
    by (auto simp: PasskeyLoginCompleteHandler_def respond_def Let_def intro!: within_routines split: within_splits)
qed

text \<open>C40: Every handler returns, after at most the given number of calls to the outside, whatever is
  answered to them and whatever other requests, rotations and expiries do to the shared state before
  each call; for a verification, also whatever the schedule of its two goroutines.\<close>

theorem handlers_return:
  "(\<exists>r. driven E w 26 (OAuthTokenHandler s req) = Ret r) \<and>
   (\<exists>r. driven E w 2 (OAuthAuthorizeHandler s req) = Ret r) \<and>
   (\<exists>r. driven E w 4 (OAuthRevokeHandler s req) = Ret r) \<and>
   (\<exists>r. driven E w 2 (OAuthIntrospectHandler s req) = Ret r) \<and>
   (\<exists>r. driven E w 2 (ValidateTokenHandler s req) = Ret r) \<and>
   (\<exists>r. driven E w 8 (OTPRequestHandler s req) = Ret r) \<and>
   (\<exists>r. driven E w 20 (OTPVerifyHandler sch s req) = Ret r) \<and>
   (\<exists>r. driven E w 12 (PasskeyRegisterBeginHandler wa s req) = Ret r) \<and>
   (\<exists>r. driven E w 14 (PasskeyRegisterCompleteHandler wa s req) = Ret r) \<and>
   (\<exists>r. driven E w 13 (PasskeyLoginBeginHandler wa s req) = Ret r) \<and>
   (\<exists>r. driven E w 26 (PasskeyLoginCompleteHandler wa s req) = Ret r) \<and>
   (\<exists>r. driven E w 2 (JWKSHandler s req) = Ret r) \<and>
   (\<exists>r. driven E w 4 (HealthReadyHandler (public_checks s) req) = Ret r)"
  by (intro conjI within_driven within_OAuthToken within_authorize within_info within_otp within_passkeys within_ready)

end
