(* ===== verification/JsonFuel.thy ===== *)
theory JsonFuel
  imports GoJson
begin

text \<open>
  The fuel of the JSON parser is enough: from twice the length of the text on, more of it changes
  nothing, so that a syntax error of the model is one of the text.
\<close>

section \<open>Every scanner consumes its text\<close>

lemma skip_ws_shorter: "length (skip_ws s) \<le> length s"
  by (simp add: skip_ws_def length_dropWhile_le)

lemma skip_ws_Cons: "skip_ws s = c # cs \<Longrightarrow> length cs < length s"
  using skip_ws_shorter [of s] by simp

lemma scan_string_shorter: "scan_string s = Some (x, t) \<Longrightarrow> length t < length s"
proof (induction s arbitrary: x t rule: scan_string.induct)
  case (2 c cs)
  show ?case
  proof (cases "c = CHR 0x22")
    case True
    then show ?thesis using "2.prems" by (simp add: scan_string.simps)
  next
    case q: False
    show ?thesis
    proof (cases "c = CHR 0x5C")
      case True
      then obtain y r u where e: "scan_escape cs = Some (y, r)" "scan_string r = Some (u, t)"
        using "2.prems" q by (auto simp: scan_string.simps split: option.splits)
      show ?thesis using "2.IH"(1) [OF q True e(1) refl e(2)] scan_escape_shorter [OF e(1)] by simp
    next
      case b: False
      have c: "\<not> (of_char c :: nat) < 32" using "2.prems" q b by (auto simp: scan_string.simps split: if_splits)
      show ?thesis
      proof (cases "utf8_len (c # cs) = 0")
        case True
        then obtain u where "scan_string cs = Some (u, t)" using "2.prems" q b c by (auto simp: scan_string.simps)
        then show ?thesis using "2.IH"(2) [OF q b c True] by fastforce
      next
        case False
        then obtain u where u: "scan_string (drop (utf8_len (c # cs)) (c # cs)) = Some (u, t)"
          using "2.prems" q b c by (auto simp: scan_string.simps)
        show ?thesis using "2.IH"(3) [OF q b c False u] by simp
      qed
    qed
  qed
qed (simp add: scan_string.simps)

lemma digits_shorter: "digits_of u = (ds, r) \<Longrightarrow> length r \<le> length u"
  by (auto simp: digits_of_def length_dropWhile_le)

lemma scan_frac_shorter: "scan_frac u = Some (y, v) \<Longrightarrow> length v \<le> length u"
  by (cases u) (auto simp: scan_frac_def split: if_splits prod.splits dest!: digits_shorter)

lemma scan_exp_shorter: "scan_exp u = Some (y, v) \<Longrightarrow> length v \<le> length u"
proof (cases u)
  case (Cons c cs)
  assume e: "scan_exp u = Some (y, v)"
  show ?thesis
  proof (cases "c = CHR ''e'' \<or> c = CHR ''E''")
    case True
    then obtain r ds where "digits_of r = (ds, v)" "length r \<le> length cs"
      using e Cons by (cases cs) (auto simp: scan_exp_def Let_def split: if_splits prod.splits)
    then show ?thesis using digits_shorter [of r ds v] Cons by simp
  qed (use e Cons in \<open>simp add: scan_exp_def\<close>)
qed (simp add: scan_exp_def)

lemma scan_number_shorter: "scan_number s = Some (x, t) \<Longrightarrow> length t \<le> length s"
proof -
  assume n: "scan_number s = Some (x, t)"
  obtain a s1 b s2 fp s3 ep where s: "(case s of c # r \<Rightarrow> if c = CHR ''-'' then ([c], r) else ([], s) | [] \<Rightarrow> ([], s)) = (a, s1)"
      "(case s1 of c # r \<Rightarrow> if c = CHR ''0'' then ([c], r) else digits_of s1 | [] \<Rightarrow> ([], s1)) = (b, s2)"
      "scan_frac s2 = Some (fp, s3)" "scan_exp s3 = Some (ep, t)"
    using n unfolding scan_number_def Let_def by (simp split: prod.splits if_splits option.splits)
  have "length s1 \<le> length s" using s(1) by (auto split: list.splits if_splits)
  moreover have "length s2 \<le> length s1" using s(2) by (auto split: list.splits if_splits dest!: digits_shorter)
  ultimately show ?thesis using scan_frac_shorter [OF s(3)] scan_exp_shorter [OF s(4)] by linarith
qed

lemma parse_shorter:
  "parse_value d n s = Some (v, r) \<Longrightarrow> length r \<le> length s"
  "parse_elems d n s = Some (vs, r) \<Longrightarrow> length r \<le> length s"
  "parse_members d n s = Some (ms, r) \<Longrightarrow> length r \<le> length s"
proof (induction d n s and d n s and d n s arbitrary: v r and vs r and ms r rule: parse_value_parse_elems_parse_members.induct)
  case (2 d n s)
  show ?case
  proof (cases "skip_ws s")
    case (Cons c cs)
    have l: "length cs < length s" "\<And>e u. skip_ws cs = e # u \<Longrightarrow> length u < length cs"
      using Cons skip_ws_Cons by blast+
    then show ?thesis using 2 Cons
      by (auto simp: scan_literal_def split: if_splits list.splits dest!: scan_string_shorter scan_number_shorter) fastforce+
  qed (use 2 in simp)
next
  case (4 d n s)
  then show ?case by (fastforce split: option.splits list.splits if_splits dest: skip_ws_Cons)
next
  case (6 d n s)
  then show ?case by (fastforce split: option.splits list.splits if_splits dest: skip_ws_Cons scan_string_shorter)
qed simp_all

section \<open>More fuel changes nothing\<close>

lemma parse_more:
  "2 * length s < n \<Longrightarrow> parse_value d n s = parse_value d (Suc n) s"
  "2 * length s + 1 < n \<Longrightarrow> parse_elems d n s = parse_elems d (Suc n) s"
  "2 * length s + 1 < n \<Longrightarrow> parse_members d n s = parse_members d (Suc n) s"
proof (induction d n s and d n s and d n s rule: parse_value_parse_elems_parse_members.induct)
  case (2 d n s)
  show ?case
  proof (cases "skip_ws s")
    case (Cons c cs)
    then have "2 * length cs + 1 < n" using 2(3) skip_ws_Cons by fastforce
    then show ?thesis using 2(1,2) Cons by (simp split: list.split)
  qed simp
next
  case (4 d n s)
  have v: "parse_value d n s = parse_value d (Suc n) s" using 4 by simp
  have "parse_elems d n r' = parse_elems d (Suc n) r'" if "parse_value d n s = Some (x, r)" "skip_ws r = CHR '','' # r'" for x r r'
  proof -
    have "2 * length r' + 1 < n" using 4(3) parse_shorter(1) [OF that(1)] skip_ws_Cons [OF that(2)] by simp
    then show ?thesis using 4(2) [OF that(1) refl that(2) refl] by blast
  qed
  then show ?case by (simp only: parse_elems.simps v [symmetric]) (auto split: option.split list.split)
next
  case (6 d n s)
  have "parse_value d n r' = parse_value d (Suc n) r' \<and> (\<forall>v u t'. parse_value d n r' = Some (v, u) \<and> skip_ws u = CHR '','' # t' \<longrightarrow>
      parse_members d n t' = parse_members d (Suc n) t')"
    if k: "skip_ws s = CHR 0x22 # cs" "scan_string cs = Some (k, r)" "skip_ws r = CHR '':'' # r'" for cs k r r'
  proof -
    have l: "length r' + 2 < length s"
      using skip_ws_Cons [OF k(1)] scan_string_shorter [OF k(2)] skip_ws_Cons [OF k(3)] by simp
    have "parse_members d n t' = parse_members d (Suc n) t'" if p: "parse_value d n r' = Some (v, u)" "skip_ws u = CHR '','' # t'" for v u t'
    proof -
      have "2 * length t' + 1 < n" using 6(3) l parse_shorter(1) [OF p(1)] skip_ws_Cons [OF p(2)] by simp
      then show ?thesis using 6(2) [OF k(1) _ k(2) refl k(3) _ p(1) refl p(2) refl] by simp
    qed
    moreover have "parse_value d n r' = parse_value d (Suc n) r'"
      using 6(1) [OF k(1) _ k(2) refl k(3)] 6(3) l by simp
    ultimately show ?thesis by blast
  qed
  note sub = this
  have "parse_members d (Suc m) s = None"
    if "\<not> (\<exists>cs k r r'. skip_ws s = CHR 0x22 # cs \<and> scan_string cs = Some (k, r) \<and> skip_ws r = CHR '':'' # r')" for m
    using that by (auto split: list.split option.split)
  then consider cs k r r' where "skip_ws s = CHR 0x22 # cs" "scan_string cs = Some (k, r)" "skip_ws r = CHR '':'' # r'"
    | "\<And>m. parse_members d (Suc m) s = None" by blast
  then show ?case
  proof cases
    case (1 cs k r r')
    note sub = sub [OF 1]
    show ?thesis
    proof (cases "parse_value d n r'")
      case None
      then show ?thesis using 1 sub by simp
    next
      case (Some p)
      then show ?thesis using 1 sub by (cases p) (simp split: list.split)
    qed
  next
    case 2
    then show ?thesis by (simp only:)
  qed
qed simp_all

lemma parse_value_fuel: "2 * length s < n \<Longrightarrow> n \<le> m \<Longrightarrow> parse_value d m s = parse_value d n s"
proof (induction m)
  case (Suc m)
  then show ?case using parse_more(1) [of s m d] by (cases "n = Suc m") simp_all
qed simp

lemma parse_prefix_fuel: "2 * length s + 2 \<le> m \<Longrightarrow> parse_value maxNestingDepth m s = parse_prefix s"
  unfolding parse_prefix_def by (rule parse_value_fuel) simp_all

end
