(* ===== verification/FlowProps.thy ===== *)
theory FlowProps
  imports GrantProps AuthorizeProps OtpEndpointProps RefreshProps KeyProps PasskeyFlowProps
begin

text \<open>
  Flows across endpoints: what the tokens that one endpoint issues are good for at the others.
  Login tokens open the registration of passkeys and client tokens do not; the refresh token of a
  passkey login refreshes; and what follows from the authorization endpoint taking the user and
  the scopes from its query.
\<close>

section \<open>Tokens with a time of signing\<close>

text \<open>A token of the service, signed between two times.\<close>

definition signed_between ::
  "Service \<Rightarrow> string \<Rightarrow> string \<Rightarrow> string \<Rightarrow> string \<Rightarrow> string \<Rightarrow> int \<Rightarrow> string list \<Rightarrow> int \<Rightarrow> int \<Rightarrow> bool" where
  "signed_between s tok sub aud azp fam ttl scopes lo hi \<longleftrightarrow>
     (\<exists>t1 t2 t3 jti. own_token s tok (refresh_claims this_issuer sub aud azp fam ttl scopes t1 t2 t3 jti) \<and>
        lo \<le> t1 \<and> t3 \<le> hi)"

lemma sign_between:
  assumes "clock_ok E clock"
  shows "exec (s_SignToken s this_issuer sub aud ttl scopes) E w = (Inr tok, w') \<Longrightarrow>
      signed_between s tok sub aud [] [] ttl scopes (clock (w_rt w)) (clock (w_rt w'))"
    and "exec (s_SignRefreshToken s this_issuer sub aud azp fam ttl scopes) E w = (Inr tok, w') \<Longrightarrow>
      signed_between s tok sub aud azp fam ttl scopes (clock (w_rt w)) (clock (w_rt w'))"
proof -
  obtain t1 c1 where 1: "env_now E (w_rt w) = (t1, c1)" by fastforce
  obtain t2 c2 where 2: "env_now E c1 = (t2, c2)" by fastforce
  obtain t3 c3 where 3: "env_now E c2 = (t3, c3)" by fastforce
  obtain jti c4 where 4: "env_uuid E c3 = (jti, c4)" by fastforce
  have le: "clock (w_rt w) \<le> t1" "t3 \<le> clock c4"
    using clock_now [OF assms 1] clock_now [OF assms 3] clock_other(2) [OF assms 4] by auto
  show "signed_between s tok sub aud [] [] ttl scopes (clock (w_rt w)) (clock (w_rt w'))"
    if "exec (s_SignToken s this_issuer sub aud ttl scopes) E w = (Inr tok, w')"
    using that 1 2 3 4 le
    by (auto simp: s_SignToken_def exec_SignToken exec_SignRefreshToken own_token_def signed_between_def
        split: option.splits) blast
  show "signed_between s tok sub aud azp fam ttl scopes (clock (w_rt w)) (clock (w_rt w'))"
    if "exec (s_SignRefreshToken s this_issuer sub aud azp fam ttl scopes) E w = (Inr tok, w')"
    using that 1 2 3 4 le
    by (auto simp: s_SignRefreshToken_def exec_SignRefreshToken own_token_def signed_between_def
        split: option.splits) blast
qed

lemma signed_between_mono:
  "signed_between s tok sub aud azp fam ttl scopes lo hi \<Longrightarrow> lo' \<le> lo \<Longrightarrow> hi \<le> hi' \<Longrightarrow>
     signed_between s tok sub aud azp fam ttl scopes lo' hi'"
  unfolding signed_between_def by (meson order_trans)

text \<open>A reading at which such a token is in date; the last second is lost to the rounding.\<close>

definition in_date :: "('r, 'h, 'c) env \<Rightarrow> ('c \<Rightarrow> int) \<Rightarrow> int \<Rightarrow> int \<Rightarrow> int \<Rightarrow> ('r, 'h, 'c) world \<Rightarrow> bool" where
  "in_date E clock lo hi ttl v \<longleftrightarrow>
     hi \<le> clock (w_rt v) \<and> fst (env_now E (w_rt v)) + second_ns \<le> lo + ttl * second_ns"

lemma in_date_valid:
  assumes "clock_ok E clock" and "in_date E clock lo hi ttl v" and "lo \<le> t1" and "t3 \<le> hi"
  shows "dates_valid (fst (env_now E (w_rt v))) (refresh_claims iss sub aud azp fam ttl scopes t1 t2 t3 jti)"
proof -
  define n where "n = fst (env_now E (w_rt v))"
  have "clock (w_rt v) \<le> n" using clock_now [OF assms(1)] unfolding n_def by (metis prod.collapse)
  then have 1: "t3 \<le> n" using assms(2,4) by (simp add: in_date_def)
  have 2: "n + 1000000000 \<le> t1 + ttl * 1000000000"
    using assms(2,3) by (simp add: in_date_def n_def second_ns_def)
  have "t3 div 1000000000 * 1000000000 \<le> n" using 1 div_mult_mod_eq [of t3 1000000000] pos_mod_sign [of 1000000000 t3] by linarith
  moreover have "n < (t1 + ttl * 1000000000) div 1000000000 * 1000000000"
    using 2 div_mult_mod_eq [of "t1 + ttl * 1000000000" 1000000000] pos_mod_bound [of 1000000000 "t1 + ttl * 1000000000"]
    by linarith
  ultimately show ?thesis unfolding n_def [symmetric] by (simp add: dates_valid_def refresh_claims_def to_seconds_def)
qed

section \<open>What a service accepts\<close>

text \<open>The key set of a service whose JWT library is as documented, with the issuer and one audience.\<close>

definition accepts :: "Service \<Rightarrow> string \<Rightarrow> bool" where
  "accepts s aud \<longleftrightarrow> jwt_complete (sv_lib s) \<and> (\<exists>k act. sv_JWT s = Some k \<and> keys_ready k \<and> k_active k = Some act \<and>
     usable_key k act \<and> ks_iss act = this_issuer \<and> ks_aud act = aud \<and> aud \<noteq> [] \<and> to_valid aud = aud)"

lemma accepted_parses:
  assumes "accepts s aud'" and "clock_ok E clock"
    and "signed_between s tok sub aud azp fam ttl scopes lo hi" and "in_date E clock lo hi ttl v"
  shows "\<exists>t1 t2 t3 jti. fst (exec (s_ParseClaims s tok) E v) =
    Inr (valid_claims (refresh_claims this_issuer sub aud azp fam ttl scopes t1 t2 t3 jti))"
proof -
  obtain t1 t2 t3 jti where t: "own_token s tok (refresh_claims this_issuer sub aud azp fam ttl scopes t1 t2 t3 jti)"
    "lo \<le> t1" "t3 \<le> hi" using assms(3) by (auto simp: signed_between_def)
  then show ?thesis
    using assms(1) ParseClaims_complete [OF _ _ _ _ in_date_valid [OF assms(2,4) t(2,3)], of "sv_lib s"]
    unfolding accepts_def own_token_def s_ParseClaims_def by fastforce
qed

lemma accepted_verifies:
  assumes "accepts s aud" and "clock_ok E clock"
    and "signed_between s tok sub aud azp fam ttl scopes lo hi" and "in_date E clock lo hi ttl v"
  shows "\<exists>a. fst (exec (tokenVerifier_Verify s tok) E v) = Inr a \<and> au_Subject a = to_valid sub \<and>
    au_Scopes a = map to_valid scopes"
proof -
  obtain k act where k: "jwt_complete (sv_lib s)" "sv_JWT s = Some k" "keys_ready k" "k_active k = Some act" "usable_key k act"
      "ks_iss act = this_issuer" "ks_aud act = aud" "aud \<noteq> []" "to_valid aud = aud"
    using assms(1) by (auto simp: accepts_def)
  obtain t1 t2 t3 jti where t: "own_token s tok (refresh_claims this_issuer sub aud azp fam ttl scopes t1 t2 t3 jti)"
    "lo \<le> t1" "t3 \<le> hi" using assms(3) by (auto simp: signed_between_def)
  let ?c = "refresh_claims this_issuer sub aud azp fam ttl scopes t1 t2 t3 jti"
  let ?o = "\<lparr>po_Issuer = Some (ks_iss act), po_Audience = Some (ks_aud act), po_ValidMethods = [''RS256'']\<rparr>"
  have sg: "gj_SignedString (sv_lib s) (ks_kid act) ?c (ks_privateKey act) = Inr tok"
    using t(1) k by (auto simp: own_token_def)
  have "opts_valid ?o (valid_claims ?c)"
    using k by (simp add: opts_valid_def valid_claims_def refresh_claims_def this_issuer_def to_valid_ascii)
  then have "gj_ParseWithClaims (sv_lib s) tok (keyForToken k) ?o (fst (env_now E (w_rt v)))
      = Inr \<lparr>tk_Claims = valid_claims ?c, tk_Valid = True\<rparr>"
    using k(1) sg in_date_valid [OF assms(2,4) t(2,3)] keyForToken_usable [OF k(3,5)] unfolding jwt_complete_def by auto
  moreover obtain now rt where "env_now E (w_rt v) = (now, rt)" by fastforce
  ultimately have "fst (exec (s_ValidateAndParseClaims s tok) E v) = Inr (valid_claims ?c)"
    using k by (simp add: s_ValidateAndParseClaims_def ValidateAndParseClaims_def parseValidated_def this_issuer_def)
  then show ?thesis
    by (cases "exec (s_ValidateAndParseClaims s tok) E v")
      (simp add: tokenVerifier_Verify_def exec_call valid_claims_def refresh_claims_def)
qed

section \<open>The tokens of each endpoint\<close>

lemma otp_issue_between:
  assumes "clock_ok E clock" and "exec (otp_issue s sub) E w = (r, w')" and "issued r = Some t"
  shows "signed_between s (ts_AccessToken t) sub audienceUser [] [] otpTokenTTL [''otp:verified''] (clock (w_rt w)) (clock (w_rt w'))"
  using assms(2,3)
  by (auto simp: otp_issue_def Let_def exec_call split: prod.splits sum.splits dest!: sign_between(1) [OF assms(1)])

lemma OTPVerify_between:
  assumes "clock_ok E clock" and "exec (OTPVerifyHandler sch s req) E w = (r, w')" and "issued r = Some t"
  shows "\<exists>email creds u u'. exec (creds_side s email) E u = (Inr (Some creds), u') \<and>
    signed_between s (ts_AccessToken t) (cred_UserId creds) audienceUser [] [] otpTokenTTL [''otp:verified'']
      (clock (w_rt w)) (clock (w_rt w'))"
proof -
  obtain body where b: "and_then (Decode (in_Body req)) (OTPVerifyRequest_of_json (sv_sdk s)) = Inr body"
    using assms(2,3) by (auto simp: OTPVerifyHandler_def Let_def split: sum.splits)
  define email code where "email = normal_email (ov_Email body)" and "code = strings_TrimSpace (ov_Code body)"
  obtain n w1 where i: "exec (IncrOTPAttempts (sv_CacheClient s) email) E w = (n, w1)" by fastforce
  have v: "exec (verify_code sch s email code) E w1 = (r, w')"
    using assms(2,3) b i
    by (cases n) (auto simp: OTPVerifyHandler_def Let_def exec_call email_def code_def split: sum.splits if_splits)
  obtain w2 w3 w4 creds where st: "exec (VerifyOTP (sv_CacheClient s) email code) E w1 = (None, w2)"
    "exec (DeleteOTPAttempts (sv_CacheClient s) email) E w2 = ((), w3)"
    "exec (creds_side s email) E w3 = (Inr (Some creds), w4)" "exec (otp_issue s (cred_UserId creds)) E w4 = (r, w')"
    using verify_code_issued [OF v assms(3)] by blast
  note mono = exec_clock_mono [OF assms(1)]
  have "clock (w_rt w) \<le> clock (w_rt w4)"
    using mono [OF i] mono [OF st(1)] mono [OF st(2)] mono [OF st(3)] by simp
  then show ?thesis
    using signed_between_mono [OF otp_issue_between [OF assms(1) st(4) assms(3)] _ order_refl] st(3) by blast
qed

lemma exchange_issue_between:
  assumes "clock_ok E clock" and "exec (exchange_issue s cid e) E w = (r, w')" and "issued r = Some t"
  shows "signed_between s (ts_AccessToken t) (ac_UserID e) audienceUser [] [] accessTokenTTL (strings_Fields (ac_Scope e))
      (clock (w_rt w)) (clock (w_rt w')) \<and>
    (\<exists>rt fam. ts_RefreshToken t = Some rt \<and> signed_between s rt (ac_UserID e) audienceUser cid fam refreshTokenTTL
       (offline_access # strings_Fields (ac_Scope e)) (clock (w_rt w)) (clock (w_rt w')))"
proof -
  have f: "(if ac_Scope e \<noteq> [] then strings_Fields (ac_Scope e) else []) = strings_Fields (ac_Scope e)"
    by (simp add: strings_Fields_def)
  let ?sc = "strings_Fields (ac_Scope e)"
  obtain a w1 where a: "exec (s_SignToken s this_issuer (ac_UserID e) audienceUser accessTokenTTL ?sc) E w = (Inr a, w1)"
    using assms(2,3) by (auto simp: exchange_issue_def f Let_def exec_call split: prod.splits sum.splits)
  obtain fam rt where u: "env_uuid E (w_rt w1) = (fam, rt)" by fastforce
  obtain b w2 where b: "exec (s_SignRefreshToken s this_issuer (ac_UserID e) audienceUser cid fam refreshTokenTTL
      (offline_access # ?sc)) E (w1\<lparr>w_rt := rt\<rparr>) = (Inr b, w2)"
    using assms(2,3) a u by (auto simp: exchange_issue_def f Let_def exec_call split: prod.splits sum.splits)
  have t: "ts_AccessToken t = a" "ts_RefreshToken t = Some b" "w' = w2"
    using assms(2,3) a u b by (auto simp: exchange_issue_def f Let_def exec_call)
  have "clock (w_rt w) \<le> clock (w_rt w1)" "clock (w_rt w1) \<le> clock rt" "clock rt \<le> clock (w_rt w2)"
    using exec_clock_mono [OF assms(1) a] clock_other(2) [OF assms(1) u] exec_clock_mono [OF assms(1) b] by simp_all
  then show ?thesis
    using t signed_between_mono [OF sign_between(1) [OF assms(1) a] order_refl, of "clock (w_rt w')"]
      signed_between_mono [OF sign_between(2) [OF assms(1) b], of "clock (w_rt w)" "clock (w_rt w')"] by auto
qed

lemma passkey_issue_between:
  assumes "clock_ok E clock" and "exec (passkey_issue s sub cid) E w = (r, w')" and "issued r = Some t"
  shows "signed_between s (ts_AccessToken t) sub audienceUser [] [] otpTokenTTL [passkeyLoginScope]
      (clock (w_rt w)) (clock (w_rt w')) \<and>
    (\<exists>rt fam. ts_RefreshToken t = Some rt \<and> signed_between s rt sub audienceUser cid fam refreshTokenTTL
       [''offline_access''] (clock (w_rt w)) (clock (w_rt w')))"
proof -
  obtain a w1 where a: "exec (s_SignToken s this_issuer sub audienceUser otpTokenTTL [passkeyLoginScope]) E w = (Inr a, w1)"
    using assms(2,3) by (auto simp: passkey_issue_def Let_def exec_call split: prod.splits sum.splits)
  obtain fam rt where u: "env_uuid E (w_rt w1) = (fam, rt)" by fastforce
  obtain b w2 where b: "exec (s_SignRefreshToken s this_issuer sub audienceUser cid fam refreshTokenTTL
      [''offline_access'']) E (w1\<lparr>w_rt := rt\<rparr>) = (Inr b, w2)"
    using assms(2,3) a u by (auto simp: passkey_issue_def Let_def exec_call split: prod.splits sum.splits)
  have t: "ts_AccessToken t = a" "ts_RefreshToken t = Some b" "w' = w2"
    using assms(2,3) a u b by (auto simp: passkey_issue_def Let_def exec_call)
  have "clock (w_rt w) \<le> clock (w_rt w1)" "clock (w_rt w1) \<le> clock rt" "clock rt \<le> clock (w_rt w2)"
    using exec_clock_mono [OF assms(1) a] clock_other(2) [OF assms(1) u] exec_clock_mono [OF assms(1) b] by simp_all
  then show ?thesis
    using t signed_between_mono [OF sign_between(1) [OF assms(1) a] order_refl, of "clock (w_rt w')"]
      signed_between_mono [OF sign_between(2) [OF assms(1) b], of "clock (w_rt w)" "clock (w_rt w')"] by auto
qed

section \<open>Who can register a passkey\<close>

lemma other_audience_refused:
  assumes "jwt_sound (sv_lib s)" and "jwt_payload (sv_lib s)" and "sv_JWT s = Some k" and "k_active k = Some act"
    and "token_for s tok sub aud azp fam ttl scopes now" and "to_valid aud \<noteq> ks_aud act"
  shows "\<exists>e. fst (exec (tokenVerifier_Verify s tok) E v) = Inl e"
proof -
  obtain t2 t3 jti where sg: "gj_SignedString (sv_lib s) (ks_kid act)
      (refresh_claims this_issuer sub aud azp fam ttl scopes now t2 t3 jti) (ks_privateKey act) = Inr tok"
    using assms(3-5) by (auto simp: token_for_def own_token_def)
  obtain n rt where n: "env_now E (w_rt v) = (n, rt)" by fastforce
  let ?o = "\<lparr>po_Issuer = Some (ks_iss act), po_Audience = Some (ks_aud act), po_ValidMethods = [''RS256'']\<rparr>"
  have "\<exists>e. gj_ParseWithClaims (sv_lib s) tok (keyForToken k) ?o n = Inl e"
  proof (cases "gj_ParseWithClaims (sv_lib s) tok (keyForToken k) ?o n")
    case (Inr p)
    then have "tk_Claims p = valid_claims (refresh_claims this_issuer sub aud azp fam ttl scopes now t2 t3 jti)"
      using assms(2) sg unfolding jwt_payload_def by blast
    moreover have "opts_valid ?o (tk_Claims p)" using Inr assms(1) unfolding jwt_sound_def by blast
    ultimately show ?thesis using assms(6) by (simp add: opts_valid_def valid_claims_def refresh_claims_def)
  qed simp
  then obtain e where "gj_ParseWithClaims (sv_lib s) tok (keyForToken k) ?o n = Inl e" by blast
  then show ?thesis
    using assms(3,4) n
    by (simp add: tokenVerifier_Verify_def s_ValidateAndParseClaims_def ValidateAndParseClaims_def parseValidated_def exec_call)
qed

lemma cc_token:
  assumes "exec (handleClientCredentials s rb) E w = (r, w')" and "issued r = Some t"
    and "registered (sv_ClientRegistry s) (tr_ClientId rb) = Some rec"
  shows "\<exists>scopes now. token_for s (ts_AccessToken t) (tr_ClientId rb) (token_audience rec) [] [] accessTokenTTL scopes now"
proof -
  obtain rec' where c: "cc_checks s rb = Inr rec'"
    using assms(1,2) by (cases "cc_checks s rb") (auto simp: handleClientCredentials_checks issued_def cc_checks_def
        Let_def split: if_splits option.splits)
  obtain sc fs off where sp: "split_offline (requested_scope rb) = (sc, fs, off)" using prod_cases3 by blast
  have "rec' = rec" using cc_checks_Inr [OF c sp] assms(3) by simp
  moreover have "exec (cc_issue s (tr_ClientId rb) rec' sc fs off) E w = (r, w')"
    using assms(1) c sp by (simp add: handleClientCredentials_checks)
  ultimately show ?thesis using cc_issue_issued [OF _ assms(2)] by blast
qed

text \<open>C32: In a program whose configured audience is the user audience, the token that an e-mail
  login issues passes the authentication of the passkey routes, in any state in which it is in
  date, with the account that the customer API named as its subject and the scope
  \<open>otp:verified\<close>; the token of a client with another audience never does, whatever its scopes.\<close>

theorem registration_open_to_logins:
  assumes "clock_ok E clock" and "accepts s audienceUser" and "jwt_sound (sv_lib s)" and "jwt_payload (sv_lib s)"
    and "exec (OTPVerifyHandler sch s req) E w = (r, w')" and "issued r = Some t"
    and "in_date E clock (clock (w_rt w)) (clock (w_rt w')) otpTokenTTL v"
    and "exec (handleClientCredentials s rb) E u = (r', u')" and "issued r' = Some t'"
    and "registered (sv_ClientRegistry s) (tr_ClientId rb) = Some rec" and "to_valid (token_audience rec) \<noteq> audienceUser"
  shows "(\<exists>email creds x x' a. exec (creds_side s email) E x = (Inr (Some creds), x') \<and>
      fst (exec (tokenVerifier_Verify s (ts_AccessToken t)) E v) = Inr a \<and>
      au_Subject a = to_valid (cred_UserId creds) \<and> au_Scopes a = [''otp:verified'']) \<and>
    (\<exists>e. fst (exec (tokenVerifier_Verify s (ts_AccessToken t')) E v) = Inl e)"
proof -
  obtain email creds x x' where c: "exec (creds_side s email) E x = (Inr (Some creds), x')"
    and b: "signed_between s (ts_AccessToken t) (cred_UserId creds) audienceUser [] [] otpTokenTTL [''otp:verified'']
      (clock (w_rt w)) (clock (w_rt w'))"
    using OTPVerify_between [OF assms(1,5,6)] by blast
  obtain a where a: "fst (exec (tokenVerifier_Verify s (ts_AccessToken t)) E v) = Inr a"
      "au_Subject a = to_valid (cred_UserId creds)" "au_Scopes a = map to_valid [''otp:verified'']"
    using accepted_verifies [OF assms(2,1) b assms(7)] by blast
  obtain k act where k: "sv_JWT s = Some k" "k_active k = Some act" "ks_aud act = audienceUser"
    using assms(2) by (auto simp: accepts_def)
  obtain scopes now where "token_for s (ts_AccessToken t') (tr_ClientId rb) (token_audience rec) [] [] accessTokenTTL scopes now"
    using cc_token [OF assms(8-10)] by blast
  from other_audience_refused [OF assms(3,4) k(1,2) this] assms(11) k(3)
  have "\<exists>e. fst (exec (tokenVerifier_Verify s (ts_AccessToken t')) E v) = Inl e" by simp
  moreover have "au_Scopes a = [''otp:verified'']" using a(3) by (simp add: to_valid_ascii)
  ultimately show ?thesis using c a(1,2) by blast
qed

lemma local_accepts: "accepts local_service audienceUser"
  using local_jwt_complete local_keys_ready local_keyset_usable
  by (simp add: accepts_def local_keys_def local_keyset_def this_issuer_def audienceUser_def to_valid_ascii)

lemma local_in_date:
  assumes "rt_now (w_rt w) = n" and "rt_now (w_rt v) = n" and "1 \<le> ttl"
  shows "in_date local_env rt_now (rt_now (w_rt w)) n ttl v"
  using assms by (simp add: in_date_def second_ns_def)

theorem registration_open_to_logins_witness:
  "\<exists>t t' a e. issued (fst (exec (OTPVerifyHandler [] local_service login_request) local_env login_world)) = Some t \<and>
    fst (exec (tokenVerifier_Verify local_service (ts_AccessToken t)) local_env login_world) = Inr a \<and>
    au_Scopes a = [''otp:verified''] \<and>
    issued (fst (exec (handleClientCredentials local_service (orders_request ''orders:read offline_access'')) local_env
      login_world)) = Some t' \<and>
    fst (exec (tokenVerifier_Verify local_service (ts_AccessToken t')) local_env login_world) = Inl e"
proof -
  obtain r w' where e: "exec (OTPVerifyHandler [] local_service login_request) local_env login_world = (r, w')" by fastforce
  obtain t where t: "issued r = Some t" using login_issued [of "[]"] e by auto
  let ?rb = "orders_request ''orders:read offline_access''"
  obtain r' u' where c: "exec (handleClientCredentials local_service ?rb) local_env login_world = (r', u')" by fastforce
  obtain t' where t': "issued r' = Some t'" using orders_issued [of login_world] c by auto
  have d: "in_date local_env rt_now (rt_now (w_rt login_world)) (rt_now (w_rt w')) otpTokenTTL login_world"
    using local_in_date [of login_world 5 login_world otpTokenTTL] local_exec [OF e]
    by (simp add: login_world_def local_world_def otpTokenTTL_def)
  have aud: "to_valid (token_audience local_record) \<noteq> audienceUser"
    by (simp add: token_audience_def local_record_def audienceService_def audienceUser_def to_valid_ascii)
  have reg: "registered (sv_ClientRegistry local_service) (tr_ClientId ?rb) = Some local_record" by simp
  from registration_open_to_logins [OF local_clock local_accepts _ _ e t d c t' reg aud]
  show ?thesis using e t c t' by (auto simp: local_jwt_sound local_jwt_payload)
qed

section \<open>The user and the scopes of an authorization request\<close>

lemma exchange_between:
  assumes "clock_ok E clock" and "exec (handleAuthorizationCode s rb) E w = (r, w')" and "issued r = Some t"
    and "tr_Code rb = Some code" and "exec (GetAuthCode (sv_CacheClient s) code) E w = (Inr e, w1)"
  shows "signed_between s (ts_AccessToken t) (ac_UserID e) audienceUser [] [] accessTokenTTL (strings_Fields (ac_Scope e))
      (clock (w_rt w)) (clock (w_rt w')) \<and>
    (\<exists>rt fam. ts_RefreshToken t = Some rt \<and> signed_between s rt (ac_UserID e) audienceUser (tr_ClientId rb) fam refreshTokenTTL
       (offline_access # strings_Fields (ac_Scope e)) (clock (w_rt w)) (clock (w_rt w')))"
proof -
  obtain code' verifier e' v1 d v2 v3 where st: "tr_Code rb = Some code'"
    "exec (GetAuthCode (sv_CacheClient s) code') E w = (Inr e', v1)"
    "exec (DeleteAuthCode (sv_CacheClient s) code') E v1 = (d, v2)"
    "exec (exchange_banned s (ac_UserID e')) E v2 = (False, v3)"
    "exec (exchange_issue s (tr_ClientId rb) e') E v3 = (r, w')"
    by (rule handleAuthorizationCode_issued [OF assms(2,3)])
  have e: "e' = e" using st(1,2) assms(4,5) by simp
  note mono = exec_clock_mono [OF assms(1)]
  have le: "clock (w_rt w) \<le> clock (w_rt v3)"
    using mono [OF st(2)] mono [OF st(3)] mono [OF st(4)] by simp
  from exchange_issue_between [OF assms(1) st(5) assms(3)] show ?thesis
    unfolding e using signed_between_mono [OF _ le order_refl] by blast
qed

text \<open>C20: The authorization endpoint takes the user and the scopes from its query and asks for no
  login. Whoever names a user, a client's ID and registered redirect URI and the scope
  \<open>passkey:verified\<close> gets, without any secret, a token for that user with which the authentication
  and the scope check of the passkey registration are passed.\<close>

theorem asked_scope_opens_registration:
  assumes "clock_ok E clock" and "accepts s audienceUser"
    and "kv_reliable (env_cache E) live ok" and "cc_api (sv_CacheClient s) \<noteq> None" and "ok (w_redis w)"
    and "well_asked s req" and "utf8_entry (asked_entry req)" and "url_Parse (asked req ''redirect_uri'') = Some u"
    and "env_rand_read E authCodeBytes (w_rt w) = (Inr b, rt)" and "code = base64_RawURL_EncodeToString b"
    and "live (w_redis w) (authCodeKeyPrefix @ code) = None"
    and "signs s" and "sv_BannedChecker s = None" and "presents s rb code (asked_entry req)"
    and "''passkey:verified'' \<in> set (strings_Fields (asked req ''scope''))"
  shows "\<exists>a w1 t w2. exec (OAuthAuthorizeHandler s req) E w = (a, w1) \<and>
    exec (handleAuthorizationCode s (rb\<lparr>tr_ClientSecret := []\<rparr>)) E w1 =
      (\<lparr>rs_Headers = json_no_store, rs_Outcome = Reply 200 (TokenBody t)\<rparr>, w2) \<and>
    (\<forall>v. in_date E clock (clock (w_rt w1)) (clock (w_rt w2)) accessTokenTTL v \<longrightarrow>
      (\<exists>c. fst (exec (tokenVerifier_Verify s (ts_AccessToken t)) E v) = Inr c \<and>
        au_Subject c = asked req ''user_id'' \<and> ''passkey:verified'' \<in> set (au_Scopes c)))"
proof -
  let ?rb = "rb\<lparr>tr_ClientSecret := []\<rparr>"
  have p: "presents s ?rb code (asked_entry req)" using assms(14) by (simp add: presents_def)
  obtain a w1 where w1: "exec (OAuthAuthorizeHandler s req) E w = (a, w1)" "ok (w_redis w1)"
    "live (w_redis w1) (authCodeKeyPrefix @ code) = Some (print_value (AuthCodeEntry_to_json (asked_entry req)))"
    using kv_reliable.authorize_hands_out [OF assms(3) refl assms(4-6,8-11)] by auto
  obtain t w2 where w2: "exec (handleAuthorizationCode s ?rb) E w1 =
      (\<lparr>rs_Headers = json_no_store, rs_Outcome = Reply 200 (TokenBody t)\<rparr>, w2)"
    using kv_reliable.exchange_completes [OF assms(3) refl assms(4) w1(2) assms(12,13) p assms(7) w1(3)] by blast
  obtain v where g: "exec (GetAuthCode (sv_CacheClient s) code) E w1 = (Inr (asked_entry req), v)"
    using kv_reliable.GetAuthCode_exec [OF assms(3) refl assms(4) w1(2), of code] w1(3) assms(7) by auto
  have "tr_Code ?rb = Some code" using p by (simp add: presents_def)
  with exchange_between [OF assms(1) w2 issued_simps(2) _ g]
  have t: "signed_between s (ts_AccessToken t) (asked req ''user_id'') audienceUser [] [] accessTokenTTL
      (strings_Fields (asked req ''scope'')) (clock (w_rt w1)) (clock (w_rt w2))"
    by (simp add: asked_entry_def)
  have "to_valid (asked req ''user_id'') = asked req ''user_id''"
    using assms(7) by (simp add: utf8_entry_def asked_entry_def)
  moreover have "''passkey:verified'' \<in> set (map to_valid (strings_Fields (asked req ''scope'')))"
    using assms(15) by (force simp: to_valid_ascii image_iff)
  ultimately show ?thesis using w1(1) w2 accepted_verifies [OF assms(2,1) t] by metis
qed

text \<open>A request that names the scope of a passkey session.\<close>

definition bold_query :: url_values where
  "bold_query = [(''client_id'', ''orders''), (''redirect_uri'', ''https://app.example/cb''),
     (''response_type'', ''code''), (''scope'', ''passkey:verified''), (''code_challenge'', app_challenge),
     (''code_challenge_method'', ''S256''), (''user_id'', ''user-1'')]"

definition bold_request :: http_in where
  "bold_request = (local_request JNull)\<lparr>in_RawQuery := Values_Encode bold_query\<rparr>"

lemma bold_asked: "asked bold_request k = Values_Get bold_query k"
  by (simp add: asked_def bold_request_def URL_Query_def Parse_Encode Get_sort_pairs bold_query_def max_params_def)

lemma bold_entry: "asked_entry bold_request = (app_entry app_challenge)\<lparr>ac_Scope := ''passkey:verified''\<rparr>"
  by (simp add: asked_entry_def bold_asked bold_query_def Values_Get_def app_entry_def)

lemma bold_utf8: "utf8_entry (asked_entry bold_request)"
  using app_utf8 by (simp add: bold_entry utf8_entry_def to_valid_ascii)

lemma bold_well_asked: "well_asked local_service bold_request"
  using app_uri(1)
  by (simp add: well_asked_def bold_asked bold_query_def Values_Get_def app_challenge_nonempty redirect_registered_def
      local_record_def)

lemma bold_presented:
  "presents local_service (app_exchange\<lparr>tr_Code := Some app_authcode\<rparr>) app_authcode (asked_entry bold_request)"
  by (simp add: presents_def bold_entry app_exchange_def app_entry_def empty_TokenRequest_def app_challenge_def)

theorem asked_scope_opens_registration_witness:
  "\<exists>a w1 t w2 c. exec (OAuthAuthorizeHandler local_service bold_request) local_env (local_world Map.empty [] 5) = (a, w1) \<and>
    exec (handleAuthorizationCode local_service (app_exchange\<lparr>tr_Code := Some app_authcode, tr_ClientSecret := []\<rparr>))
      local_env w1 = (\<lparr>rs_Headers = json_no_store, rs_Outcome = Reply 200 (TokenBody t)\<rparr>, w2) \<and>
    fst (exec (tokenVerifier_Verify local_service (ts_AccessToken t)) local_env w2) = Inr c \<and>
    au_Subject c = ''user-1'' \<and> ''passkey:verified'' \<in> set (au_Scopes c)"
proof -
  let ?w = "local_world Map.empty [] 5"
  obtain u where u: "url_Parse (asked bold_request ''redirect_uri'') = Some u"
    using app_uri(2) by (auto simp: bold_asked bold_query_def Values_Get_def)
  obtain rt where r: "env_rand_read local_env authCodeBytes (w_rt ?w) = (Inr (replicate authCodeBytes (CHR ''A'')), rt)"
    using app_random by blast
  have c: "cc_api (sv_CacheClient local_service) \<noteq> None" "sv_BannedChecker local_service = None" by simp_all
  have "strings_Fields ''passkey:verified'' = [''passkey:verified'']" by code_simp
  then have sc: "''passkey:verified'' \<in> set (strings_Fields (asked bold_request ''scope''))"
    by (simp add: bold_asked bold_query_def Values_Get_def)
  obtain a w1 t w2 where s: "exec (OAuthAuthorizeHandler local_service bold_request) local_env ?w = (a, w1)"
      "exec (handleAuthorizationCode local_service (app_exchange\<lparr>tr_Code := Some app_authcode, tr_ClientSecret := []\<rparr>))
        local_env w1 = (\<lparr>rs_Headers = json_no_store, rs_Outcome = Reply 200 (TokenBody t)\<rparr>, w2)"
      "\<And>v. in_date local_env rt_now (rt_now (w_rt w1)) (rt_now (w_rt w2)) accessTokenTTL v \<Longrightarrow>
        \<exists>c. fst (exec (tokenVerifier_Verify local_service (ts_AccessToken t)) local_env v) = Inr c \<and>
          au_Subject c = asked bold_request ''user_id'' \<and> ''passkey:verified'' \<in> set (au_Scopes c)"
    using asked_scope_opens_registration [OF local_clock local_accepts local_kv_reliable c(1) local_redis_ok bold_well_asked
        bold_utf8 u r app_authcode_def app_fresh local_signs c(2) bold_presented sc] by auto
  have "in_date local_env rt_now (rt_now (w_rt w1)) (rt_now (w_rt w2)) accessTokenTTL w2"
    using local_exec [OF s(2)] by (simp add: in_date_def second_ns_def accessTokenTTL_def)
  from s(3) [OF this] s(1,2) show ?thesis by (auto simp: bold_asked bold_query_def Values_Get_def)
qed

section \<open>Sessions that refresh\<close>

text \<open>A refresh request of a client that proves its secret.\<close>

definition refresh_by :: "Service \<Rightarrow> TokenRequest \<Rightarrow> string \<Rightarrow> string \<Rightarrow> bool" where
  "refresh_by s rb cid tok \<longleftrightarrow> tr_RefreshToken rb = Some tok \<and> tok \<noteq> [] \<and> tr_ClientId rb = cid \<and> cid \<noteq> [] \<and>
     tr_ClientSecret rb \<noteq> [] \<and>
     (\<exists>rec. registered (sv_ClientRegistry s) cid = Some rec \<and> cr_SecretHash rec = sha256_hex (tr_ClientSecret rb))"

definition nothing_revoked :: "(string \<rightharpoonup> string) \<Rightarrow> bool" where
  "nothing_revoked L \<longleftrightarrow> (\<forall>x. \<not> revoked_in L x \<and> \<not> family_revoked_in L x)"

context kv_reliable
begin

text \<open>The refresh token of a user's session that the service signed is good until it expires.\<close>

lemma session_refreshes:
  assumes "env_cache E = api" and "cc_api (sv_CacheClient s) \<noteq> None" and "ok (w_redis v)"
    and "signs s" and "accepts s aud'" and "clock_ok E clock"
    and "signed_between s tok sub aud cid fam ttl scopes lo hi" and "in_date E clock lo hi ttl v"
    and "offline_access \<in> set scopes" and "to_valid cid = cid" and "to_valid sub = sub" and "sub \<noteq> cid"
    and "sv_BannedChecker s = None \<or> (\<exists>sc \<in> set scopes. strings_HasPrefix (to_valid sc) ''svc:'')"
    and "refresh_by s rb cid tok" and "nothing_revoked (live (w_redis v))"
  shows "\<exists>t w' now. exec (handleRefreshToken s rb) E v =
      (\<lparr>rs_Headers = json_no_store, rs_Outcome = Reply 200 (TokenBody t)\<rparr>, w') \<and>
    token_for s (ts_AccessToken t) sub (to_valid aud) [] [] accessTokenTTL [passkeyLoginScope] now"
proof -
  obtain t1 t2 t3 jti where p: "fst (exec (s_ParseClaims s tok) E v) =
      Inr (valid_claims (refresh_claims this_issuer sub aud cid fam ttl scopes t1 t2 t3 jti))"
    using accepted_parses [OF assms(5-8)] by blast
  let ?c = "valid_claims (refresh_claims this_issuer sub aud cid fam ttl scopes t1 t2 t3 jti)"
  have c: "cl_Azp ?c = cid" "cl_Subject ?c = sub" "cl_Scopes ?c = map to_valid scopes" "cl_Audience ?c = [to_valid aud]"
    using assms(10,11) by (simp_all add: valid_claims_def refresh_claims_def)
  obtain rec where rb: "tr_RefreshToken rb = Some tok" "tok \<noteq> []" "tr_ClientId rb = cid" "cid \<noteq> []" "tr_ClientSecret rb \<noteq> []"
      "registered (sv_ClientRegistry s) cid = Some rec" "cr_SecretHash rec = sha256_hex (tr_ClientSecret rb)"
    using assms(14) by (auto simp: refresh_by_def)
  have u: "is_user_session ?c" using c rb(4) assms(12) by (auto simp: is_user_session_def)
  have off: "offline_access \<in> set (cl_Scopes ?c)"
    using assms(9) c(3) by (force simp: offline_access_def to_valid_ascii image_iff)
  have ban: "ban_check_off s ?c" using assms(13) c(3) by (auto simp: ban_check_off_def)
  have nr: "\<not> revoked_in (live (w_redis v)) (cl_ID ?c)" "\<not> family_revoked_in (live (w_redis v)) (cl_FamilyId ?c)"
    using assms(15) by (simp_all add: nothing_revoked_def)
  obtain t w' where e: "exec (handleRefreshToken s rb) E v =
      (\<lparr>rs_Headers = json_no_store, rs_Outcome = Reply 200 (TokenBody t)\<rparr>, w')"
    using refresh_succeeds [OF assms(1-4) ban rb(1,2) _ rb(5) _ _ p off _ _ nr, of rec] rb c(1) u by auto
  obtain rec' tok' c' x1 x2 x3 where "tr_RefreshToken rb = Some tok'" "exec (s_ParseClaims s tok') E v = (Inr c', x1)"
      "exec (refresh_issue s (tr_ClientId rb) c') E x3 = (\<lparr>rs_Headers = json_no_store, rs_Outcome = Reply 200 (TokenBody t)\<rparr>, w')"
    using refresh_issued_steps [OF e issued_simps(2)] by metis
  then have "exec (refresh_issue s cid ?c) E x3 = (\<lparr>rs_Headers = json_no_store, rs_Outcome = Reply 200 (TokenBody t)\<rparr>, w')"
    using rb(1,3) p by auto
  from refresh_issue_issued [OF this issued_simps(2)]
  have "token_for s (ts_AccessToken t) (cl_Subject ?c) (refresh_audience ?c) [] [] accessTokenTTL
      (refresh_token_scopes cid ?c) (fst (env_now E (w_rt x3)))" by blast
  moreover have "refresh_audience ?c = to_valid aud" "refresh_token_scopes cid ?c = [passkeyLoginScope]"
    using c(4) u by (simp_all add: refresh_audience_def refresh_token_scopes_def refresh_access_scopes_def)
  ultimately show ?thesis using e c(2) by auto
qed

end

lemma audienceUser_valid: "to_valid audienceUser = audienceUser"
  by (simp add: audienceUser_def to_valid_ascii)

lemma PasskeyLogin_between:
  assumes "clock_ok E clock" and "exec (PasskeyLoginCompleteHandler (Some lib) s req) E w = (r, w')" and "issued r = Some t"
    and "wl_ParseAssertion lib (take maxAssertionBodyBytes (in_Body req)) = Inr (ch, n)"
    and "fst (exec (GetWebAuthnLoginSession lib (sv_CacheClient s) ch) E w) = Inr ls"
  shows "signed_between s (ts_AccessToken t) (wls_UserID ls) audienceUser [] [] otpTokenTTL [passkeyLoginScope]
      (clock (w_rt w)) (clock (w_rt w')) \<and>
    (\<exists>rt fam. ts_RefreshToken t = Some rt \<and> signed_between s rt (wls_UserID ls) audienceUser (wls_ClientID ls) fam
       refreshTokenTTL [''offline_access''] (clock (w_rt w)) (clock (w_rt w')))"
proof -
  obtain w1 where g: "exec (GetWebAuthnLoginSession lib (sv_CacheClient s) ch) E w = (Inr ls, w1)"
    using assms(5) by (metis prod.collapse)
  have c: "exec (complete_login lib s (take maxAssertionBodyBytes (in_Body req)) ch n ls) E w1 = (r, w')"
    using assms(2-4) g by (auto simp: PasskeyLoginCompleteHandler_def Let_def exec_call)
  obtain http tok existing cr w2 where f: "exec (finish_login s http tok ch ls existing cr n) E w2 = (r, w')"
      "clock (w_rt w1) \<le> clock (w_rt w2)"
    using complete_login_issued [OF c assms(3)] assms(1) by blast
  obtain u where u: "exec (passkey_issue s (wls_UserID ls) (wls_ClientID ls)) E u = (r, w')" "clock (w_rt w2) \<le> clock (w_rt u)"
    using finish_login_signs [OF f(1) assms(3,1)] by blast
  have le: "clock (w_rt w) \<le> clock (w_rt u)" using exec_clock_mono [OF assms(1) g] f(2) u(2) by simp
  show ?thesis using passkey_issue_between [OF assms(1) u(1) assms(3)] signed_between_mono [OF _ le order_refl] by blast
qed

text \<open>The refresh token of a passkey login is good for 30 days: in any state in which it is in date and
  nothing is revoked, the client that started the login and proves its secret refreshes with it and
  gets an access token for the user with the scope \<open>passkey:verified\<close> (no ban checker being
  configured).\<close>

theorem passkey_session_refreshes:
  assumes "clock_ok E clock" and "accepts s aud" and "kv_reliable (env_cache E) live ok"
    and "cc_api (sv_CacheClient s) \<noteq> None" and "signs s" and "sv_BannedChecker s = None"
    and "exec (PasskeyLoginCompleteHandler (Some lib) s req) E w = (r, w')" and "issued r = Some t"
    and "wl_ParseAssertion lib (take maxAssertionBodyBytes (in_Body req)) = Inr (ch, n)"
    and "fst (exec (GetWebAuthnLoginSession lib (sv_CacheClient s) ch) E w) = Inr ls"
    and "to_valid (wls_UserID ls) = wls_UserID ls" and "to_valid (wls_ClientID ls) = wls_ClientID ls"
    and "wls_UserID ls \<noteq> wls_ClientID ls"
    and "ts_RefreshToken t = Some tok" and "refresh_by s rb (wls_ClientID ls) tok"
    and "in_date E clock (clock (w_rt w)) (clock (w_rt w')) refreshTokenTTL v"
    and "ok (w_redis v)" and "nothing_revoked (live (w_redis v))"
  shows "\<exists>t' v' now. exec (handleRefreshToken s rb) E v =
      (\<lparr>rs_Headers = json_no_store, rs_Outcome = Reply 200 (TokenBody t')\<rparr>, v') \<and>
    token_for s (ts_AccessToken t') (wls_UserID ls) audienceUser [] [] accessTokenTTL [''passkey:verified''] now"
proof -
  obtain fam where "signed_between s tok (wls_UserID ls) audienceUser (wls_ClientID ls) fam
       refreshTokenTTL [''offline_access''] (clock (w_rt w)) (clock (w_rt w'))"
    using PasskeyLogin_between [OF assms(1,7-10)] assms(14) by auto
  from kv_reliable.session_refreshes [OF assms(3) refl assms(4,17,5,2,1) this assms(16) _ assms(12,11,13) disjI1 [OF assms(6)]
      assms(15,18)]
  show ?thesis by (simp add: offline_access_def audienceUser_valid passkeyLoginScope_def)
qed

text \<open>C21: The refresh grant takes a scope that begins with \<open>svc:\<close> as the mark of a service and then makes no
  ban check. The scopes of a user's session are those that the authorization request named: with
  such a scope among them the session is refreshed whatever the banned-customers table says.\<close>

theorem svc_scope_evades_ban:
  assumes "clock_ok E clock" and "accepts s aud" and "kv_reliable (env_cache E) live ok"
    and "cc_api (sv_CacheClient s) \<noteq> None" and "signs s"
    and "exec (handleAuthorizationCode s rb) E w = (r, w')" and "issued r = Some t"
    and "tr_Code rb = Some code" and "fst (exec (GetAuthCode (sv_CacheClient s) code) E w) = Inr e"
    and "sc \<in> set (strings_Fields (ac_Scope e))" and "strings_HasPrefix (to_valid sc) ''svc:''"
    and "to_valid (ac_UserID e) = ac_UserID e" and "to_valid (tr_ClientId rb) = tr_ClientId rb" and "ac_UserID e \<noteq> tr_ClientId rb"
    and "ts_RefreshToken t = Some tok" and "refresh_by s rb' (tr_ClientId rb) tok"
    and "in_date E clock (clock (w_rt w)) (clock (w_rt w')) refreshTokenTTL v"
    and "ok (w_redis v)" and "nothing_revoked (live (w_redis v))"
  shows "\<exists>t' v' now. exec (handleRefreshToken s rb') E v =
      (\<lparr>rs_Headers = json_no_store, rs_Outcome = Reply 200 (TokenBody t')\<rparr>, v') \<and>
    token_for s (ts_AccessToken t') (ac_UserID e) audienceUser [] [] accessTokenTTL [''passkey:verified''] now"
proof -
  obtain w1 where g: "exec (GetAuthCode (sv_CacheClient s) code) E w = (Inr e, w1)"
    using assms(9) by (metis prod.collapse)
  obtain fam where "signed_between s tok (ac_UserID e) audienceUser (tr_ClientId rb) fam refreshTokenTTL
       (offline_access # strings_Fields (ac_Scope e)) (clock (w_rt w)) (clock (w_rt w'))"
    using exchange_between [OF assms(1,6,7,8) g] assms(15) by auto
  from kv_reliable.session_refreshes [OF assms(3) refl assms(4,18,5,2,1) this assms(17) _ assms(13,12,14) disjI2 assms(16,19)]
    assms(10,11)
  show ?thesis by (auto simp: audienceUser_valid passkeyLoginScope_def)
qed

lemma passkey_session_read:
  "fst (exec (GetWebAuthnLoginSession local_webauthn local_client ''ch-1'') local_env passkey_world) = Inr stored_login"
proof -
  have ok: "ttl_ok (w_redis passkey_world)" by (simp add: passkey_world_def)
  have "ttl_live (w_redis passkey_world) (webauthnLoginSessionKeyPrefix @ ''ch-1'') = Some (print_value stored_login_json)"
    by (simp add: passkey_world_def local_world_def ttl_live_def webauthnLoginSessionKeyPrefix_def del: print_value.simps)
  moreover have "print_value stored_login_json \<noteq> []" by (simp add: stored_login_json_def)
  ultimately show ?thesis
    using ttl.get_eq [OF ok, of "webauthnLoginSessionKeyPrefix @ ''ch-1''"] stored_login_read
    by (auto simp: GetWebAuthnLoginSession_def simp del: print_value.simps)
qed

lemma orders_refresh_by: "tok \<noteq> [] \<Longrightarrow> refresh_by local_service (orders_refresh tok) ''orders'' tok"
  by (simp add: refresh_by_def) (simp add: orders_refresh_def local_record_def)

lemma nothing_revoked_empty: "nothing_revoked (ttl_live (w_redis (local_world Map.empty [] n)))"
  by (simp add: nothing_revoked_def local_world_def ttl_live_def revoked_in_def family_revoked_in_def)

lemma local_signed_nonempty: "signed_between local_service tok sub aud azp fam ttl scopes lo hi \<Longrightarrow> tok \<noteq> []"
  by (auto simp: signed_between_def local_own_token)

theorem passkey_session_refreshes_witness:
  "\<exists>t tok t' v' now. issued (fst (exec (PasskeyLoginCompleteHandler (Some local_webauthn) local_service passkey_request)
      local_env passkey_world)) = Some t \<and> ts_RefreshToken t = Some tok \<and>
    exec (handleRefreshToken local_service (orders_refresh tok)) local_env (local_world Map.empty [] 5) =
      (\<lparr>rs_Headers = json_no_store, rs_Outcome = Reply 200 (TokenBody t')\<rparr>, v') \<and>
    token_for local_service (ts_AccessToken t') ''user-1'' audienceUser [] [] accessTokenTTL [''passkey:verified''] now"
proof -
  obtain r w' where e: "exec (PasskeyLoginCompleteHandler (Some local_webauthn) local_service passkey_request) local_env passkey_world
      = (r, w')" by fastforce
  obtain t where t: "issued r = Some t" using passkey_logged_in e by auto
  have p: "wl_ParseAssertion local_webauthn (take maxAssertionBodyBytes (in_Body passkey_request)) = Inr (''ch-1'', 8)"
    by (simp add: passkey_request_def maxAssertionBodyBytes_def)
  have g: "fst (exec (GetWebAuthnLoginSession local_webauthn (sv_CacheClient local_service) ''ch-1'') local_env passkey_world)
      = Inr stored_login"
    using passkey_session_read by simp
  obtain tok fam where tok: "ts_RefreshToken t = Some tok" "signed_between local_service tok (wls_UserID stored_login) audienceUser
      (wls_ClientID stored_login) fam refreshTokenTTL [''offline_access''] (rt_now (w_rt passkey_world)) (rt_now (w_rt w'))"
    using PasskeyLogin_between [OF local_clock e t p g] by blast
  have ls: "wls_UserID stored_login = ''user-1''" "wls_ClientID stored_login = ''orders''"
    by (simp_all add: stored_login_def)
  have d: "in_date local_env rt_now (rt_now (w_rt passkey_world)) (rt_now (w_rt w')) refreshTokenTTL (local_world Map.empty [] 5)"
    using local_exec [OF e]
    by (simp add: in_date_def passkey_world_def local_world_def second_ns_def refreshTokenTTL_def)
  have rb: "refresh_by local_service (orders_refresh tok) (wls_ClientID stored_login) tok"
    using orders_refresh_by [OF local_signed_nonempty [OF tok(2)]] ls by simp
  have c: "cc_api (sv_CacheClient local_service) \<noteq> None" "sv_BannedChecker local_service = None" by simp_all
  from passkey_session_refreshes [OF local_clock local_accepts local_kv_reliable c(1) local_signs c(2) e t p g _ _ _ tok(1) rb d
      local_redis_ok nothing_revoked_empty]
  show ?thesis using e t tok(1) ls by (auto simp: to_valid_ascii)
qed

text \<open>A service with a ban checker, and a code whose scope begins with \<open>svc:\<close>.\<close>

definition guarded_service :: Service where
  "guarded_service = local_service\<lparr>sv_BannedChecker := Some (NewBannedCustomers [] (Some ()))\<rparr>"

lemma guarded_service_fields [simp]:
  "sv_lib guarded_service = sv_lib local_service" "sv_JWT guarded_service = sv_JWT local_service"
  "sv_CacheClient guarded_service = sv_CacheClient local_service"
  "sv_ClientRegistry guarded_service = sv_ClientRegistry local_service"
  "sv_HttpClient guarded_service = sv_HttpClient local_service" "sv_sdk guarded_service = sv_sdk local_service"
  "sv_authCodeGrantEnabled guarded_service = sv_authCodeGrantEnabled local_service"
  "sv_BannedChecker guarded_service \<noteq> None"
  by (simp_all add: guarded_service_def)

lemma guarded_sign: "s_SignToken guarded_service = s_SignToken local_service"
  by (intro ext) (simp add: s_SignToken_def)

lemma guarded_svc: "getOrRefreshSvcJWT guarded_service = getOrRefreshSvcJWT local_service"
  by (simp add: getOrRefreshSvcJWT_def guarded_sign)

lemma guarded_signs: "signs guarded_service" and guarded_accepts: "accepts guarded_service audienceUser"
  using local_signs local_accepts by (simp_all add: signs_def accepts_def)

definition svc_entry :: AuthCodeEntry where
  "svc_entry = (app_entry app_challenge)\<lparr>ac_Scope := ''svc:app''\<rparr>"

definition svc_world :: "(ttl_store, peers, runtime) world" where
  "svc_world = local_world [''authcode:c0de'' \<mapsto> (print_value (AuthCodeEntry_to_json svc_entry), Some 600)] [] 5"

text \<open>The ban check of the exchange lets the request pass when the customer API cannot be reached.\<close>

lemma guarded_not_banned:
  assumes "w_svc w = ([], 0)" and "pe_http (w_http w) = []"
  shows "\<exists>w'. exec (exchange_banned guarded_service uid) local_env w = (False, w')"
proof -
  obtain b where b: "sv_BannedChecker guarded_service = Some b" by (simp add: guarded_service_def)
  obtain http where h: "sv_HttpClient local_service = Some http" by (simp add: local_service_def)
  obtain tok w1 where t: "exec (getOrRefreshSvcJWT local_service) local_env w = (Inr tok, w1)" "w_http w1 = w_http w"
    using local_svc_token [OF assms(1)] by blast
  have "\<exists>e w2. exec (GetUserByID (sv_sdk local_service) http uid tok) local_env w1 = (Inl e, w2)"
    using t(2) assms(2) by (auto simp: GetUserByID_def authorized_get_def exec_call local_env_def local_http_def)
  then show ?thesis using b h t(1) by (auto simp: exchange_banned_def guarded_svc exec_call)
qed

lemma svc_exchange:
  "\<exists>t w'. exec (handleAuthorizationCode guarded_service app_exchange) local_env svc_world =
      (\<lparr>rs_Headers = json_no_store, rs_Outcome = Reply 200 (TokenBody t)\<rparr>, w')"
proof -
  have c: "cc_api (sv_CacheClient guarded_service) \<noteq> None" by simp
  have u: "utf8_entry svc_entry" using app_utf8 by (simp add: utf8_entry_def svc_entry_def to_valid_ascii)
  have p: "presents guarded_service app_exchange ''c0de'' svc_entry"
    using app_presents by (simp add: presents_def svc_entry_def)
  have st: "ttl_live (w_redis svc_world) (authCodeKeyPrefix @ ''c0de'') = Some (print_value (AuthCodeEntry_to_json svc_entry))"
    by (simp add: svc_world_def local_world_def ttl_live_def authCodeKeyPrefix_def)
  have ok: "ttl_ok (w_redis svc_world)" by (simp add: svc_world_def)
  obtain v where v: "step_proc local_env (handleAuthorizationCode guarded_service app_exchange) svc_world
      = (spend_code guarded_service (tr_ClientId app_exchange) ''c0de'' svc_entry, v)" "ttl_ok (w_redis v)"
    using kv_reliable.exchange_reads [OF local_kv_reliable refl c ok p u st] by blast
  have f: "w_svc v = ([], 0)" "pe_http (w_http v) = []"
    using v(1) p by (auto simp: handleAuthorizationCode_def Let_def presents_def Registry_Get_value GetAuthCode_def svc_world_def
        local_world_def split: prod.splits)
  obtain r where d: "exec (DeleteAuthCode (sv_CacheClient guarded_service) ''c0de'') local_env v = (None, v\<lparr>w_redis := r\<rparr>)"
    using kv_reliable.DeleteAuthCode_exec [OF local_kv_reliable refl c v(2), of "''c0de''"] by blast
  obtain v2 where b: "exec (exchange_banned guarded_service (ac_UserID svc_entry)) local_env (v\<lparr>w_redis := r\<rparr>) = (False, v2)"
    using guarded_not_banned [of "v\<lparr>w_redis := r\<rparr>"] f by auto
  obtain t w' where "exec (exchange_issue guarded_service (tr_ClientId app_exchange) svc_entry) local_env v2 =
      (\<lparr>rs_Headers = json_no_store, rs_Outcome = Reply 200 (TokenBody t)\<rparr>, w')"
    using exchange_issue_succeeds [OF guarded_signs] by blast
  then show ?thesis
    using v(1) d b exec_step [of "handleAuthorizationCode guarded_service app_exchange" local_env svc_world]
    by (simp add: spend_code_def exec_call)
qed

lemma svc_code_read: "fst (exec (GetAuthCode (sv_CacheClient guarded_service) ''c0de'') local_env svc_world) = Inr svc_entry"
proof -
  have c: "cc_api (sv_CacheClient guarded_service) \<noteq> None" by simp
  have u: "utf8_entry svc_entry" using app_utf8 by (simp add: utf8_entry_def svc_entry_def to_valid_ascii)
  have st: "ttl_live (w_redis svc_world) (authCodeKeyPrefix @ ''c0de'') = Some (print_value (AuthCodeEntry_to_json svc_entry))"
    by (simp add: svc_world_def local_world_def ttl_live_def authCodeKeyPrefix_def)
  have ok: "ttl_ok (w_redis svc_world)" by (simp add: svc_world_def)
  show ?thesis using kv_reliable.GetAuthCode_exec [OF local_kv_reliable refl c ok, of "''c0de''"] u st by auto
qed

theorem svc_scope_evades_ban_witness:
  "\<exists>t tok t' v' now. issued (fst (exec (handleAuthorizationCode guarded_service app_exchange) local_env svc_world)) = Some t \<and>
    ts_RefreshToken t = Some tok \<and> sv_BannedChecker guarded_service \<noteq> None \<and>
    exec (handleRefreshToken guarded_service (orders_refresh tok)) local_env (local_world Map.empty [] 5) =
      (\<lparr>rs_Headers = json_no_store, rs_Outcome = Reply 200 (TokenBody t')\<rparr>, v') \<and>
    token_for guarded_service (ts_AccessToken t') ''user-1'' audienceUser [] [] accessTokenTTL [''passkey:verified''] now"
proof -
  obtain t w' where e: "exec (handleAuthorizationCode guarded_service app_exchange) local_env svc_world =
      (\<lparr>rs_Headers = json_no_store, rs_Outcome = Reply 200 (TokenBody t)\<rparr>, w')"
    using svc_exchange by blast
  obtain v where g: "exec (GetAuthCode (sv_CacheClient guarded_service) ''c0de'') local_env svc_world = (Inr svc_entry, v)"
    using svc_code_read by (metis prod.collapse)
  obtain tok fam where tok: "ts_RefreshToken t = Some tok" "signed_between guarded_service tok (ac_UserID svc_entry) audienceUser
      (tr_ClientId app_exchange) fam refreshTokenTTL (offline_access # strings_Fields (ac_Scope svc_entry))
      (rt_now (w_rt svc_world)) (rt_now (w_rt w'))"
    using exchange_between [OF local_clock e issued_simps(2) app_code g] by blast
  have en: "ac_UserID svc_entry = ''user-1''" "ac_Scope svc_entry = ''svc:app''" "tr_ClientId app_exchange = ''orders''"
    by (simp_all add: svc_entry_def app_entry_def app_exchange_def)
  have "signed_between local_service tok ''user-1'' audienceUser ''orders'' fam refreshTokenTTL
      (offline_access # strings_Fields ''svc:app'') (rt_now (w_rt svc_world)) (rt_now (w_rt w'))"
    using tok(2) en by (simp add: signed_between_def own_token_def)
  then have ne: "tok \<noteq> []" by (rule local_signed_nonempty)
  have f: "''svc:app'' \<in> set (strings_Fields (ac_Scope svc_entry))"
  proof -
    have "strings_Fields ''svc:app'' = [''svc:app'']" by code_simp
    then show ?thesis by (simp add: en)
  qed
  have pre: "strings_HasPrefix (to_valid ''svc:app'') ''svc:''"
    by (simp add: to_valid_ascii)
  have d: "in_date local_env rt_now (rt_now (w_rt svc_world)) (rt_now (w_rt w')) refreshTokenTTL (local_world Map.empty [] 5)"
    using local_exec [OF e] by (simp add: in_date_def svc_world_def local_world_def second_ns_def refreshTokenTTL_def)
  have rb: "refresh_by guarded_service (orders_refresh tok) (tr_ClientId app_exchange) tok"
    using orders_refresh_by [OF ne] en by (simp add: refresh_by_def)
  have c: "cc_api (sv_CacheClient guarded_service) \<noteq> None" by simp
  from svc_scope_evades_ban [OF local_clock guarded_accepts local_kv_reliable c guarded_signs e issued_simps(2) app_code
      svc_code_read f pre _ _ _ tok(1) rb d local_redis_ok nothing_revoked_empty]
  show ?thesis using e tok(1) en guarded_service_fields(8) by (auto simp: to_valid_ascii)
qed

end
