(* ===== verification/Guarantee.thy ===== *)
theory Guarantee
  imports EntryPoints
begin

text \<open>
  What a program guarantees about the state that the requests of a process share, given what it may
  assume of it: the cached service token, the cached JWKS document, the e-mails it hands to
  goroutines and the slots of the semaphore it holds. The guarantees do not depend on what Redis,
  the peers, the clock and the random sources answer, nor on what runs in between.
\<close>

section \<open>Assumptions and guarantees\<close>

record shared =
  sh_svc :: "string \<times> int \<Rightarrow> bool"
  sh_jwks :: "jwksCache \<Rightarrow> bool"
  sh_mail :: "http_request \<Rightarrow> bool"

text \<open>
  The program holds \<open>n\<close> slots. What it loads it may assume to be in order, what it stores must be;
  when it returns, the result satisfies \<open>Q\<close> and no slot is held.
\<close>

primrec meets :: "shared \<Rightarrow> ('a \<Rightarrow> bool) \<Rightarrow> nat \<Rightarrow> 'a proc \<Rightarrow> bool" where
  "meets G Q n (Ret a) = (n = 0 \<and> Q a)"
| "meets G Q n (RGet x f) = (\<forall>r. meets G Q n (f r))"
| "meets G Q n (RSet x v t f) = (\<forall>r. meets G Q n (f r))"
| "meets G Q n (RSetNX x v t f) = (\<forall>r. meets G Q n (f r))"
| "meets G Q n (RDelete x f) = (\<forall>r. meets G Q n (f r))"
| "meets G Q n (RIncr x f) = (\<forall>r. meets G Q n (f r))"
| "meets G Q n (RExpire x t f) = (\<forall>r. meets G Q n (f r))"
| "meets G Q n (RExists x f) = (\<forall>r. meets G Q n (f r))"
| "meets G Q n (HttpDo q f) = (\<forall>r. meets G Q n (f r))"
| "meets G Q n (DdbGetItem t x f) = (\<forall>r. meets G Q n (f r))"
| "meets G Q n (DdbDescribe t f) = (\<forall>r. meets G Q n (f r))"
| "meets G Q n (TimeNow f) = (\<forall>r. meets G Q n (f r))"
| "meets G Q n (UuidNew f) = (\<forall>r. meets G Q n (f r))"
| "meets G Q n (RandInt m f) = (\<forall>r. meets G Q n (f r))"
| "meets G Q n (RandRead m f) = (\<forall>r. meets G Q n (f r))"
| "meets G Q n (SvcLoad f) = (\<forall>v. sh_svc G v \<longrightarrow> meets G Q n (f v))"
| "meets G Q n (SvcStore v f) = (sh_svc G v \<and> meets G Q n (f ()))"
| "meets G Q n (SemTryAcquire m f) = (m = maxConcurrentEmails \<and> meets G Q (Suc n) (f True) \<and> meets G Q n (f False))"
| "meets G Q n (GoSendEmail q f) = (0 < n \<and> (\<forall>rq. q = Some rq \<longrightarrow> sh_mail G rq) \<and> meets G Q (n - 1) (f ()))"
| "meets G Q n (JwksLoad f) = (\<forall>c. (\<forall>x. c = Some x \<longrightarrow> sh_jwks G x) \<longrightarrow> meets G Q n (f c))"
| "meets G Q n (JwksStore c f) = (sh_jwks G c \<and> meets G Q n (f ()))"

lemma meets_call:
  assumes "meets G P m p" and "\<And>a. P a \<Longrightarrow> meets G Q n (k a)"
  shows "meets G Q (m + n) (call p k)"
  using assms(1)
proof (induction p arbitrary: m)
  case (SemTryAcquire x f)
  then show ?case by (metis add_Suc call.simps(18) meets.simps(18) rangeI)
next
  case (GoSendEmail q f)
  then obtain m' where "m = Suc m'" by (cases m) simp_all
  then show ?case using GoSendEmail by simp
qed (use assms(2) in auto)

lemma meets_then:
  assumes "meets G P 0 p" and "\<And>a. P a \<Longrightarrow> meets G Q n (k a)"
  shows "meets G Q n (call p k)"
  using meets_call [OF assms] by simp

lemma meets_mono:
  assumes "meets G P n p" and "\<And>a. P a \<Longrightarrow> Q a"
  shows "meets G Q n p"
  using meets_call [OF assms(1), of Q 0 Ret] assms(2) by simp

lemma meets_advance:
  assumes "meets G P m p" and "\<And>p' m'. meets G P m' p' \<Longrightarrow> meets G Q (m' + n) (k p')"
  shows "meets G Q (m + n) (advance p k)"
proof (cases p)
  case (Ret a)
  then show ?thesis using assms(1) assms(2) [of 0 p] by simp
next
  case (SemTryAcquire x f)
  then show ?thesis using assms by (metis add_Suc advance.simps(18) meets.simps(18))
next
  case (GoSendEmail q f)
  then obtain m' where "m = Suc m'" using assms(1) by (cases m) simp_all
  then show ?thesis using GoSendEmail assms by simp
qed (use assms in auto)

lemma meets_par:
  fixes p :: "'a proc" and q :: "'b proc"
  shows "meets G P m p \<Longrightarrow> meets G R n q \<Longrightarrow> meets G (\<lambda>(a, b). P a \<and> R b) (m + n) (par sch p q)"
proof (induction sch arbitrary: p q m n)
  case Nil
  have "meets G (\<lambda>(a, b). P a \<and> R b) n (call q (\<lambda>b. Ret (a, b)))" if "P a" for a
    using meets_call [OF Nil(2), of "\<lambda>(a, b). P a \<and> R b" 0 "\<lambda>b. Ret (a, b)"] that by simp
  then show ?case unfolding par.simps by (rule meets_call [OF Nil(1)])
next
  case (Cons first sch)
  show ?case
  proof (cases first)
    case True
    then show ?thesis using meets_advance [OF Cons.prems(1), where k = "\<lambda>p'. par sch p' q"] Cons.IH Cons.prems(2) by simp
  next
    case False
    have "meets G (\<lambda>(a, b). P a \<and> R b) (n + m) (advance q (\<lambda>q'. par sch p q'))"
      by (rule meets_advance [OF Cons.prems(2)]) (use Cons.IH [OF Cons.prems(1)] in \<open>simp add: add.commute [of _ m]\<close>)
    then show ?thesis using False by (simp add: add.commute)
  qed
qed

text \<open>One call of a program, in a world whose shared state is in order.\<close>

definition world_ok :: "shared \<Rightarrow> ('r, 'h, 'c) world \<Rightarrow> bool" where
  "world_ok G w \<longleftrightarrow> sh_svc G (w_svc w) \<and> (\<forall>x. w_jwks w = Some x \<longrightarrow> sh_jwks G x) \<and> (\<forall>rq \<in> set (w_emails w). sh_mail G rq)"

text \<open>The slots that are taken: those of pending e-mails, and those held by programs.\<close>

definition slots_ok :: "nat \<Rightarrow> ('r, 'h, 'c) world \<Rightarrow> bool" where
  "slots_ok n w \<longleftrightarrow> w_sem w = length (w_emails w) + n \<and> w_sem w \<le> maxConcurrentEmails"

lemma meets_step:
  assumes "meets G Q n p" and "world_ok G w" and "slots_ok (n + m) w" and "step_proc E p w = (p', w')"
  shows "\<exists>n'. meets G Q n' p' \<and> world_ok G w' \<and> slots_ok (n' + m) w'"
proof (cases p)
  case (SemTryAcquire x f)
  show ?thesis
  proof (cases "w_sem w < x")
    case True
    then show ?thesis using assms SemTryAcquire by (intro exI [of _ "Suc n"]) (auto simp: world_ok_def slots_ok_def)
  next
    case False
    then show ?thesis using assms SemTryAcquire by (intro exI [of _ n]) (auto simp: world_ok_def slots_ok_def)
  qed
next
  case (GoSendEmail q f)
  then show ?thesis
    using assms by (intro exI [of _ "n - 1"]) (auto simp: world_ok_def slots_ok_def start_email_def split: option.splits)
qed (use assms in \<open>auto simp: world_ok_def slots_ok_def simp del: split_paired_All split: prod.splits\<close>)

section \<open>Routines\<close>

text \<open>A program that leaves the shared state alone.\<close>

definition quiet :: "'a proc \<Rightarrow> bool" where
  "quiet p \<longleftrightarrow> (\<forall>G. meets G (\<lambda>_. True) 0 p)"

lemma quiet_call: "quiet p \<Longrightarrow> (\<And>a. quiet (k a)) \<Longrightarrow> quiet (call p k)"
  unfolding quiet_def by (meson meets_then)

lemma quiet_then: "quiet p \<Longrightarrow> (\<And>a. meets G Q n (k a)) \<Longrightarrow> meets G Q n (call p k)"
  unfolding quiet_def by (meson meets_then)

lemma quiet_simps [simp]:
  "quiet (Ret a)" "quiet (RGet x f0) = (\<forall>r. quiet (f0 r))" "quiet (RSet x v t f1) = (\<forall>r. quiet (f1 r))"
  "quiet (RSetNX x v t f2) = (\<forall>r. quiet (f2 r))" "quiet (RDelete x f3) = (\<forall>r. quiet (f3 r))"
  "quiet (RIncr x f4) = (\<forall>r. quiet (f4 r))" "quiet (RExpire x t f5) = (\<forall>r. quiet (f5 r))"
  "quiet (RExists x f6) = (\<forall>r. quiet (f6 r))" "quiet (HttpDo q f7) = (\<forall>r. quiet (f7 r))"
  "quiet (DdbGetItem d x' f8) = (\<forall>r. quiet (f8 r))" "quiet (DdbDescribe d f9) = (\<forall>r. quiet (f9 r))"
  "quiet (TimeNow f10) = (\<forall>r. quiet (f10 r))" "quiet (UuidNew f11) = (\<forall>r. quiet (f11 r))"
  "quiet (RandInt m f12) = (\<forall>r. quiet (f12 r))" "quiet (RandRead m f13) = (\<forall>r. quiet (f13 r))"
  by (auto simp: quiet_def)

lemmas guarantee_splits = option.split sum.split prod.split

lemma quiet_cache:
  "quiet (Reachable c)" "quiet (ClaimSession c x)" "quiet (GenerateAndStoreOTP c e)" "quiet (VerifyOTP c e code)"
  "quiet (IncrOTPAttempts c e)" "quiet (DeleteOTPAttempts c e)" "quiet (StoreRevoked c x t)" "quiet (IsRevoked c x)"
  "quiet (StoreRevokedFamily c x t)" "quiet (IsFamilyRevoked c x)" "quiet (StoreAuthCode c x entry)"
  "quiet (GetAuthCode c x)" "quiet (DeleteAuthCode c x)"
  by (auto simp: Reachable_def ClaimSession_def GenerateAndStoreOTP_def generateOTPCode_def VerifyOTP_def IncrOTPAttempts_def
      DeleteOTPAttempts_def StoreRevoked_def IsRevoked_def StoreRevokedFamily_def IsFamilyRevoked_def StoreAuthCode_def
      GetAuthCode_def DeleteAuthCode_def Let_def intro!: quiet_call split: guarantee_splits bool.split)

lemma quiet_webauthn:
  "quiet (StoreWebAuthnRegistrationSession lib c u x)" "quiet (GetWebAuthnRegistrationSession lib c u)"
  "quiet (DeleteWebAuthnRegistrationSession c u)" "quiet (StoreWebAuthnLoginSession lib c u ls)"
  "quiet (GetWebAuthnLoginSession lib c u)" "quiet (DeleteWebAuthnLoginSession c u)"
  "quiet (registration_ceremony lib u ds)" "quiet (login_ceremony lib u cs)"
  by (auto simp: StoreWebAuthnRegistrationSession_def GetWebAuthnRegistrationSession_def
      DeleteWebAuthnRegistrationSession_def StoreWebAuthnLoginSession_def GetWebAuthnLoginSession_def
      DeleteWebAuthnLoginSession_def registration_ceremony_def login_ceremony_def split: guarantee_splits)

lemma quiet_get: "quiet (authorized_get what url tok)"
  by (auto simp: authorized_get_def split: guarantee_splits)

lemma quiet_clients:
  "quiet (GetUserCredentials h e tok)" "quiet (GetUserByID S h u tok)" "quiet (ListPasskeyCredentials h u tok)"
  "quiet (CreatePasskeyCredential h u tok d)" "quiet (UpdatePasskeyCredential h u tok d)"
  "quiet (IsBanned S b e)" "quiet (Banned_Reachable b)" "quiet (CommsReachable h)" "quiet (CustomerReachable h)"
  by (auto simp: GetUserCredentials_def GetUserByID_def ListPasskeyCredentials_def CreatePasskeyCredential_def
      UpdatePasskeyCredential_def send_descriptor_def IsBanned_def Banned_Reachable_def CommsReachable_def CustomerReachable_def
      reachable_def intro!: quiet_call quiet_get split: guarantee_splits)

lemma quiet_keys:
  "quiet (s_SignToken s i u a t sc)" "quiet (s_SignRefreshToken s i u a z f t sc)"
  "quiet (s_ParseClaims s tok)" "quiet (s_ValidateAndParseClaims s tok)"
  by (auto simp: s_SignToken_def s_SignRefreshToken_def s_ParseClaims_def s_ValidateAndParseClaims_def SignToken_def
      SignTokenWithAZP_def SignRefreshToken_def ParseClaims_def ValidateAndParseClaims_def parseValidated_def split: guarantee_splits)

lemma quiet_bans: "quiet (otp_banned s e)" "quiet (login_banned s e)"
  by (auto simp: otp_banned_def login_banned_def intro!: quiet_call quiet_clients split: guarantee_splits)

lemma quiet_revocation: "quiet (refreshRevocationDenied s c)" "quiet (revoke_rotated s c)"
  by (auto simp: refreshRevocationDenied_def revoke_rotated_def Let_def intro!: quiet_call quiet_cache split: guarantee_splits)

lemmas quiet_routines = quiet_cache quiet_webauthn quiet_clients quiet_keys(3,4) quiet_bans quiet_revocation

end
