(* ===== verification/System.thy ===== *)
theory System
  imports Guarantee
begin

text \<open>
  The running public program as a whole: requests that arrive at its routes and are served
  concurrently, call by call, the e-mail goroutines they leave behind, rotations of keys and
  registry, and an outside that changes on its own. The state keeps, for the statements about it,
  every service (keys and registry) that has been in force.
\<close>

section \<open>The shared state that is in order\<close>

text \<open>
  With respect to the services that have been in force: a cached service token is one of them, a
  cached JWKS document is that of one of their key sets, under its key IDs, and a pending e-mail is
  one with a code, to the communications API.
\<close>

definition svc_ok :: "Service set \<Rightarrow> string \<times> int \<Rightarrow> bool" where
  "svc_ok H v \<longleftrightarrow> fst v = [] \<or> (\<exists>s \<in> H. \<exists>c t. own_token s (fst v) c \<and> svc_claims c t)"

definition jwks_ok :: "Service set \<Rightarrow> jwksCache \<Rightarrow> bool" where
  "jwks_ok H c \<longleftrightarrow> (\<exists>s \<in> H. \<exists>k. sv_JWT s = Some k \<and>
     c = (kidsOf (VerificationKeys k), print_value (JWKS_to_json (buildJWKS k))))"

definition mail_ok :: "Service set \<Rightarrow> http_request \<Rightarrow> bool" where
  "mail_ok H rq \<longleftrightarrow> (\<exists>s \<in> H. \<exists>http email code. sv_HttpClient s = Some http \<and>
     email_request (sv_sdk s) http (otp_email email code) = Some rq)"

definition shared_by :: "Service set \<Rightarrow> shared" where
  "shared_by H = \<lparr>sh_svc = svc_ok H, sh_jwks = jwks_ok H, sh_mail = mail_ok H\<rparr>"

section \<open>The tokens of each route\<close>

definition grant_tokens :: "Service \<Rightarrow> TokenResponse \<Rightarrow> bool" where
  "grant_tokens s t \<longleftrightarrow> ts_ExpiresIn t = accessTokenTTL \<and> ts_TokenType t = ''Bearer'' \<and>
     (\<exists>cid sub. registered (sv_ClientRegistry s) cid \<noteq> None \<and>
        (\<exists>aud scopes now. token_for s (ts_AccessToken t) sub aud [] [] accessTokenTTL scopes now) \<and>
        (\<forall>rt. ts_RefreshToken t = Some rt \<longrightarrow> (\<exists>aud fam scopes now.
           token_for s rt sub aud cid fam refreshTokenTTL scopes now \<and> offline_access \<in> set scopes)))"

definition otp_tokens :: "Service \<Rightarrow> TokenResponse \<Rightarrow> bool" where
  "otp_tokens s t \<longleftrightarrow> ts_ExpiresIn t = otpTokenTTL \<and> ts_TokenType t = ''Bearer'' \<and> ts_RefreshToken t = None \<and>
     (\<exists>sub now. token_for s (ts_AccessToken t) sub audienceUser [] [] otpTokenTTL [''otp:verified''] now)"

definition passkey_tokens :: "Service \<Rightarrow> TokenResponse \<Rightarrow> bool" where
  "passkey_tokens s t \<longleftrightarrow> ts_ExpiresIn t = otpTokenTTL \<and> ts_TokenType t = ''Bearer'' \<and>
     (\<exists>sub. (\<exists>now. token_for s (ts_AccessToken t) sub audienceUser [] [] otpTokenTTL [''passkey:verified''] now) \<and>
        (\<exists>rt cid fam now. ts_RefreshToken t = Some rt \<and>
           token_for s rt sub audienceUser cid fam refreshTokenTTL [''offline_access''] now))"

definition route_tokens :: "Service \<Rightarrow> string \<Rightarrow> TokenResponse \<Rightarrow> bool" where
  "route_tokens s name t \<longleftrightarrow>
     name = ''POST /v1/oauth/token'' \<and> grant_tokens s t \<or>
     name = ''POST /v1/otp/verify'' \<and> otp_tokens s t \<or>
     name = ''POST /v1/passkeys/login/complete'' \<and> passkey_tokens s t"

text \<open>
  What an answer may be: tokens, only those of its route, signed with keys that were in force; a
  JWKS document, only that of keys that were in force; anything else.
\<close>

definition plain :: "outcome \<Rightarrow> bool" where
  "plain x \<longleftrightarrow> (\<forall>n t b. x \<noteq> Reply n (TokenBody t) \<and> x \<noteq> Reply n (RawBody b))"

definition jwks_of :: "Service set \<Rightarrow> string \<Rightarrow> bool" where
  "jwks_of H b \<longleftrightarrow> (\<exists>s \<in> H. \<exists>k. sv_JWT s = Some k \<and> b = print_value (JWKS_to_json (buildJWKS k)))"

definition answer_ok :: "Service set \<Rightarrow> string \<Rightarrow> outcome \<Rightarrow> bool" where
  "answer_ok H name x \<longleftrightarrow> (\<forall>n t. x = Reply n (TokenBody t) \<longrightarrow> (\<exists>s \<in> H. route_tokens s name t)) \<and>
     (\<forall>n b. x = Reply n (RawBody b) \<longrightarrow> name = ''GET /.well-known/jwks.json'' \<and> jwks_of H b)"

section \<open>Handlers\<close>

lemma shared_fields [simp]:
  "sh_svc (shared_by H) = svc_ok H" "sh_jwks (shared_by H) = jwks_ok H" "sh_mail (shared_by H) = mail_ok H"
  by (simp_all add: shared_by_def)

lemma plain_simps [simp]:
  "plain (SendError e d)" "plain (Redirect u q)" "plain (HtmlError n d)" "plain (Reply n NoBody)"
  "plain (Reply n (RevokedBody i))" "plain (Reply n (MessageBody m))" "plain (Reply n (StatusBody m))"
  "\<not> plain (Reply n (RawBody m))" "plain (Reply n (JsonBody v))" "plain (Reply n (PasskeyBody c j))"
  "plain (Reply n (IntrospectBody i'))" "plain (Reply n (ValidateBody v'))"
  "\<not> plain (Reply n (TokenBody t))"
  by (simp_all add: plain_def)

lemma meets_respond [simp]: "meets G Q n (respond hs x) \<longleftrightarrow> n = 0 \<and> Q \<lparr>rs_Headers = hs, rs_Outcome = x\<rparr>"
  by (simp add: respond_def)

text \<open>Signing: what comes out is a token of the service.\<close>

lemma meets_SignToken:
  assumes "\<And>tok now. token_for s tok sub aud [] [] ttl scopes now \<Longrightarrow> meets G Q n (k (Inr tok))"
    and "\<And>e. meets G Q n (k (Inl e))"
  shows "meets G Q n (call (s_SignToken s this_issuer sub aud ttl scopes) k)"
proof (rule meets_then)
  show "meets G (\<lambda>r. \<forall>tok. r = Inr tok \<longrightarrow> (\<exists>now. token_for s tok sub aud [] [] ttl scopes now)) 0
      (s_SignToken s this_issuer sub aud ttl scopes)"
    by (auto simp: s_SignToken_def SignToken_def SignTokenWithAZP_def SignRefreshToken_def token_for_def own_token_def
        split: option.split)
  show "meets G Q n (k a)" if "\<forall>tok. a = Inr tok \<longrightarrow> (\<exists>now. token_for s tok sub aud [] [] ttl scopes now)" for a
    using assms that by (cases a) auto
qed

lemma meets_SignRefreshToken:
  assumes "\<And>tok now. token_for s tok sub aud azp fam ttl scopes now \<Longrightarrow> meets G Q n (k (Inr tok))"
    and "\<And>e. meets G Q n (k (Inl e))"
  shows "meets G Q n (call (s_SignRefreshToken s this_issuer sub aud azp fam ttl scopes) k)"
proof (rule meets_then)
  show "meets G (\<lambda>r. \<forall>tok. r = Inr tok \<longrightarrow> (\<exists>now. token_for s tok sub aud azp fam ttl scopes now)) 0
      (s_SignRefreshToken s this_issuer sub aud azp fam ttl scopes)"
    by (auto simp: s_SignRefreshToken_def SignRefreshToken_def token_for_def own_token_def split: option.split)
  show "meets G Q n (k a)" if "\<forall>tok. a = Inr tok \<longrightarrow> (\<exists>now. token_for s tok sub aud azp fam ttl scopes now)" for a
    using assms that by (cases a) auto
qed

lemma meets_svc:
  assumes "s \<in> H"
  shows "meets (shared_by H) (\<lambda>_. True) 0 (getOrRefreshSvcJWT s)"
proof -
  have "svc_ok H (tok, x)" if "token_for s tok this_issuer audienceService [] [] svcJWTTTLSec [''svc:komodo-auth-api''] now" for tok now x
    using that assms unfolding svc_ok_def token_for_def svc_claims_def fst_conv by blast
  then show ?thesis
    by (auto simp: getOrRefreshSvcJWT_def Let_def intro!: meets_SignToken split: sum.split)
qed

lemma meets_svc_then:
  "s \<in> H \<Longrightarrow> (\<And>a. meets (shared_by H) Q n (k a)) \<Longrightarrow> meets (shared_by H) Q n (call (getOrRefreshSvcJWT s) k)"
  by (meson meets_svc meets_then)

text \<open>The routines that issue tokens.\<close>

lemma plain_answer: "plain x \<Longrightarrow> answer_ok H name x"
  by (auto simp: plain_def answer_ok_def)

lemma answer_ok_token: "answer_ok H name (Reply n (TokenBody t)) \<longleftrightarrow> (\<exists>s \<in> H. route_tokens s name t)"
  by (auto simp: answer_ok_def)

definition gives :: "Service set \<Rightarrow> string \<Rightarrow> response proc \<Rightarrow> bool" where
  "gives H name p \<longleftrightarrow> meets (shared_by H) (\<lambda>r. answer_ok H name (rs_Outcome r)) 0 p"

lemma gives_respond [simp]: "gives H name (respond hs x) \<longleftrightarrow> answer_ok H name x"
  by (simp add: gives_def)

lemma gives_quiet: "quiet p \<Longrightarrow> (\<And>a. gives H name (k a)) \<Longrightarrow> gives H name (call p k)"
  unfolding gives_def by (rule quiet_then)

lemma gives_svc: "s \<in> H \<Longrightarrow> (\<And>a. gives H name (k a)) \<Longrightarrow> gives H name (call (getOrRefreshSvcJWT s) k)"
  unfolding gives_def by (rule meets_svc_then)

lemma gives_UuidNew: "(\<And>a. gives H name (f a)) \<Longrightarrow> gives H name (UuidNew f)"
  and gives_TimeNow: "(\<And>t. gives H name (g t)) \<Longrightarrow> gives H name (TimeNow g)"
  by (simp_all add: gives_def)

lemma gives_SignToken:
  "(\<And>tok now. token_for s tok sub aud [] [] ttl scopes now \<Longrightarrow> gives H name (k (Inr tok))) \<Longrightarrow>
     (\<And>e. gives H name (k (Inl e))) \<Longrightarrow> gives H name (call (s_SignToken s this_issuer sub aud ttl scopes) k)"
  unfolding gives_def by (rule meets_SignToken)

lemma gives_SignRefreshToken:
  "(\<And>tok now. token_for s tok sub aud azp fam ttl scopes now \<Longrightarrow> gives H name (k (Inr tok))) \<Longrightarrow>
     (\<And>e. gives H name (k (Inl e))) \<Longrightarrow> gives H name (call (s_SignRefreshToken s this_issuer sub aud azp fam ttl scopes) k)"
  unfolding gives_def by (rule meets_SignRefreshToken)

lemma gives_if: "gives H name p \<Longrightarrow> gives H name q \<Longrightarrow> gives H name (if b then p else q)"
  and gives_prod: "(\<And>a b. gives H name (h a b)) \<Longrightarrow> gives H name (case x of (a, b) \<Rightarrow> h a b)"
  by (simp_all split: prod.split)

lemmas gives_thens = quiet_routines [THEN gives_quiet] gives_UuidNew gives_TimeNow

lemma grant_answer:
  assumes "s \<in> H" and "registered (sv_ClientRegistry s) cid \<noteq> None"
    and "token_for s access sub aud [] [] accessTokenTTL sc now"
    and "\<And>rt. refresh = Some rt \<Longrightarrow> \<exists>aud fam scopes now. token_for s rt sub aud cid fam refreshTokenTTL scopes now \<and>
      offline_access \<in> set scopes"
  shows "answer_ok H ''POST /v1/oauth/token'' (Reply n (TokenBody \<lparr>ts_AccessToken = access, ts_ExpiresIn = accessTokenTTL,
    ts_RefreshToken = refresh, ts_Scope = x, ts_TokenType = ''Bearer''\<rparr>))"
  using assms unfolding answer_ok_token route_tokens_def grant_tokens_def TokenResponse.simps by blast

lemma passkey_answer:
  assumes "s \<in> H" and "token_for s access sub audienceUser [] [] otpTokenTTL [''passkey:verified''] now"
    and "token_for s rt sub audienceUser cid fam refreshTokenTTL [''offline_access''] now'"
  shows "answer_ok H ''POST /v1/passkeys/login/complete'' (Reply n (TokenBody \<lparr>ts_AccessToken = access, ts_ExpiresIn = otpTokenTTL,
    ts_RefreshToken = Some rt, ts_Scope = x, ts_TokenType = ''Bearer''\<rparr>))"
  using assms unfolding answer_ok_token route_tokens_def passkey_tokens_def TokenResponse.simps by blast

lemma gives_otp_issue:
  assumes "s \<in> H" shows "gives H ''POST /v1/otp/verify'' (otp_issue s sub)"
  unfolding otp_issue_def Let_def
  using assms by (intro gives_SignToken) (auto simp: plain_answer answer_ok_token route_tokens_def otp_tokens_def)

lemma gives_passkey_issue:
  assumes "s \<in> H" shows "gives H ''POST /v1/passkeys/login/complete'' (passkey_issue s sub cid)"
  unfolding passkey_issue_def Let_def passkeyLoginScope_def
  by (intro gives_SignToken)
    (auto simp: plain_answer intro!: gives_SignRefreshToken gives_UuidNew intro: passkey_answer [OF assms])

lemma gives_cc_issue:
  assumes "s \<in> H" and "registered (sv_ClientRegistry s) cid \<noteq> None"
  shows "gives H ''POST /v1/oauth/token'' (cc_issue s cid rec sc fs off)"
  unfolding cc_issue_def Let_def
  by (intro gives_SignToken)
    (auto simp: plain_answer nonempty_def intro!: gives_SignRefreshToken gives_UuidNew grant_answer [OF assms] exI)

lemma gives_exchange_issue:
  assumes "s \<in> H" and "registered (sv_ClientRegistry s) cid \<noteq> None"
  shows "gives H ''POST /v1/oauth/token'' (exchange_issue s cid e)"
  unfolding exchange_issue_def Let_def
  by (intro gives_SignToken)
    (auto simp: plain_answer intro!: gives_SignRefreshToken gives_UuidNew grant_answer [OF assms] exI)

lemma gives_refresh_issue:
  assumes "s \<in> H" and "registered (sv_ClientRegistry s) cid \<noteq> None" and "offline_access \<in> set (cl_Scopes c)"
  shows "gives H ''POST /v1/oauth/token'' (refresh_issue s cid c)"
  unfolding refresh_issue_def Let_def
  using assms(3)
  by (intro gives_SignToken)
    (auto simp: plain_answer intro!: gives_SignRefreshToken gives_thens grant_answer [OF assms(1,2)] exI)

text \<open>The token endpoint.\<close>

lemma gives_bans:
  assumes "s \<in> H"
  shows "meets (shared_by H) (\<lambda>_. True) 0 (isRefreshTokenUserBanned s scopes sub)"
    and "meets (shared_by H) (\<lambda>_. True) 0 (exchange_banned s sub)"
    and "meets (shared_by H) (\<lambda>_. True) 0 (creds_side s sub)"
  using assms
  by (auto simp: isRefreshTokenUserBanned_def exchange_banned_def creds_side_def Let_def intro!: meets_svc_then
      quiet_routines [THEN quiet_then] quiet_routines [unfolded quiet_def, rule_format] split: guarantee_splits)

lemma gives_then: "meets (shared_by H) (\<lambda>_. True) 0 p \<Longrightarrow> (\<And>a. gives H name (k a)) \<Longrightarrow> gives H name (call p k)"
  unfolding gives_def by (meson meets_then)

lemma registered_client: "snd (Registry_Get reg cid) \<longleftrightarrow> (\<exists>rec. registered reg cid = Some rec)"
  "ValidateAndGet reg cid pw = (rec, True) \<Longrightarrow> registered reg cid \<noteq> None"
  by (auto simp: Registry_Get_value ValidateAndGet_value split: option.splits if_splits)

lemma refusal_answer: "refreshRevocationDenied s c = p \<Longrightarrow> meets G (\<lambda>d. \<forall>out. d = Some out \<longrightarrow> plain out) 0 p"
  by (auto simp: refreshRevocationDenied_def Let_def intro!: quiet_cache [THEN quiet_then] split: guarantee_splits)

lemma gives_refresh_with:
  assumes "s \<in> H" and "registered (sv_ClientRegistry s) cid \<noteq> None"
  shows "gives H ''POST /v1/oauth/token'' (refresh_with s cid rec c)"
proof -
  have "gives H ''POST /v1/oauth/token'' (call (refreshRevocationDenied s c) k)"
    if "\<And>d. (\<forall>out. d = Some out \<longrightarrow> plain out) \<Longrightarrow> gives H ''POST /v1/oauth/token'' (k d)" for k
    unfolding gives_def by (rule meets_then [OF refusal_answer [OF refl]]) (rule that [unfolded gives_def], assumption)
  note denied = this
  show ?thesis
    unfolding refresh_with_def Let_def
    using gives_refresh_issue [OF assms]
    by (auto simp: plain_answer intro!: denied gives_then [OF gives_bans(1) [OF assms(1)]] split: option.splits)
qed

lemma gives_token_endpoint:
  assumes "s \<in> H"
  shows "gives H ''POST /v1/oauth/token'' (OAuthTokenHandler s req)"
proof -
  have "gives H ''POST /v1/oauth/token'' (handleClientCredentials s rb)" for rb
    by (auto simp: handleClientCredentials_def Let_def plain_answer split: prod.splits
        intro!: gives_cc_issue [OF assms] dest: registered_client(2))
  moreover have "gives H ''POST /v1/oauth/token'' (handleRefreshToken s rb)" for rb
    by (auto simp: handleRefreshToken_def Let_def plain_answer split: prod.splits option.splits sum.splits
        intro!: gives_thens gives_refresh_with [OF assms] dest: registered_client(2))
  moreover have "gives H ''POST /v1/oauth/token'' (handleAuthorizationCode s rb)" for rb
    by (auto simp: handleAuthorizationCode_def Let_def plain_answer registered_client(1) split: prod.splits sum.splits
        intro!: gives_thens gives_then [OF gives_bans(2) [OF assms]] gives_exchange_issue [OF assms])
  ultimately show ?thesis
    by (auto simp: OAuthTokenHandler_def Let_def plain_answer split: sum.split)
qed

text \<open>One-time codes.\<close>

lemma gives_otp_request:
  assumes "s \<in> H"
  shows "gives H name (OTPRequestHandler s req)"
proof -
  have "gives H name (call (SendEmail (sv_sdk s) http (otp_email email code)) k)"
    if "sv_HttpClient s = Some http" "\<And>a. gives H name (k a)" for http email code k
  proof -
    have "meets (shared_by H) (\<lambda>_. True) 0 (SendEmail (sv_sdk s) http (otp_email email code))"
      using assms that(1) by (auto simp: SendEmail_def mail_ok_def)
    then show ?thesis using that(2) by (rule gives_then)
  qed
  then show ?thesis
    by (auto simp: OTPRequestHandler_def Let_def plain_answer intro!: gives_thens split: sum.splits option.splits)
qed

lemma gives_otp_verify:
  assumes "s \<in> H"
  shows "gives H ''POST /v1/otp/verify'' (OTPVerifyHandler sch s req)"
proof -
  have "meets (shared_by H) (\<lambda>(a, b). True \<and> True) 0 (par sch (verify_side c e code) (creds_side s e))" for c e code
    by (rule meets_par [where m = 0 and n = 0, simplified, OF _ gives_bans(3) [OF assms]])
      (auto simp: verify_side_def intro!: quiet_cache [THEN quiet_then] split: option.split)
  then have sides: "meets (shared_by H) (\<lambda>_. True) 0 (par sch (verify_side c e code) (creds_side s e))" for c e code
    by (rule meets_mono) simp
  have "gives H ''POST /v1/otp/verify'' (verify_code sch s e code)" for e code
    by (auto simp: verify_code_def Let_def plain_answer verify_refusal_def intro!: gives_then [OF sides]
        gives_otp_issue [OF assms] split: option.splits sum.splits)
  then show ?thesis
    by (auto simp: OTPVerifyHandler_def Let_def plain_answer intro!: gives_thens split: sum.splits)
qed

text \<open>Passkeys.\<close>

lemma gives_passkeys:
  assumes "s \<in> H"
  shows "gives H name (PasskeyRegisterBeginHandler wa s req)" and "gives H name (PasskeyRegisterCompleteHandler wa s req)"
    and "gives H name (PasskeyLoginBeginHandler wa s req)"
    and "gives H ''POST /v1/passkeys/login/complete'' (PasskeyLoginCompleteHandler wa s req)"
proof -
  note intros = gives_thens gives_svc [OF assms]
  show "gives H name (PasskeyRegisterBeginHandler wa s req)"
    by (auto simp: PasskeyRegisterBeginHandler_def nil_panic_def Let_def plain_answer intro!: intros split: guarantee_splits)
  have "gives H name (register_credential s sub cr)" for sub cr
    by (auto simp: register_credential_def nil_panic_def Let_def plain_answer intro!: intros split: guarantee_splits)
  then show "gives H name (PasskeyRegisterCompleteHandler wa s req)"
    by (auto simp: PasskeyRegisterCompleteHandler_def Let_def plain_answer intro!: intros split: guarantee_splits)
  have "gives H name (begin_login lib s http tok u e c)" for lib :: "'s webauthn_lib" and http tok u e c
    by (auto simp: begin_login_def Let_def plain_answer intro!: intros split: guarantee_splits)
  then show "gives H name (PasskeyLoginBeginHandler wa s req)"
    by (auto simp: PasskeyLoginBeginHandler_def nil_panic_def Let_def plain_answer intro!: intros split: guarantee_splits)
  let ?n = "''POST /v1/passkeys/login/complete''"
  have upd: "gives H ?n (call (case time_text t of Inl err \<Rightarrow> Ret (Some (Wrapf m err)) | Inr used \<Rightarrow> UpdatePasskeyCredential http u tok (d used)) k)"
    if "\<And>a. gives H ?n (k a)" for t m http u tok d k
    using that by (cases "time_text t") (simp_all add: gives_thens)
  have fin: "gives H ?n (finish_login s http tok ch ls ds cr n)" for http tok ch and ls :: "'s WebAuthnLoginSession" and ds cr n
    unfolding finish_login_def Let_def
    by (intro gives_TimeNow upd) (auto simp: plain_answer intro!: gives_thens gives_passkey_issue [OF assms] split: option.split)
  have "gives H ?n (complete_login lib s raw ch n ls)" for lib :: "'s webauthn_lib" and raw ch n ls
    by (auto simp: complete_login_def nil_panic_def Let_def plain_answer intro!: intros fin split: guarantee_splits)
  then show "gives H ?n (PasskeyLoginCompleteHandler wa s req)"
    by (auto simp: PasskeyLoginCompleteHandler_def Let_def plain_answer intro!: intros split: guarantee_splits)
qed

text \<open>The other endpoints.\<close>

lemma gives_jwks:
  assumes "s \<in> H"
  shows "gives H ''GET /.well-known/jwks.json'' (JWKSHandler s req)"
proof -
  have "meets (shared_by H) (\<lambda>r. \<forall>b. r = Inr b \<longrightarrow> jwks_of H b) 0 (cachedJWKSBody k)" if "sv_JWT s = Some k" for k
    using assms that by (auto simp: cachedJWKSBody_def Let_def jwks_ok_def jwks_of_def split: option.split)
  then have "gives H ''GET /.well-known/jwks.json'' (call (cachedJWKSBody k) (\<lambda>r. case r of
      Inl err \<Rightarrow> respond jwks_headers (SendError Global_Internal ''failed to build JWKS'')
    | Inr body \<Rightarrow> respond jwks_headers (Reply 200 (RawBody body))))" if "sv_JWT s = Some k" for k
    unfolding gives_def by (rule meets_then [OF _ _]) (use that in \<open>auto simp: answer_ok_def split: sum.split\<close>)
  then show ?thesis by (auto simp: JWKSHandler_def plain_answer split: option.split)
qed

lemma gives_authorize: "gives H name (OAuthAuthorizeHandler s req)"
proof -
  have red: "gives H name (redirect_with u f)" for u f
    by (auto simp: redirect_with_def plain_answer split: option.split)
  have err: "gives H name (redirectAuthorizeError u e d st)" for u e d st
    unfolding redirectAuthorizeError_def by (rule red)
  have "quiet generateAuthCode" by (auto simp: generateAuthCode_def split: sum.split)
  then have "gives H name (issue_code s entry st)" for entry st
    by (auto simp: issue_code_def Let_def intro!: gives_quiet gives_thens err red split: guarantee_splits)
  then show ?thesis
    unfolding OAuthAuthorizeHandler_def sendAuthorizeDirectError_def Let_def
    by (intro gives_if gives_prod err) (simp_all add: plain_answer)
qed

lemma gives_revoke: "gives H name (OAuthRevokeHandler s req)"
proof -
  have "gives H name (revoke_claims s cid c)" for cid c
    by (auto simp: revoke_claims_def Let_def plain_answer intro!: gives_thens split: option.split)
  then show ?thesis
    by (auto simp: OAuthRevokeHandler_def Let_def plain_answer intro!: gives_thens split: guarantee_splits)
qed

lemma gives_ready: "\<forall>c \<in> set cs. quiet c \<Longrightarrow> gives H name (HealthReadyHandler cs req)"
  by (induction cs) (auto simp: plain_answer intro!: gives_quiet split: option.split)

lemma public_checks_quiet: "\<forall>c \<in> set (public_checks s). quiet c"
  by (auto simp: public_checks_def quiet_cache quiet_clients split: option.splits)

end
