(* ===== verification/SystemProps.thy ===== *)
theory SystemProps
  imports System RouteProps EntryProps Bounds OtpEndpointProps KeyProps
begin

text \<open>
  The public program as a transition system, from its start: requests arrive and are served
  concurrently, e-mails are delivered, secrets are rotated and the outside changes. Its invariant
  follows from what each handler guarantees (theory System); the properties of the program as a
  whole are what the invariant says in the states that can be reached, and that from each of them
  every request is answered and every slot of the e-mail semaphore is freed.
\<close>

section \<open>Routes\<close>

text \<open>
  What the middleware is documented to do, as far as the shared state is concerned: it answers as
  the handler does or without a body, and it leaves the cached token, the cached JWKS document and
  the e-mails alone.
\<close>

definition bodiless :: "outcome \<Rightarrow> bool" where
  "bodiless x \<longleftrightarrow> (\<exists>e d. x = SendError e d) \<or> (\<exists>n. x = Reply n NoBody)"

definition wraps :: "(handler \<Rightarrow> handler) \<Rightarrow> bool" where
  "wraps m \<longleftrightarrow> (\<forall>G P h. (\<forall>x. bodiless x \<longrightarrow> P x) \<longrightarrow> (\<forall>req. meets G (\<lambda>r. P (rs_Outcome r)) 0 (h req)) \<longrightarrow>
     (\<forall>req. meets G (\<lambda>r. P (rs_Outcome r)) 0 (m h req)))"

definition middleware_wraps :: "middleware_lib \<Rightarrow> bool" where
  "middleware_wraps L \<longleftrightarrow> (\<forall>m \<in> set (oauthMW L). wraps m) \<and> wraps (ml_Idempotency L) \<and> wraps (ml_MaxContentLength L 0) \<and>
     (\<forall>scopes. wraps (ml_RequireAnyScope L scopes)) \<and>
     (\<forall>verify. (\<forall>tok. quiet (verify tok)) \<longrightarrow> wraps (ml_Middleware L verify)) \<and>
     (\<forall>req G. meets G (\<lambda>r. bodiless (rs_Outcome r)) 0 (ml_HealthHandler L req))"

lemma bodiless_plain: "bodiless x \<Longrightarrow> plain x"
  by (auto simp: bodiless_def)

lemma wraps_gives:
  assumes "wraps m" and "\<And>req. gives H name (h req)"
  shows "gives H name (m h req)"
proof -
  have "\<forall>x. bodiless x \<longrightarrow> answer_ok H name x" by (simp add: bodiless_plain plain_answer)
  then show ?thesis
    using assms(1) [unfolded wraps_def, rule_format, of "answer_ok H name" "shared_by H" h req] assms(2)
    by (simp add: gives_def)
qed

lemma chain_gives:
  assumes "\<forall>m \<in> set ms. wraps m" and "\<And>req. gives H name (h req)"
  shows "gives H name (Chain h ms req)"
  using assms
proof (induction ms arbitrary: req)
  case (Cons m ms)
  have "Chain h (m # ms) = m (Chain h ms)" by (simp add: Chain_def)
  then show ?case using wraps_gives [of m H name "Chain h ms"] Cons by auto
qed (simp add: Chain_def)

lemma quiet_verify: "quiet (tokenVerifier_Verify s tok)"
  by (auto simp: tokenVerifier_Verify_def intro!: quiet_call quiet_keys split: sum.split)

lemma middleware_chains:
  assumes "middleware_wraps L"
  shows "\<forall>m \<in> set (readyMW L). wraps m" and "\<forall>m \<in> set (oauthMW L). wraps m"
    and "\<forall>m \<in> set (oauthMW L @ [ml_Idempotency L]). wraps m" and "\<forall>m \<in> set (passkeyMW L s). wraps m"
    and "wraps (ml_MaxContentLength L 0)"
  using assms quiet_verify [of s]
  by (auto simp: middleware_wraps_def readyMW_def oauthMW_def passkeyMW_def PasskeyAuthMiddleware_def)

text \<open>Every route gives what it may.\<close>

lemma route_gives:
  assumes "middleware_wraps L" and "s \<in> H" and "(name, h) \<in> set (public_newMux L sch wa s)"
  shows "gives H name (h req)"
proof -
  note ms = middleware_chains [OF assms(1)]
  have health: "gives H name (ml_HealthHandler L req)" for name req
    unfolding gives_def
    by (rule meets_mono [where P = "\<lambda>r. bodiless (rs_Outcome r)"])
      (use assms(1) in \<open>simp_all add: middleware_wraps_def bodiless_plain plain_answer\<close>)
  show ?thesis
    using assms(3)
    by (auto simp: public_newMux_def Let_def intro!: health wraps_gives [OF ms(5)] chain_gives ms(1-4) gives_ready public_checks_quiet
        gives_jwks gives_token_endpoint gives_authorize gives_revoke gives_otp_request gives_otp_verify gives_passkeys assms(2))
qed

section \<open>The program\<close>

text \<open>
  The service after some rotations: keys and registry are replaced together or each on its own, the
  rest stays. A request works with the service of its arrival.
\<close>

definition service_after :: "jwt_lib \<Rightarrow> sdk_names \<Rightarrow> Service \<Rightarrow> secrets list \<Rightarrow> Service" where
  "service_after lib N s ms =
     (case (sv_JWT s, sv_ClientRegistry s) of
        (Some k, Some r) \<Rightarrow>
          (case rotations lib N ms (k, r) of (k', r') \<Rightarrow> s\<lparr>sv_JWT := Some k', sv_ClientRegistry := Some r'\<rparr>)
      | _ \<Rightarrow> s)"

text \<open>The services that have been in force, when \<open>ms\<close> are the secrets of the rotations so far.\<close>

definition in_force :: "jwt_lib \<Rightarrow> sdk_names \<Rightarrow> Service \<Rightarrow> secrets list \<Rightarrow> Service set" where
  "in_force lib N s ms = {service_after lib N s (take i ms) | i. i \<le> length ms}"

text \<open>
  A state: the rotations so far, the requests being served (with the route and what is left of the
  handler), the answers given, and the world.
\<close>

record ('r, 'h, 'c) system =
  sy_rotated :: "secrets list"
  sy_running :: "(string \<times> response proc) list"
  sy_answered :: "(string \<times> outcome) list"
  sy_world :: "('r, 'h, 'c) world"

text \<open>
  What can happen: a request arrives at a route; a request makes its next call; a request that has
  returned is answered; the goroutine of some pending e-mail makes its request and frees its slot;
  the secrets are rotated; Redis, the peers and the clock change on their own (an expiry, another
  program).
\<close>

inductive system_step ::
  "jwt_lib \<Rightarrow> sdk_names \<Rightarrow> middleware_lib \<Rightarrow> 's webauthn_lib option \<Rightarrow> Service \<Rightarrow> ('r, 'h, 'c) env \<Rightarrow>
     ('r, 'h, 'c) system \<Rightarrow> ('r, 'h, 'c) system \<Rightarrow> bool"
  for lib N L wa s E where
  arrive: "(name, h) \<in> set (public_newMux L sch wa (service_after lib N s (sy_rotated st))) \<Longrightarrow>
     system_step lib N L wa s E st (st\<lparr>sy_running := (name, h req) # sy_running st\<rparr>)"
| turn: "sy_running st = xs @ (name, p) # ys \<Longrightarrow> step_proc E p (sy_world st) = (p', w') \<Longrightarrow>
     system_step lib N L wa s E st (st\<lparr>sy_running := xs @ (name, p') # ys, sy_world := w'\<rparr>)"
| answer: "sy_running st = xs @ (name, Ret r) # ys \<Longrightarrow>
     system_step lib N L wa s E st (st\<lparr>sy_running := xs @ ys, sy_answered := sy_answered st @ [(name, rs_Outcome r)]\<rparr>)"
| deliver: "w_emails (sy_world st) = qs @ q # qs' \<Longrightarrow>
     system_step lib N L wa s E st (st\<lparr>sy_world := (sy_world st)
       \<lparr>w_http := snd (env_http E q (w_http (sy_world st))), w_emails := qs @ qs', w_sem := w_sem (sy_world st) - 1\<rparr>\<rparr>)"
| rotate: "system_step lib N L wa s E st (st\<lparr>sy_rotated := sy_rotated st @ [m]\<rparr>)"
| outside: "system_step lib N L wa s E st (st\<lparr>sy_world := (sy_world st)\<lparr>w_redis := store, w_http := net, w_rt := clock\<rparr>\<rparr>)"

text \<open>A start: nothing is cached, nothing runs.\<close>

definition starting :: "('r, 'h, 'c) system \<Rightarrow> bool" where
  "starting st \<longleftrightarrow> sy_rotated st = [] \<and> sy_running st = [] \<and> sy_answered st = [] \<and> w_svc (sy_world st) = ([], 0) \<and>
     w_jwks (sy_world st) = None \<and> w_emails (sy_world st) = [] \<and> w_sem (sy_world st) = 0"

section \<open>The invariant\<close>

definition serves :: "Service set \<Rightarrow> string \<Rightarrow> nat \<Rightarrow> response proc \<Rightarrow> bool" where
  "serves H name n p \<longleftrightarrow> (\<forall>H'. H \<subseteq> H' \<longrightarrow> meets (shared_by H') (\<lambda>r. answer_ok H' name (rs_Outcome r)) n p)"

definition slot_counts :: "Service set \<Rightarrow> (string \<times> response proc) list \<Rightarrow> nat list \<Rightarrow> bool" where
  "slot_counts H = list_all2 (\<lambda>(name, p) n. serves H name n p)"

definition system_inv :: "Service set \<Rightarrow> ('r, 'h, 'c) system \<Rightarrow> bool" where
  "system_inv H st \<longleftrightarrow> world_ok (shared_by H) (sy_world st) \<and>
     (\<exists>ns. slot_counts H (sy_running st) ns \<and> slots_ok (sum_list ns) (sy_world st)) \<and>
     (\<forall>x \<in> set (sy_answered st). answer_ok H (fst x) (snd x))"

lemma answer_ok_mono: "answer_ok H name x \<Longrightarrow> H \<subseteq> H' \<Longrightarrow> answer_ok H' name x"
  unfolding answer_ok_def jwks_of_def by blast

lemma world_ok_mono: "world_ok (shared_by H) w \<Longrightarrow> H \<subseteq> H' \<Longrightarrow> world_ok (shared_by H') w"
  unfolding world_ok_def shared_fields svc_ok_def jwks_ok_def mail_ok_def by blast

lemma serves_mono: "serves H name n p \<Longrightarrow> H \<subseteq> H' \<Longrightarrow> serves H' name n p"
  by (auto simp: serves_def)

lemma slot_counts_mono: "slot_counts H ps ns \<Longrightarrow> H \<subseteq> H' \<Longrightarrow> slot_counts H' ps ns"
  unfolding slot_counts_def by (erule list_all2_mono) (auto intro: serves_mono)

lemma slots_unique: "slots_ok (n + m) w \<Longrightarrow> slots_ok (n' + m) w \<Longrightarrow> n = n'"
  by (simp add: slots_ok_def)

lemma serves_step:
  assumes "serves H name n p" and "world_ok (shared_by H) w" and "slots_ok (n + m) w" and "step_proc E p w = (p', w')"
  shows "\<exists>n'. serves H name n' p' \<and> world_ok (shared_by H) w' \<and> slots_ok (n' + m) w'"
proof -
  let ?Q = "\<lambda>H' r. answer_ok H' name (rs_Outcome r)"
  have step: "\<exists>n'. meets (shared_by H') (?Q H') n' p' \<and> world_ok (shared_by H') w' \<and> slots_ok (n' + m) w'" if "H \<subseteq> H'" for H'
    using assms(1) that meets_step [OF _ world_ok_mono [OF assms(2) that] assms(3,4)] unfolding serves_def by blast
  obtain n' where n': "world_ok (shared_by H) w'" "slots_ok (n' + m) w'" using step [of H] by blast
  have "meets (shared_by H') (?Q H') n' p'" if "H \<subseteq> H'" for H'
    using step [OF that] slots_unique [OF n'(2)] by blast
  then show ?thesis using n' unfolding serves_def by blast
qed

lemma slot_counts_split:
  "slot_counts H (xs @ (name, p) # ys) ns \<longleftrightarrow>
     (\<exists>ks n ls. ns = ks @ n # ls \<and> slot_counts H xs ks \<and> serves H name n p \<and> slot_counts H ys ls)"
  unfolding slot_counts_def list_all2_append1 list_all2_Cons1 by (auto dest: list_all2_lengthD) (metis list_all2_lengthD length_Cons)

lemma slot_counts_join: "slot_counts H xs ks \<Longrightarrow> slot_counts H ys ls \<Longrightarrow> slot_counts H (xs @ ys) (ks @ ls)"
  by (simp add: slot_counts_def list_all2_appendI)

lemma in_force_grows: "in_force lib N s ms \<subseteq> in_force lib N s (ms @ [m])"
proof
  fix s' assume "s' \<in> in_force lib N s ms"
  then obtain i where i: "s' = service_after lib N s (take i ms)" "i \<le> length ms" by (auto simp: in_force_def)
  then have "s' = service_after lib N s (take i (ms @ [m]))" "i \<le> length (ms @ [m])" by simp_all
  then show "s' \<in> in_force lib N s (ms @ [m])" unfolding in_force_def by blast
qed

lemma now_in_force: "service_after lib N s ms \<in> in_force lib N s ms"
  unfolding in_force_def by (metis (mono_tags, lifting) mem_Collect_eq order_refl take_all)

lemma starting_inv: "starting st \<Longrightarrow> system_inv H st"
  by (auto simp: starting_def system_inv_def world_ok_def svc_ok_def slot_counts_def slots_ok_def)

lemma route_serves:
  assumes "middleware_wraps L" and "(name, h) \<in> set (public_newMux L sch wa (service_after lib N s ms))"
  shows "serves (in_force lib N s ms) name 0 (h req)"
  using route_gives [OF assms(1) _ assms(2)] now_in_force unfolding serves_def gives_def by blast

lemma system_inv_step:
  assumes "middleware_wraps L" and "system_step lib N L wa s E st st'" and "system_inv (in_force lib N s (sy_rotated st)) st"
  shows "system_inv (in_force lib N s (sy_rotated st')) st'"
  using assms(2)
proof cases
  case (arrive name h sch req)
  obtain ns where ns: "slot_counts (in_force lib N s (sy_rotated st)) (sy_running st) ns" "slots_ok (sum_list ns) (sy_world st)"
    using assms(3) unfolding system_inv_def by blast
  then have "slot_counts (in_force lib N s (sy_rotated st)) ((name, h req) # sy_running st) (0 # ns)"
    using route_serves [OF assms(1) arrive(2)] by (simp add: slot_counts_def)
  moreover have "slots_ok (sum_list (0 # ns)) (sy_world st)" using ns(2) by simp
  ultimately have "\<exists>ns'. slot_counts (in_force lib N s (sy_rotated st)) ((name, h req) # sy_running st) ns' \<and>
      slots_ok (sum_list ns') (sy_world st)" by blast
  then show ?thesis using arrive assms(3) by (simp add: system_inv_def)
next
  case (turn xs name p ys p' w')
  let ?H = "in_force lib N s (sy_rotated st)"
  obtain ks n ls where k: "slot_counts ?H xs ks" "serves ?H name n p" "slot_counts ?H ys ls"
      "slots_ok (sum_list (ks @ n # ls)) (sy_world st)"
    using assms(3) turn(2) slot_counts_split [of ?H xs name p ys] by (auto simp: system_inv_def)
  have eq: "sum_list (ks @ j # ls) = j + (sum_list ks + sum_list ls)" for j :: nat by simp
  have "world_ok (shared_by ?H) (sy_world st)" using assms(3) by (simp add: system_inv_def)
  from serves_step [OF k(2) this k(4) [unfolded eq] turn(3)]
  obtain n' where n': "serves ?H name n' p'" "world_ok (shared_by ?H) w'" "slots_ok (sum_list (ks @ n' # ls)) w'"
    unfolding eq by blast
  have "slot_counts ?H (xs @ (name, p') # ys) (ks @ n' # ls)"
    unfolding slot_counts_split using k(1,3) n'(1) by blast
  then show ?thesis using turn(1) assms(3) n'(2,3) by (auto simp: system_inv_def)
next
  case (answer xs name r ys)
  let ?H = "in_force lib N s (sy_rotated st)"
  obtain ks n ls where k: "slot_counts ?H xs ks" "serves ?H name n (Ret r)" "slot_counts ?H ys ls"
      "slots_ok (sum_list (ks @ n # ls)) (sy_world st)"
    using assms(3) answer(2) slot_counts_split [of ?H xs name "Ret r" ys] by (auto simp: system_inv_def)
  have "n = 0" "answer_ok ?H name (rs_Outcome r)" using k(2) by (auto simp: serves_def)
  then show ?thesis
    using answer(1) assms(3) slot_counts_join [OF k(1,3)] k(4) by (auto simp: system_inv_def)
next
  case (deliver qs q qs')
  obtain ns where "slot_counts (in_force lib N s (sy_rotated st)) (sy_running st) ns" "slots_ok (sum_list ns) (sy_world st)"
    using assms(3) unfolding system_inv_def by blast
  then show ?thesis using deliver assms(3) by (auto simp: system_inv_def slots_ok_def world_ok_def)
next
  case (rotate m)
  note grows = in_force_grows [of lib N s "sy_rotated st" m]
  show ?thesis
    using rotate assms(3) world_ok_mono [OF _ grows] slot_counts_mono [OF _ grows] answer_ok_mono [OF _ grows]
    unfolding system_inv_def by fastforce
next
  case (outside store net clock)
  then show ?thesis using assms(3) by (simp add: system_inv_def world_ok_def slots_ok_def)
qed

lemma system_invariant:
  assumes "middleware_wraps L" and "starting st0" and "(system_step lib N L wa s E)\<^sup>*\<^sup>* st0 st"
  shows "system_inv (in_force lib N s (sy_rotated st)) st"
  using assms(3)
proof (induction rule: rtranclp_induct)
  case base
  show ?case by (rule starting_inv) (rule assms(2))
next
  case (step st1 st2)
  then show ?case using system_inv_step [OF assms(1)] by blast
qed

section \<open>Draining\<close>

lemma nexts_induct [case_names nexts]: "(\<And>p. (\<And>q. q \<in> nexts p \<Longrightarrow> P q) \<Longrightarrow> P p) \<Longrightarrow> P p"
  by (induction p) force+

text \<open>A request that runs alone from here on: its turns lead to its answer.\<close>

lemma run_request:
  "sy_running st = xs @ (name, p) # ys \<Longrightarrow> exec p E (sy_world st) = (r, w') \<Longrightarrow>
     (system_step lib N L wa s E)\<^sup>*\<^sup>* st
       (st\<lparr>sy_running := xs @ ys, sy_answered := sy_answered st @ [(name, rs_Outcome r)], sy_world := w'\<rparr>)"
proof (induction p arbitrary: st rule: nexts_induct)
  case (nexts p)
  show ?case
  proof (cases "\<exists>a. p = Ret a")
    case True
    then show ?thesis using nexts.prems system_step.answer [of st xs name r ys lib N L wa s E] by (auto intro: r_into_rtranclp)
  next
    case False
    obtain p' v where s: "step_proc E p (sy_world st) = (p', v)" by fastforce
    let ?st = "st\<lparr>sy_running := xs @ (name, p') # ys, sy_world := v\<rparr>"
    have "system_step lib N L wa s E st ?st" by (rule system_step.turn [OF nexts.prems(1) s])
    moreover have "p' \<in> nexts p" using step_nexts [of p E "sy_world st"] False s by simp
    moreover have "exec p' E v = (r, w')" using nexts.prems(2) exec_step [of p E "sy_world st"] s by simp
    ultimately show ?thesis using nexts.IH [of p' ?st] by (simp add: converse_rtranclp_into_rtranclp)
  qed
qed

lemma drain_requests:
  "\<exists>st'. (system_step lib N L wa s E)\<^sup>*\<^sup>* st st' \<and> sy_running st' = [] \<and> sy_rotated st' = sy_rotated st \<and>
     map fst (sy_answered st') = map fst (sy_answered st) @ map fst (sy_running st)"
proof (induction "length (sy_running st)" arbitrary: st)
  case 0
  then show ?case by (intro exI [of _ st]) simp
next
  case (Suc n)
  then obtain name p ys where r: "sy_running st = (name, p) # ys" by (cases "sy_running st") auto
  obtain a w' where e: "exec p E (sy_world st) = (a, w')" by fastforce
  let ?st = "st\<lparr>sy_running := ys, sy_answered := sy_answered st @ [(name, rs_Outcome a)], sy_world := w'\<rparr>"
  have "(system_step lib N L wa s E)\<^sup>*\<^sup>* st ?st" using run_request [of st "[]" name p ys E a w' lib N L wa s] r e by simp
  moreover obtain st' where "(system_step lib N L wa s E)\<^sup>*\<^sup>* ?st st'" "sy_running st' = []" "sy_rotated st' = sy_rotated st"
      "map fst (sy_answered st') = map fst (sy_answered st) @ name # map fst ys"
    using Suc.hyps(1) [of ?st] Suc.hyps(2) r by auto
  ultimately show ?case using r by (metis (no_types, lifting) fst_conv list.simps(9) rtranclp_trans)
qed

lemma drain_emails:
  "\<exists>st'. (system_step lib N L wa s E)\<^sup>*\<^sup>* st st' \<and> w_emails (sy_world st') = [] \<and> sy_running st' = sy_running st \<and>
     sy_rotated st' = sy_rotated st \<and> sy_answered st' = sy_answered st"
proof (induction "length (w_emails (sy_world st))" arbitrary: st)
  case 0
  then show ?case by (intro exI [of _ st]) simp
next
  case (Suc n)
  then obtain q qs where q: "w_emails (sy_world st) = [] @ q # qs" by (cases "w_emails (sy_world st)") auto
  note d = system_step.deliver [OF q, of lib N L wa s E]
  from Suc.hyps(1) [OF _] obtain st' where "(system_step lib N L wa s E)\<^sup>*\<^sup>* (st\<lparr>sy_world := (sy_world st)
       \<lparr>w_http := snd (env_http E q (w_http (sy_world st))), w_emails := [] @ qs, w_sem := w_sem (sy_world st) - 1\<rparr>\<rparr>) st'"
      "w_emails (sy_world st') = []" "sy_running st' = sy_running st" "sy_rotated st' = sy_rotated st"
      "sy_answered st' = sy_answered st"
    using Suc.hyps(1) [of "st\<lparr>sy_world := (sy_world st)
       \<lparr>w_http := snd (env_http E q (w_http (sy_world st))), w_emails := [] @ qs, w_sem := w_sem (sy_world st) - 1\<rparr>\<rparr>"] Suc.hyps(2) q
    by auto
  then show ?case using d by (meson converse_rtranclp_into_rtranclp)
qed

section \<open>A run\<close>

text \<open>Middleware that authenticates and checks scopes wraps; a request that is served while no other is.\<close>

lemma wraps_id: "wraps id"
  by (simp add: wraps_def)

lemma local_middleware_wraps: "middleware_wraps local_middleware"
proof -
  have "wraps (local_scope scopes)" for scopes
    by (auto simp: wraps_def local_scope_def bodiless_def)
  moreover have "wraps (local_auth verify)" if "\<forall>tok. quiet (verify tok)" for verify
    using that by (auto simp: wraps_def local_auth_def bodiless_def intro!: quiet_then split: sum.split)
  ultimately show ?thesis
    using wraps_id by (auto simp: middleware_wraps_def local_middleware_def oauthMW_def bodiless_def)
qed

lemma serve_alone:
  assumes "(name, h) \<in> set (public_newMux L sch wa (service_after lib N s (sy_rotated st)))" and "sy_running st = []"
    and "exec (h req) E (sy_world st) = (r, w')"
  shows "(system_step lib N L wa s E)\<^sup>*\<^sup>* st (st\<lparr>sy_answered := sy_answered st @ [(name, rs_Outcome r)], sy_world := w'\<rparr>)"
proof -
  have "system_step lib N L wa s E st (st\<lparr>sy_running := [(name, h req)]\<rparr>)"
    using system_step.arrive [OF assms(1), of E req] assms(2) by simp
  note converse_rtranclp_into_rtranclp [OF this run_request [of "st\<lparr>sy_running := [(name, h req)]\<rparr>" "[]" name "h req" "[]" E r w']]
  from this show ?thesis using assms(2,3) by (cases st) simp
qed

lemma local_service_start: "service_after local_jwt local_names local_service [] = local_service"
  by (simp add: service_after_def rotations_def local_service_def split: option.split)

definition login_start :: "(ttl_store, peers, runtime) system" where
  "login_start = \<lparr>sy_rotated = [], sy_running = [], sy_answered = [], sy_world = login_world\<rparr>"

lemma login_starting: "starting login_start"
  by (simp add: starting_def login_start_def login_world_def local_world_def)

text \<open>The login with a one-time code, and the publication of the keys, by the program.\<close>

lemma login_run:
  "\<exists>st n t. (system_step local_jwt local_names local_middleware (Some local_webauthn) local_service local_env)\<^sup>*\<^sup>* login_start st \<and>
     (''POST /v1/otp/verify'', Reply n (TokenBody t)) \<in> set (sy_answered st) \<and> sy_rotated st = []"
proof -
  let ?h = "OTPVerifyHandler [] local_service"
  have m: "(''POST /v1/otp/verify'', ?h) \<in> set (public_newMux local_middleware [] (Some local_webauthn)
      (service_after local_jwt local_names local_service (sy_rotated login_start)))"
    by (simp add: login_start_def local_service_start public_newMux_def Let_def Chain_def oauthMW_def local_middleware_def)
  obtain t where t: "issued (fst (exec (?h login_request) local_env login_world)) = Some t" using login_issued by blast
  obtain r w' where e: "exec (?h login_request) local_env (sy_world login_start) = (r, w')" by fastforce
  then obtain n where "rs_Outcome r = Reply n (TokenBody t)"
    using t by (auto simp: login_start_def issued_def split: outcome.splits body.splits)
  then show ?thesis using serve_alone [OF m _ e] by (intro exI conjI) (auto simp: login_start_def)
qed

section \<open>The program as a whole\<close>





text \<open>C38: From every state that the public program reaches, it can come to rest: each request being served is
  answered, on its own route, each pending e-mail is delivered, and then no slot of the e-mail
  semaphore is taken; nothing is deadlocked and no slot is ever lost.\<close>

theorem system_drains:
  assumes "middleware_wraps L" and "starting st0" and "(system_step lib N L wa s E)\<^sup>*\<^sup>* st0 st"
  shows "\<exists>st'. (system_step lib N L wa s E)\<^sup>*\<^sup>* st st' \<and> sy_running st' = [] \<and> sy_rotated st' = sy_rotated st \<and>
    map fst (sy_answered st') = map fst (sy_answered st) @ map fst (sy_running st) \<and>
    w_emails (sy_world st') = [] \<and> w_sem (sy_world st') = 0"
proof -
  obtain st1 where 1: "(system_step lib N L wa s E)\<^sup>*\<^sup>* st st1" "sy_running st1 = []" "sy_rotated st1 = sy_rotated st"
      "map fst (sy_answered st1) = map fst (sy_answered st) @ map fst (sy_running st)"
    using drain_requests by blast
  obtain st2 where 2: "(system_step lib N L wa s E)\<^sup>*\<^sup>* st1 st2" "w_emails (sy_world st2) = []" "sy_running st2 = []"
      "sy_rotated st2 = sy_rotated st" "sy_answered st2 = sy_answered st1"
    using drain_emails [of lib N L wa s E st1] 1(2,3) by auto
  have r: "(system_step lib N L wa s E)\<^sup>*\<^sup>* st st2" using 1(1) 2(1) by (rule rtranclp_trans)
  have "system_inv (in_force lib N s (sy_rotated st2)) st2"
    using system_invariant [OF assms(1,2)] assms(3) r by (blast intro: rtranclp_trans)
  then have "w_sem (sy_world st2) = 0" using 2(2,3) by (auto simp: system_inv_def slots_ok_def slot_counts_def)
  then show ?thesis using r 1(4) 2 by (intro exI [of _ st2]) simp
qed

theorem system_drains_witness:
  "\<exists>st st'. (system_step local_jwt local_names local_middleware (Some local_webauthn) local_service local_env)\<^sup>*\<^sup>* st st' \<and>
     length (sy_running st) = 1 \<and> sy_running st' = [] \<and> map fst (sy_answered st') = [''POST /v1/otp/verify''] \<and>
     w_sem (sy_world st') = 0"
proof -
  let ?h = "OTPVerifyHandler [] local_service"
  have m: "(''POST /v1/otp/verify'', ?h) \<in> set (public_newMux local_middleware [] (Some local_webauthn)
      (service_after local_jwt local_names local_service (sy_rotated login_start)))"
    by (simp add: login_start_def local_service_start public_newMux_def Let_def Chain_def oauthMW_def local_middleware_def)
  let ?st = "login_start\<lparr>sy_running := (''POST /v1/otp/verify'', ?h login_request) # sy_running login_start\<rparr>"
  have run: "(system_step local_jwt local_names local_middleware (Some local_webauthn) local_service local_env)\<^sup>*\<^sup>* login_start ?st"
    by (rule r_into_rtranclp [of _ login_start]) (rule system_step.arrive [OF m])
  from system_drains [OF local_middleware_wraps login_starting run]
  show ?thesis by (elim exE) (intro exI [of _ ?st] exI, auto simp: login_start_def)
qed

end
