(* ===== verification/Wire.thy ===== *)
theory Wire
  imports PasskeyFlowProps AuthorizeProps TokenEndpointProps
begin

text \<open>
  Answers on the wire: \<open>writeJSON\<close> and the encodings of the response structs of package
  \<open>models\<close>, with their member names, order and \<open>omitempty\<close>; what a client decodes from an
  answer; and the enumerations that the generated package declares, against what the endpoints
  accept.
\<close>

section \<open>Encoding\<close>

text \<open>Pointer fields with \<open>omitempty\<close>: nothing when nil.\<close>

definition omit_nil :: "string \<Rightarrow> ('a \<Rightarrow> json) \<Rightarrow> 'a option \<Rightarrow> (string \<times> json) list" where
  "omit_nil f enc v = (case v of None \<Rightarrow> [] | Some x \<Rightarrow> [(f, enc x)])"

definition int_member :: "int \<Rightarrow> json" where
  "int_member i = JNum (strconv_Itoa i)"

definition TokenResponse_to_json :: "TokenResponse \<Rightarrow> json" where
  "TokenResponse_to_json t = JObj (
     [(''access_token'', JStr (ts_AccessToken t)), (''expires_in'', int_member (ts_ExpiresIn t))]
     @ omit_nil ''refresh_token'' JStr (ts_RefreshToken t) @ omit_nil ''scope'' JStr (ts_Scope t)
     @ [(''token_type'', JStr (ts_TokenType t))])"

definition IntrospectResponse_to_json :: "IntrospectResponse \<Rightarrow> json" where
  "IntrospectResponse_to_json r = JObj (
     [(''active'', JBool (ir_Active r))] @ omit_nil ''aud'' JStr (ir_Aud r) @ omit_nil ''client_id'' JStr (ir_ClientId r)
     @ omit_nil ''exp'' int_member (ir_Exp r) @ omit_nil ''iat'' int_member (ir_Iat r) @ omit_nil ''scope'' JStr (ir_Scope r)
     @ omit_nil ''sub'' JStr (ir_Sub r) @ omit_nil ''token_type'' JStr (ir_TokenType r))"

text \<open>
  The scopes of a validated token are those of its claims, where an absent list is nil (the claims
  are written with \<open>omitempty\<close>): a nil slice is written as \<open>null\<close>.
\<close>

definition slice_json :: "string list \<Rightarrow> json" where
  "slice_json ss = (if ss = [] then JNull else JArr (map JStr ss))"

definition ValidateResponse_to_json :: "ValidateResponse \<Rightarrow> json" where
  "ValidateResponse_to_json r = JObj (
     omit_nil ''error'' JStr (vr_Error r) @ omit_nil ''scopes'' slice_json (vr_Scopes r) @ omit_nil ''sub'' JStr (vr_Sub r)
     @ [(''valid'', JBool (vr_Valid r))])"

text \<open>\<open>Time.MarshalJSON\<close> fails outside years 0 to 9999, and the encoding with it.\<close>

definition PasskeyRegisteredResponse_to_json :: "string \<Rightarrow> int \<Rightarrow> json res" where
  "PasskeyRegisteredResponse_to_json cid created =
     map_sum id (\<lambda>t. JObj [(''created_at'', JStr t), (''credential_id'', JStr cid)]) (time_text created)"

text \<open>The value that a handler gives to \<open>writeJSON\<close>; the other bodies are not written by it, or are lists and maps of records.\<close>

definition body_json :: "body \<Rightarrow> json res option" where
  "body_json b =
     (case b of
        TokenBody t \<Rightarrow> Some (Inr (TokenResponse_to_json t))
      | RevokedBody at \<Rightarrow> Some (Inr (map_json ((''revoked'', JBool True) # omit_nil ''revoked_at'' int_member at)))
      | IntrospectBody r \<Rightarrow> Some (Inr (IntrospectResponse_to_json r))
      | ValidateBody r \<Rightarrow> Some (Inr (ValidateResponse_to_json r))
      | MessageBody m \<Rightarrow> Some (Inr (map_json [(''message'', JStr m)]))
      | StatusBody m \<Rightarrow> Some (Inr (map_json [(''status'', JStr m)]))
      | PasskeyBody cid now \<Rightarrow> Some (PasskeyRegisteredResponse_to_json cid now)
      | JsonBody v \<Rightarrow> Some (Inr v)
      | _ \<Rightarrow> None)"

text \<open>\<open>Encoder.Encode\<close>: the text and a newline; on an error nothing is written (and it is logged).\<close>

definition writeJSON :: "json res \<Rightarrow> string" where
  "writeJSON v = (case v of Inl err \<Rightarrow> [] | Inr j \<Rightarrow> print_value j @ [CHR 0x0A])"

section \<open>Decoding\<close>

text \<open>What a client that declares the same structs reads: \<open>int\<close> and \<open>bool\<close> fields, and pointers to them.\<close>

fun into_int64 :: "int \<Rightarrow> json list \<Rightarrow> int res" where
  "into_int64 acc [] = Inr acc"
| "into_int64 acc (JNum n # vs) = (case strconv_ParseInt n of Inl e \<Rightarrow> Inl type_error | Inr i \<Rightarrow> into_int64 i vs)"
| "into_int64 acc (JNull # vs) = into_int64 acc vs"
| "into_int64 acc (v # vs) = Inl type_error"

fun into_int64_ptr :: "int option \<Rightarrow> json list \<Rightarrow> int option res" where
  "into_int64_ptr acc [] = Inr acc"
| "into_int64_ptr acc (JNum n # vs) = (case strconv_ParseInt n of Inl e \<Rightarrow> Inl type_error | Inr i \<Rightarrow> into_int64_ptr (Some i) vs)"
| "into_int64_ptr acc (JNull # vs) = into_int64_ptr None vs"
| "into_int64_ptr acc (v # vs) = Inl type_error"

text \<open>A pointer to a list: \<open>null\<close> makes it nil.\<close>

fun into_strings_ptr :: "string list option \<Rightarrow> json list \<Rightarrow> string list option res" where
  "into_strings_ptr acc [] = Inr acc"
| "into_strings_ptr acc (JArr es # vs) =
     (case string_elems es of Inl e \<Rightarrow> Inl e | Inr ss \<Rightarrow> into_strings_ptr (Some ss) vs)"
| "into_strings_ptr acc (JNull # vs) = into_strings_ptr None vs"
| "into_strings_ptr acc (v # vs) = Inl type_error"

definition TokenResponse_of_json :: "json \<Rightarrow> TokenResponse res" where
  "TokenResponse_of_json v0 =
     and_then (struct_value v0) (\<lambda>v.
     and_then (field_string ''access_token'' v) (\<lambda>a.
     and_then (into_int64 0 (members_of ''expires_in'' v)) (\<lambda>e.
     and_then (field_string_ptr ''refresh_token'' v) (\<lambda>r.
     and_then (field_string_ptr ''scope'' v) (\<lambda>s.
     and_then (field_string ''token_type'' v) (\<lambda>t.
       Inr \<lparr>ts_AccessToken = a, ts_ExpiresIn = e, ts_RefreshToken = r, ts_Scope = s, ts_TokenType = t\<rparr>))))))"

definition IntrospectResponse_of_json :: "json \<Rightarrow> IntrospectResponse res" where
  "IntrospectResponse_of_json v0 =
     and_then (struct_value v0) (\<lambda>v.
     and_then (field_bool ''active'' v) (\<lambda>act.
     and_then (field_string_ptr ''aud'' v) (\<lambda>aud.
     and_then (field_string_ptr ''client_id'' v) (\<lambda>cid.
     and_then (into_int64_ptr None (members_of ''exp'' v)) (\<lambda>e.
     and_then (into_int64_ptr None (members_of ''iat'' v)) (\<lambda>i.
     and_then (field_string_ptr ''scope'' v) (\<lambda>sc.
     and_then (field_string_ptr ''sub'' v) (\<lambda>sub.
     and_then (field_string_ptr ''token_type'' v) (\<lambda>tt.
       Inr \<lparr>ir_Active = act, ir_Aud = aud, ir_ClientId = cid, ir_Exp = e, ir_Iat = i, ir_Scope = sc, ir_Sub = sub,
            ir_TokenType = tt\<rparr>)))))))))"

definition ValidateResponse_of_json :: "json \<Rightarrow> ValidateResponse res" where
  "ValidateResponse_of_json v0 =
     and_then (struct_value v0) (\<lambda>v.
     and_then (field_string_ptr ''error'' v) (\<lambda>e.
     and_then (into_strings_ptr None (members_of ''scopes'' v)) (\<lambda>sc.
     and_then (field_string_ptr ''sub'' v) (\<lambda>sub.
     and_then (field_bool ''valid'' v) (\<lambda>ok.
       Inr \<lparr>vr_Error = e, vr_Scopes = sc, vr_Sub = sub, vr_Valid = ok\<rparr>)))))"

section \<open>Round trips\<close>

text \<open>Texts that UTF-8 can carry, and numbers in the range of \<open>int64\<close> that are not negative.\<close>

definition text_ok :: "string \<Rightarrow> bool" where
  "text_ok s \<longleftrightarrow> to_valid s = s"

definition int_ok :: "int \<Rightarrow> bool" where
  "int_ok i \<longleftrightarrow> 0 \<le> i \<and> i < 2 ^ 63"

definition token_response_ok :: "TokenResponse \<Rightarrow> bool" where
  "token_response_ok t \<longleftrightarrow> text_ok (ts_AccessToken t) \<and> int_ok (ts_ExpiresIn t) \<and> pred_option text_ok (ts_RefreshToken t) \<and>
     pred_option text_ok (ts_Scope t) \<and> text_ok (ts_TokenType t)"

definition introspect_response_ok :: "IntrospectResponse \<Rightarrow> bool" where
  "introspect_response_ok r \<longleftrightarrow> (\<forall>x \<in> {ir_Aud r, ir_ClientId r, ir_Scope r, ir_Sub r, ir_TokenType r}. pred_option text_ok x) \<and>
     pred_option int_ok (ir_Exp r) \<and> pred_option int_ok (ir_Iat r)"

definition validate_response_ok :: "ValidateResponse \<Rightarrow> bool" where
  "validate_response_ok r \<longleftrightarrow> pred_option text_ok (vr_Error r) \<and> pred_option text_ok (vr_Sub r) \<and>
     pred_option (list_all text_ok) (vr_Scopes r) \<and> vr_Scopes r \<noteq> Some []"

lemma scan_Itoa: "0 \<le> i \<Longrightarrow> scan_number (strconv_Itoa i) = Some (strconv_Itoa i, [])"
  by (simp add: strconv_Itoa_def scan_format)

lemmas decode_fields = struct_value_def field_string_def field_string_ptr_def field_bool_def members_of_def omit_nil_def
  fold_name_lower int_member_def slice_json_def

text \<open>An object is read whatever follows it.\<close>

lemma Decode_object:
  assumes "json_ok maxNestingDepth (JObj ms)"
  shows "Decode (print_value (JObj ms) @ r) = Inr (JObj ms)"
proof -
  let ?n = "2 * length (print_value (JObj ms) @ r) + 1"
  have "parse_value maxNestingDepth (Suc ?n) (print_value (JObj ms) @ r) = Some (JObj ms, r)"
  proof (cases ms)
    case Nil
    then show ?thesis by (simp add: skip_ws_head maxNestingDepth_def)
  next
    case (Cons m ms')
    obtain k v where m: "m = (k, v)" by fastforce
    have "parse_members (maxNestingDepth - 1) ?n (print_members ms @ CHR ''}'' # r) = Some (ms, r)"
      by (rule parse_print(3)) (use assms Cons in auto)
    moreover have "\<exists>cs. print_members ms @ CHR ''}'' # r = CHR 0x22 # cs"
      using Cons m by (cases ms') (auto simp: quote_def)
    ultimately show ?thesis by (auto simp: skip_ws_head maxNestingDepth_def)
  qed
  then show ?thesis by (simp add: Decode_def parse_prefix_def)
qed

lemma token_response_read:
  assumes "token_response_ok t"
  shows "TokenResponse_of_json (TokenResponse_to_json t) = Inr t"
  using assms
  by (cases "ts_RefreshToken t"; cases "ts_Scope t")
    (auto simp: TokenResponse_of_json_def TokenResponse_to_json_def decode_fields token_response_ok_def int_ok_def ParseInt_Itoa)

lemma introspect_response_read:
  assumes "introspect_response_ok r"
  shows "IntrospectResponse_of_json (IntrospectResponse_to_json r) = Inr r"
  using assms
  by (cases r)
    (auto simp: IntrospectResponse_of_json_def IntrospectResponse_to_json_def decode_fields introspect_response_ok_def int_ok_def
      ParseInt_Itoa split: option.split)

lemma validate_response_read:
  assumes "validate_response_ok r"
  shows "ValidateResponse_of_json (ValidateResponse_to_json r) = Inr r"
  using assms
  by (cases r)
    (auto simp: ValidateResponse_of_json_def ValidateResponse_to_json_def decode_fields validate_response_ok_def split: option.split)


text \<open>A scope that tries to end the string and to add a member.\<close>

definition nasty_response :: TokenResponse where
  "nasty_response = \<lparr>ts_AccessToken = ''a.b.c'', ts_ExpiresIn = 3600, ts_RefreshToken = None,
     ts_Scope = Some (CHR 0x22 # '','' @ CHR 0x22 # ''refresh_token'' @ CHR 0x22 # '':'' @ CHR 0x22 # ''x''),
     ts_TokenType = ''Bearer''\<rparr>"


section \<open>Declared enumerations\<close>

text \<open>The methods \<open>Valid\<close> of the generated enumerations.\<close>

definition TokenRequestGrantType_Valid :: "string \<Rightarrow> bool" where
  "TokenRequestGrantType_Valid e \<longleftrightarrow> e = ''authorization_code'' \<or> e = ''client_credentials'' \<or> e = ''refresh_token''"

definition AuthorizeParamsResponseType_Valid :: "string \<Rightarrow> bool" where
  "AuthorizeParamsResponseType_Valid e \<longleftrightarrow> e = ''code''"

definition AuthorizeParamsCodeChallengeMethod_Valid :: "string \<Rightarrow> bool" where
  "AuthorizeParamsCodeChallengeMethod_Valid e \<longleftrightarrow> e = ''S256''"

text \<open>The endpoints accept no value outside the enumerations of the API description: the token endpoint
  refuses any other grant type, whatever grant types the SDK accepts, and the authorization endpoint
  any other response type or challenge method, with nothing called and nothing changed; what it
  answers then is no redirect with a code that it stored.\<close>

theorem unlisted_values_refused:
  "(decodeTokenRequest req = Inr rb \<longrightarrow> \<not> TokenRequestGrantType_Valid (tr_GrantType rb) \<longrightarrow>
      (\<exists>d. exec (OAuthTokenHandler s req) E w = (\<lparr>rs_Headers = json_no_store, rs_Outcome = SendError Auth_UnsupportedGrantType d\<rparr>, w))) \<and>
   (\<not> AuthorizeParamsResponseType_Valid (asked req ''response_type'') \<or>
      \<not> AuthorizeParamsCodeChallengeMethod_Valid (asked req ''code_challenge_method'') \<longrightarrow>
      snd (exec (OAuthAuthorizeHandler s req) E w) = w)"
proof (intro conjI impI)
  assume "decodeTokenRequest req = Inr rb" and "\<not> TokenRequestGrantType_Valid (tr_GrantType rb)"
  then show "\<exists>d. exec (OAuthTokenHandler s req) E w =
      (\<lparr>rs_Headers = json_no_store, rs_Outcome = SendError Auth_UnsupportedGrantType d\<rparr>, w)"
    by (auto simp: OAuthTokenHandler_def Let_def TokenRequestGrantType_Valid_def)
next
  assume "\<not> AuthorizeParamsResponseType_Valid (asked req ''response_type'') \<or>
      \<not> AuthorizeParamsCodeChallengeMethod_Valid (asked req ''code_challenge_method'')"
  then have "\<not> well_asked s req"
    by (auto simp: well_asked_def AuthorizeParamsResponseType_Valid_def AuthorizeParamsCodeChallengeMethod_Valid_def)
  then show "snd (exec (OAuthAuthorizeHandler s req) E w) = w"
    using authorize_refuses prod.collapse by metis
qed

theorem unlisted_values_refused_witness:
  "snd (exec (OAuthAuthorizeHandler local_service
      ((local_request JNull)\<lparr>in_RawQuery := ''response_type=token''\<rparr>)) local_env (local_world Map.empty [] 5)) = local_world Map.empty [] 5"
proof -
  let ?req = "(local_request JNull)\<lparr>in_RawQuery := ''response_type=token''\<rparr>"
  have "asked ?req ''code_challenge_method'' \<noteq> ''S256''" by code_simp
  then show ?thesis
    using unlisted_values_refused [of ?req _ local_service local_env "local_world Map.empty [] 5"]
    unfolding AuthorizeParamsCodeChallengeMethod_Valid_def by blast
qed

end
