(* ===== verification/Server.thy ===== *)
theory Server
  imports EntryProps RouteProps
begin

text \<open>
  The two programs from their arguments to the serving of requests: the health probe, the fatal
  end, or the watch on the rotating secrets and the HTTP server with its limits. What the SDK's
  \<open>Watch\<close> and \<open>srv.Run\<close> and the HTTP server do with them is not in the repository.
\<close>

section \<open>Values the programs hand over\<close>

definition second_of_time :: int where
  "second_of_time = 1000000000"

definition keyRotationPollInterval :: int where
  "keyRotationPollInterval = 24 * 3600 * second_of_time"

record watch =
  wt_Interval :: int
  wt_Names :: "string list"
  wt_OnRotation :: "Keys \<times> Registry \<Rightarrow> secrets \<Rightarrow> Keys \<times> Registry"

record http_server =
  hs_Handler :: "(string \<times> handler) list"
  hs_ReadTimeout :: int
  hs_WriteTimeout :: int
  hs_IdleTimeout :: int
  hs_ReadHeaderTimeout :: int
  hs_MaxHeaderBytes :: nat

record serving =
  sg_Watch :: watch
  sg_Server :: http_server
  sg_Port :: string
  sg_ShutdownTimeout :: int

datatype program = Probe "int proc" | Fatal goerror | Serving serving

section \<open>The public program\<close>

definition public_watch :: "jwt_lib \<Rightarrow> sdk_names \<Rightarrow> watch" where
  "public_watch lib N = \<lparr>wt_Interval = keyRotationPollInterval, wt_Names = rotatingSecretNames N,
     wt_OnRotation = on_rotation lib N\<rparr>"

definition public_server :: "(string \<times> handler) list \<Rightarrow> http_server" where
  "public_server mux = \<lparr>hs_Handler = mux, hs_ReadTimeout = 5 * second_of_time, hs_WriteTimeout = 10 * second_of_time,
     hs_IdleTimeout = 60 * second_of_time, hs_ReadHeaderTimeout = 2 * second_of_time,
     hs_MaxHeaderBytes = push_bit 20 1\<rparr>"

definition public_program ::
  "jwt_lib \<Rightarrow> sdk \<Rightarrow> sdk_names \<Rightarrow> secrets_api \<Rightarrow> 's webauthn_lib sdk_new \<Rightarrow> middleware_lib \<Rightarrow> bool list \<Rightarrow>
     string list \<Rightarrow> process \<Rightarrow> program \<times> process" where
  "public_program lib S N sa C L sch args p =
     (case run_args args (secret (pr_env p) (nm_PORT N)) of
        Some probe \<Rightarrow> (Probe probe, p)
      | None \<Rightarrow>
          (case public_main lib S N sa C p of
             (Inl err, p') \<Rightarrow> (Fatal err, p')
           | (Inr (svc, wa), p') \<Rightarrow>
               (Serving \<lparr>sg_Watch = public_watch lib N, sg_Server = public_server (public_newMux L sch (Some wa) svc),
                  sg_Port = secret (pr_env p') (nm_PORT N), sg_ShutdownTimeout = 30 * second_of_time\<rparr>, p')))"

section \<open>The private program\<close>

definition private_rotatingSecretNames :: "sdk_names \<Rightarrow> string list" where
  "private_rotatingSecretNames N = [nm_JWT_PRIVATE_KEY N, nm_JWT_PUBLIC_KEY N, nm_JWT_KID N, nm_JWT_ISSUER N,
     nm_JWT_AUDIENCE N, REGISTERED_CLIENTS]"

definition private_keyRotationPollInterval :: int where
  "private_keyRotationPollInterval = 24 * 3600 * second_of_time"

definition private_jwtConfig :: "sdk_names \<Rightarrow> secrets \<Rightarrow> JwtConfig" where
  "private_jwtConfig N m = \<lparr>PrivateKeyPEM = secret m (nm_JWT_PRIVATE_KEY N), PublicKeyPEM = secret m (nm_JWT_PUBLIC_KEY N),
     KID = secret m (nm_JWT_KID N), cfg_Issuer = secret m (nm_JWT_ISSUER N),
     cfg_Audience = secret m (nm_JWT_AUDIENCE N)\<rparr>"

definition private_on_rotation :: "jwt_lib \<Rightarrow> sdk_names \<Rightarrow> Keys \<times> Registry \<Rightarrow> secrets \<Rightarrow> Keys \<times> Registry" where
  "private_on_rotation lib N st m =
     (case st of (keys, registry) \<Rightarrow>
        (snd (Keys_Reload lib keys (private_jwtConfig N m)), snd (Registry_Reload registry (secret m REGISTERED_CLIENTS))))"

definition private_watch :: "jwt_lib \<Rightarrow> sdk_names \<Rightarrow> watch" where
  "private_watch lib N = \<lparr>wt_Interval = private_keyRotationPollInterval, wt_Names = private_rotatingSecretNames N,
     wt_OnRotation = private_on_rotation lib N\<rparr>"

definition private_server :: "(string \<times> handler) list \<Rightarrow> http_server" where
  "private_server mux = \<lparr>hs_Handler = mux, hs_ReadTimeout = 5 * second_of_time, hs_WriteTimeout = 10 * second_of_time,
     hs_IdleTimeout = 60 * second_of_time, hs_ReadHeaderTimeout = 2 * second_of_time,
     hs_MaxHeaderBytes = push_bit 20 1\<rparr>"

definition private_program ::
  "jwt_lib \<Rightarrow> sdk \<Rightarrow> sdk_names \<Rightarrow> secrets_api \<Rightarrow> 'w sdk_new \<Rightarrow> middleware_lib \<Rightarrow> string list \<Rightarrow> process \<Rightarrow>
     program \<times> process" where
  "private_program lib S N sa C L args p =
     (case run_args args (secret (pr_env p) (nm_PORT_PRIVATE N)) of
        Some probe \<Rightarrow> (Probe probe, p)
      | None \<Rightarrow>
          (case private_main lib S N sa C p of
             (Inl err, p') \<Rightarrow> (Fatal err, p')
           | (Inr svc, p') \<Rightarrow>
               (Serving \<lparr>sg_Watch = private_watch lib N, sg_Server = private_server (private_newMux L svc),
                  sg_Port = secret (pr_env p') (nm_PORT_PRIVATE N), sg_ShutdownTimeout = 30 * second_of_time\<rparr>, p')))"

section \<open>Properties\<close>

text \<open>The copies of the private program are those of the public one.\<close>

lemma private_copies:
  "private_watch lib N = public_watch lib N" "private_server mux = public_server mux"
proof -
  have "private_on_rotation lib N st m = on_rotation lib N st m" for st m
    by (simp add: private_on_rotation_def on_rotation_def private_jwtConfig_def jwtConfig_def)
  then have "private_on_rotation lib N = on_rotation lib N" by (intro ext)
  then show "private_watch lib N = public_watch lib N"
    by (simp add: private_watch_def public_watch_def private_keyRotationPollInterval_def keyRotationPollInterval_def
        private_rotatingSecretNames_def rotatingSecretNames_def)
qed (simp add: private_server_def public_server_def)

lemma watch_covers:
  "set (wt_Names (public_watch lib N)) \<subseteq> set (public_secretKeys N) \<inter> set (private_secretKeys N)"
  "\<forall>n \<in> set (wt_Names (public_watch lib N)). secret m n = secret m' n \<Longrightarrow>
     wt_OnRotation (public_watch lib N) st m = wt_OnRotation (public_watch lib N) st m'"
  by (auto simp: public_watch_def rotatingSecretNames_def public_secretKeys_def private_secretKeys_def on_rotation_def
      jwtConfig_def split: prod.split)

text \<open>Only names that the start loads are watched, and they are all that a reload reads.\<close>

definition watch_complete :: "watch \<Rightarrow> string list \<Rightarrow> bool" where
  "watch_complete W ks \<longleftrightarrow> set (wt_Names W) \<subseteq> set ks \<and>
     (\<forall>m m' st. (\<forall>n \<in> set (wt_Names W). secret m n = secret m' n) \<longrightarrow> wt_OnRotation W st m = wt_OnRotation W st m')"


definition local_api :: secrets_api where
  "local_api = \<lparr>sa_New = (\<lambda>c. Inr ()), sa_GetSecrets = (\<lambda>ks. Inr local_secrets)\<rparr>"

definition local_process :: process where
  "local_process = \<lparr>pr_env = Map.empty, pr_idem_ttl = None, pr_sm_open = False\<rparr>"

lemma local_private_started:
  "\<exists>s q. private_main local_jwt local_sdk local_names local_api local_new local_process = (Inr s, q)"
proof -
  obtain s wa p' where st: "public_main local_jwt local_sdk local_names local_api local_new local_process = (Inr (s, wa), p')"
    using local_started by (auto simp: local_start_def local_api_def local_process_def)
  have c: "sa_New local_api x = Inr ()" "sa_GetSecrets local_api ks = Inr local_secrets" for x ks by (simp_all add: local_api_def)
  obtain k r where "NewKeys local_jwt (jwtConfig local_names local_secrets) = Inr k"
      "NewRegistry (secret local_secrets REGISTERED_CLIENTS) = Inr r"
    using st by (auto simp: public_main_def public_loadDependencies_def Let_def c split: sum.splits prod.splits)
  then show ?thesis
    by (simp add: private_main_def private_loadDependencies_def Let_def c NewService_def local_new_def Clients_New_def db_New_def)
qed


end
