(* ===== verification/Spec2Isabelle.thy ===== *)
theory Spec2Isabelle
  imports GrantProps OtpEndpointProps OtpRequestProps TokenEndpointProps AuthorizeProps KeyProps ClientProps
    PasskeyFlowProps EntryProps RouteProps ServiceProps RefreshRace Bounds JsonFuel FlowProps SystemProps
    Wire Server
begin

text \<open>
  A verification of the komodo-auth-api service, the token issuer of the Komodo platform. The
  service is written in Go; paths below are relative to \<open>src/\<close>.

  \<^bold>\<open>The program.\<close> Two binaries share one code base. The public one (\<open>cmd/public/main.go\<close>) issues
  tokens: the OAuth token endpoint with its three grants (client credentials, refresh,
  authorization code), the authorization endpoint, revocation, one-time codes by e-mail, passkeys,
  and the JWKS document. The private one (\<open>cmd/private/main.go\<close>) answers questions about tokens and
  clients: introspection, validation, the client registry. Both load keys and registry from a
  secrets manager, poll it for rotations, and make one \<open>Service\<close> (\<open>internal/api/service.go\<close>) whose
  methods are the handlers. The handlers work on a Redis cache (\<open>internal/db\<close>), on two HTTP peers
  and a DynamoDB table (\<open>internal/clients\<close>), on the key set (\<open>internal/jwt\<close>), the client registry
  (\<open>internal/oauth\<close>) and the WebAuthn relying party (\<open>internal/webauthn\<close>).

  \<^bold>\<open>How the code is modelled.\<close> Pure functions are functions. A function that talks to the outside or
  to state that requests share is a value of \<open>'a proc\<close> (\<open>Effects\<close>): it returns, or makes one call
  (a Redis command, an HTTP request, a reading of the clock, a load of the cached service token)
  and goes on with the reply. \<open>exec\<close> runs one request alone in an environment and a world;
  \<open>run_pool\<close> (\<open>Interleave\<close>) runs any number of them, interleaved call by call with time passing;
  \<open>par\<close> (\<open>Goroutines\<close>) runs the two goroutines of a verification under a schedule. A pair of value
  and error is a sum (\<open>Prelude\<close>); an error keeps its chain of wrapped errors, since the code
  compares with \<open>errors.Is\<close>. The one mutex that a handler takes, around the
  service token, is not modelled: an interleaving may also go through its critical section, which
  only adds runs.

  \<^bold>\<open>The theories.\<close>
  \<^item> Go's library, as far as the program uses it: \<open>GoStrings\<close>, \<open>GoEncoding\<close> (base64, hex),
    \<open>GoCrypto\<close> (SHA-256, constant-time comparison), \<open>GoJson\<close> and \<open>JsonFuel\<close> (encoder and decoder),
    \<open>GoUrl\<close> and \<open>GoUri\<close> (queries, forms, URIs).
  \<^item> \<open>CacheApi\<close>: the contract of the Redis client as the locales \<open>kv_store\<close>, \<open>redis\<close> (with time) and
    \<open>kv_reliable\<close> (without faults), interpreted on the fake cache of the repository's tests and, in
    \<open>TtlStore\<close>, on a store with expiry and scripted faults.
  \<^item> \<open>CacheClient\<close>, \<open>OtpStore\<close>, \<open>TokenStore\<close>, \<open>AuthCodeStore\<close>, \<open>WebAuthnStore\<close>: \<open>internal/db\<close>, one
    theory for each file; \<open>WebAuthnStore\<close> has \<open>internal/webauthn\<close> as well.
  \<^item> \<open>Clients\<close>, \<open>PasskeyClient\<close>: \<open>internal/clients\<close>. \<open>ClientRegistry\<close>: \<open>internal/oauth/clients.go\<close>.
    \<open>JwtKeys\<close>: \<open>internal/jwt/jwt.go\<close>. \<open>Service\<close>: \<open>internal/api/service.go\<close> and the service token.
  \<^item> The handlers of \<open>internal/api\<close>: \<open>OAuthToken\<close>, \<open>AuthorizeEndpoint\<close>, \<open>TokenEndpoints\<close>
    (revocation, introspection, validation), \<open>OtpEndpoints\<close>, \<open>PasskeyEndpoints\<close>, \<open>InfoEndpoints\<close>
    (JWKS, clients, health); requests and responses are in \<open>HttpTypes\<close>.
  \<^item> \<open>EntryPoints\<close>: both \<open>main.go\<close>, the loading of secrets, the routes with their middleware, the
    start. \<open>Server\<close>: both programs from their arguments to the serving of requests, with the watch on
    the rotating secrets and the limits of the HTTP server.
  \<^item> \<open>Wire\<close>: \<open>writeJSON\<close> and the encodings of the responses of \<open>internal/models\<close>.
  \<^item> \<open>LocalEnv\<close>, \<open>LocalService\<close>, \<open>LocalOAuth\<close>, \<open>LocalPasskey\<close>: a concrete environment, JWT library,
    WebAuthn library and service, which satisfy every hypothesis on the outside; the witnesses run
    the model in them.
  \<^item> \<open>OtpStoreProps\<close>, \<open>OAuthTokenLemmas\<close>, \<open>GrantProps\<close>, \<open>RefreshProps\<close>, \<open>RefreshRace\<close>, \<open>AuthCodeProps\<close>,
    \<open>AuthorizeProps\<close>, \<open>TokenEndpointProps\<close>, \<open>OtpEndpointProps\<close>, \<open>OtpRequestProps\<close>, \<open>PasskeyProps\<close>,
    \<open>PasskeyFlowProps\<close>, \<open>KeyProps\<close>, \<open>ClientProps\<close>, \<open>ServiceProps\<close>, \<open>EntryProps\<close>, \<open>RouteProps\<close>,
    \<open>Bounds\<close>: the properties. \<open>FlowProps\<close>: what the tokens of one endpoint open at another.
  \<^item> \<open>Guarantee\<close>, \<open>System\<close>, \<open>SystemProps\<close>: what each program guarantees about the state that requests
    share, for every handler and route; the public program as a transition system (\<open>system_step\<close>:
    requests arrive, make their calls and are answered, e-mails are delivered, secrets are rotated,
    the outside changes), its invariant and its properties.

  \<^bold>\<open>What is shown.\<close>
  \<^item> Who gets a token. For each grant and login: a response with a token implies that every check
    has passed (credentials, scopes, revocation, redirect URI and code challenge, attempt cap,
    assertion), and the token's claims are the ones that were to be signed; for refresh and the
    authorization flow also the converse, that a request in order succeeds.
  \<^item> Single use. One-time codes and login sessions are redeemed once under every interleaving;
    authorization codes once in sequence, and a run shows that two overlapping exchanges can both
    succeed; refresh tokens rotate and a replay revokes the family, unless it overlaps the first use.
  \<^item> Revocation. Revocation, introspection and validation refine an abstract set of revoked IDs; a
    revoked token is refused everywhere, and only its owner can revoke it; what happens when the
    store cannot be read is stated too.
  \<^item> Keys. Tokens survive one rotation; the accepted keys are the published ones through any reloads;
    which of its own tokens the service validates; what two programs that poll at different times
    do with each other's tokens.
  \<^item> The program as a whole. In every run, tokens are answered only on three routes, with that route's
    claims and signed with keys that were in force; the cached service token, the cached JWKS document
    and the pending e-mails are always in order; and from every state all requests can be answered and
    all slots of the e-mail semaphore freed. The two programs serve and reload the same keys.
  \<^item> Flows. The token of an e-mail login opens the registration of a passkey, a passkey login is
    refreshed; and two weaknesses: the scope that an authorization request names opens the
    registration without a secret, and a scope that begins with \<open>svc:\<close> escapes the ban check.
  \<^item> Limits. The attempt cap under concurrency, the life of codes, the number of pending e-mails, and
    for each handler the number of calls after which it has returned.
  \<^item> Round trips of what is stored and answered: clients, codes, sessions, passkeys, JSON text,
    response bodies.

  \<^bold>\<open>Bounds and fuel.\<close> The only fuel is that of the JSON parser, twice the length of the text and two;
  \<open>JsonFuel.parse_prefix_fuel\<close> shows that more of it changes nothing. The nesting depth of 10000 is
  Go's own. Programs need no fuel: \<open>exec\<close> is recursive in the program; the scanner of media types
  and the other loops are functions with termination proofs, and \<open>chunks16\<close> of SHA-256 is given the
  exact number of blocks. Times are nanoseconds since
  1970 in \<open>int\<close>, expiries of tokens are whole seconds, as in the code.

  \<^bold>\<open>Parameters.\<close> Code that is not in the repository is an argument of the model: the SDK (\<open>sdk\<close>: scope
  and e-mail syntax, DynamoDB keys; \<open>sdk_names\<close>, \<open>secrets_api\<close>, \<open>sdk_new\<close>, \<open>middleware_lib\<close>), golang-jwt
  (\<open>jwt_lib\<close>, with the laws \<open>jwt_complete\<close>, \<open>jwt_sound\<close>, \<open>jwt_payload\<close>, \<open>jwt_keyfunc\<close>) and go-webauthn
  (\<open>webauthn_lib\<close>). What the properties rely on is stated as a hypothesis that the local theories
  satisfy.

  \<^bold>\<open>Simplifications.\<close> Upper and lower case and white space are those of ASCII. A nil dereference is a
  500 answer, or an error where the function returns one. The host of a URI is not checked for IP
  literals. Members of JSON objects are matched as Go does, without case; the elements of an array
  that is given twice are not merged. A cached service token is not
  tied to the key set it was signed with, as in the code. The client list is a function, as Go ranges
  over a map in no order, and its encoding is left out. In \<open>system_step\<close> a request works with the keys
  and the registry of its arrival; in Go a rotation during a request is seen by its later steps.

  \<^bold>\<open>Not modelled.\<close> Log output; what the HTTP server does with its limits; the transport of the HTTP
  client and its timeouts (an expired call is an error of the environment); the SDK's middleware (a
  parameter); the poll of the secrets manager (a rotation is the callback it makes); the core-dump
  guard; \<open>newMux\<close> for a nil service, which does not occur; generated models that no handler uses;
  \<open>GetOTPAttempts\<close> is modelled but called by no handler. Test doubles, deployment and the OpenAPI
  document are not part of the program.
\<close>

end
